theory Spec2Isabelle
  imports Main "HOL-Library.AList"
begin

section \<open>Strings, bytes and exceptions\<close>

text \<open>
  Byte strings are lists of 8-bit characters.  Text is modelled over the same characters,
  read as the code points below 256; on these \<open>str.strip\<close> and \<open>str.lower\<close> are
  the functions below.
\<close>

type_synonym bytes = string

datatype py_exc =
    AttributeError
  | EOFError
  | FileExistsError
  | FileNotFoundError
  | NotADirectoryError
  | IsADirectoryError
  | LibraryError string

text \<open>\<open>LibraryError\<close> stands for any exception raised inside an external library
  (the service client, the image library, the text codec), with its message.\<close>

definition py_isspace :: "char \<Rightarrow> bool" where
  "py_isspace c = (of_char c \<in> {9, 10, 11, 12, 13, 28, 29, 30, 31, 32, 133, 160 :: nat})"

definition py_strip :: "string \<Rightarrow> string" where
  "py_strip s = rev (dropWhile py_isspace (rev (dropWhile py_isspace s)))"

definition py_lower_char :: "char \<Rightarrow> char" where
  "py_lower_char c =
     (let n = (of_char c :: nat)
      in if (65 \<le> n \<and> n \<le> 90) \<or> (192 \<le> n \<and> n \<le> 222 \<and> n \<noteq> 215)
         then char_of (n + 32) else c)"

definition py_lower :: "string \<Rightarrow> string" where
  "py_lower s = map py_lower_char s"

definition endswith :: "string \<Rightarrow> string \<Rightarrow> bool" where
  "endswith s suffix = (length suffix \<le> length s \<and> drop (length s - length suffix) s = suffix)"

text \<open>Truthiness of a value that is \<open>None\<close> or a sequence (\<open>if not x\<close>).\<close>

definition truthy :: "'a list option \<Rightarrow> bool" where
  "truthy x = (case x of None \<Rightarrow> False | Some [] \<Rightarrow> False | Some (_ # _) \<Rightarrow> True)"

section \<open>The service boundary\<close>

text \<open>
  A response of the service as \<open>save_image\<close> reads it: \<open>response.candidates\<close>,
  \<open>candidate.content\<close>, \<open>content.parts\<close>, \<open>part.inline_data\<close> and
  \<open>inline_data.data\<close>.  Every attribute but the last may be \<open>None\<close>.
\<close>

record blob =
  data :: bytes
  mime_type :: string

record part =
  inline_data :: "blob option"
  part_text :: "string option"

record content =
  parts :: "part list option"

record candidate =
  content :: "content option"

record response =
  candidates :: "candidate list option"

text \<open>
  A call of \<open>client.models.generate_content\<close>: the model identifier and the two
  items of \<open>contents\<close>, an image part built by \<open>Part.from_bytes\<close> and the
  instruction text.  The configuration is the same constant in every call.
\<close>

record request =
  req_model :: string
  req_data :: bytes
  req_mime :: string
  req_text :: string

section \<open>Effects\<close>

text \<open>
  Console lines.  Each constructor is one \<open>print\<close> of the script, with the values
  its f-string interpolates.
\<close>

datatype msg =
    ApiKeyMissing
  | Saved string
  | FaceNotFound string
  | NoTxtFiles string
  | MenuHeader
  | MenuOption1
  | MenuOption2
  | UsingModel string
  | FoundPrompts nat
  | Separator
  | Processing string
  | PromptPreview string
  | SavingTo string int
  | GeneratingConcept string
  | ConceptError py_exc
  | ConceptFailed
  | CheckImage string
  | SkippingPoses
  | GeneratingPoses nat string
  | PoseHeader nat nat string
  | PoseFailed py_exc
  | AllPosesFinished string
  | SessionComplete

datatype ask = AskModel | AskPoses string

datatype event =
    Print msg
  | Input ask string
  | MakeDirs string
  | ListDir string
  | Call request "py_exc + response"
  | Wrote string bytes
  | Sleep nat

datatype node = File bytes | Dir

text \<open>
  The world the script acts on: the file system (path to node, in the order the system
  enumerates entries), the lines still to be read from standard input, and the effects so
  far, oldest first.
\<close>

record world =
  fs :: "(string \<times> node) list"
  stdin :: "string list"
  trace :: "event list"

text \<open>
  What the script does not define itself: the environment variable, the pose list of
  module \<open>pose\<close>, the service, the clock, the image library and the text codec.
  The service and the clock may answer differently at every call, so they read the
  history.
\<close>

record 'img env =
  API_KEY :: "string option"
  POSES :: "string list"
  generate_content :: "event list \<Rightarrow> request \<Rightarrow> py_exc + response"
  time_now :: "event list \<Rightarrow> int"
  Image_open :: "bytes \<Rightarrow> py_exc + 'img"
  Image_save :: "'img \<Rightarrow> string \<Rightarrow> py_exc + bytes"
  decode_text :: "bytes \<Rightarrow> py_exc + string"

definition emit :: "event \<Rightarrow> world \<Rightarrow> world" where
  "emit e w = w\<lparr>trace := trace w @ [e]\<rparr>"

definition write_file :: "string \<Rightarrow> bytes \<Rightarrow> world \<Rightarrow> world" where
  "write_file path enc w =
     emit (Wrote path enc) (w\<lparr>fs := AList.update path (File enc) (fs w)\<rparr>)"

section \<open>The image persistence helper\<close>

text \<open>
  The loop of \<open>save_image\<close> over the parts.  \<open>Image.open\<close> and \<open>img.save\<close> may
  raise; nothing is written then.
\<close>

fun save_parts :: "'img env \<Rightarrow> string \<Rightarrow> part list \<Rightarrow> world \<Rightarrow> (py_exc + bytes option) \<times> world" where
  "save_parts env path [] w = (Inr None, w)"
| "save_parts env path (p # ps) w =
     (case inline_data p of
        None \<Rightarrow> save_parts env path ps w
      | Some b \<Rightarrow>
          (case Image_open env (data b) of
             Inl e \<Rightarrow> (Inl e, w)
           | Inr img \<Rightarrow>
               (case Image_save env img path of
                  Inl e \<Rightarrow> (Inl e, w)
                | Inr enc \<Rightarrow>
                    (Inr (Some (data b)), emit (Print (Saved path)) (write_file path enc w)))))"

definition save_image :: "'img env \<Rightarrow> response \<Rightarrow> string \<Rightarrow> world \<Rightarrow> (py_exc + bytes option) \<times> world" where
  "save_image env resp path w =
     (if truthy (candidates resp) then
        (case content (hd (the (candidates resp))) of
           None \<Rightarrow> (Inl AttributeError, w)
         | Some ct \<Rightarrow>
             (if truthy (parts ct) then save_parts env path (the (parts ct)) w
              else (Inr None, w)))
      else (Inr None, w))"

section \<open>Paths and the file system\<close>

text \<open>\<open>posixpath.join\<close>: a component that starts with the separator restarts the path.\<close>

definition join2 :: "string \<Rightarrow> string \<Rightarrow> string" where
  "join2 path b =
     (if b \<noteq> [] \<and> hd b = CHR ''/'' then b
      else if path = [] \<or> last path = CHR ''/'' then path @ b
      else path @ ''/'' @ b)"

definition path_join :: "string \<Rightarrow> string list \<Rightarrow> string" where
  "path_join a ps = foldl join2 a ps"

text \<open>\<open>str.rfind\<close> for one character: the last index, or \<open>-1\<close>.\<close>

definition rfind :: "char \<Rightarrow> string \<Rightarrow> int" where
  "rfind c s = (case filter (\<lambda>i. s ! i = c) (rev [0..<length s]) of [] \<Rightarrow> - 1 | i # _ \<Rightarrow> int i)"

text \<open>\<open>os.path.splitext\<close>: the extension starts at the last dot of the last
  component, unless only dots precede it there.\<close>

definition splitext :: "string \<Rightarrow> string \<times> string" where
  "splitext p =
     (let sepIndex = rfind (CHR ''/'') p; dotIndex = rfind (CHR ''.'') p
      in if dotIndex > sepIndex \<and>
            list_ex (\<lambda>k. p ! k \<noteq> CHR ''.'') [nat (sepIndex + 1)..<nat dotIndex]
         then (take (nat dotIndex) p, drop (nat dotIndex) p)
         else (p, []))"

text \<open>Decimal rendering of an integer, as an f-string interpolates it.\<close>

function str_nat :: "nat \<Rightarrow> string" where
  "str_nat n = (if n < 10 then [char_of (48 + n)] else str_nat (n div 10) @ [char_of (48 + n mod 10)])"
  by pat_completeness auto
termination
  by (relation "measure id") auto

declare str_nat.simps [simp del]

definition str_int :: "int \<Rightarrow> string" where
  "str_int k = (if k < 0 then ''-'' @ str_nat (nat (- k)) else str_nat (nat k))"

text \<open>
  The paths a path passes through: its prefixes ending before a separator, and itself.
  \<open>os.makedirs(p, exist_ok=True)\<close> walks them from the shortest: a directory is
  kept, a missing one is created, a regular file in the way raises.  Directories created
  before the failure stay.
\<close>

fun prefixes_at_sep :: "string \<Rightarrow> string \<Rightarrow> string list" where
  "prefixes_at_sep acc [] = [acc]"
| "prefixes_at_sep acc (c # cs) =
     (if c = CHR ''/'' then acc # prefixes_at_sep (acc @ [c]) cs
      else prefixes_at_sep (acc @ [c]) cs)"

definition ancestors :: "string \<Rightarrow> string list" where
  "ancestors p = filter (\<lambda>q. q \<noteq> [] \<and> last q \<noteq> CHR ''/'') (prefixes_at_sep [] p)"

fun mkdir_chain :: "string list \<Rightarrow> (string \<times> node) list \<Rightarrow> py_exc option \<times> (string \<times> node) list" where
  "mkdir_chain [] f = (None, f)"
| "mkdir_chain (d # ds) f =
     (case map_of f d of
        Some Dir \<Rightarrow> mkdir_chain ds f
      | Some (File _) \<Rightarrow> (Some (if ds = [] then FileExistsError else NotADirectoryError), f)
      | None \<Rightarrow> mkdir_chain ds (f @ [(d, Dir)]))"

definition makedirs :: "string \<Rightarrow> world \<Rightarrow> py_exc option \<times> world" where
  "makedirs p w =
     (case mkdir_chain (ancestors p) (fs w) of
        (r, f) \<Rightarrow> (r, emit (MakeDirs p) (w\<lparr>fs := f\<rparr>)))"

definition path_exists :: "world \<Rightarrow> string \<Rightarrow> bool" where
  "path_exists w p = (map_of (fs w) p \<noteq> None)"

text \<open>The name of an entry of directory \<open>d\<close>: what follows \<open>d/\<close>, without separator.\<close>

definition entry_name :: "string \<Rightarrow> string \<Rightarrow> string option" where
  "entry_name d p =
     (let n = drop (length d + 1) p
      in if take (length d + 1) p = d @ ''/'' \<and> n \<noteq> [] \<and> CHR ''/'' \<notin> set n
         then Some n else None)"

definition listdir :: "string \<Rightarrow> world \<Rightarrow> (py_exc + string list) \<times> world" where
  "listdir d w =
     (case map_of (fs w) d of
        None \<Rightarrow> (Inl FileNotFoundError, emit (ListDir d) w)
      | Some (File _) \<Rightarrow> (Inl NotADirectoryError, emit (ListDir d) w)
      | Some Dir \<Rightarrow> (Inr (List.map_filter (entry_name d) (map fst (fs w))), emit (ListDir d) w))"

definition read_file :: "world \<Rightarrow> string \<Rightarrow> py_exc + bytes" where
  "read_file w p =
     (case map_of (fs w) p of
        None \<Rightarrow> Inl FileNotFoundError
      | Some Dir \<Rightarrow> Inl IsADirectoryError
      | Some (File b) \<Rightarrow> Inr b)"

text \<open>\<open>input(prompt)\<close>: the next line of standard input, or \<open>EOFError\<close>.\<close>

definition py_input :: "ask \<Rightarrow> world \<Rightarrow> (py_exc + string) \<times> world" where
  "py_input a w =
     (case stdin w of
        [] \<Rightarrow> (Inl EOFError, w)
      | l # ls \<Rightarrow> (Inr l, emit (Input a l) (w\<lparr>stdin := ls\<rparr>)))"

section \<open>Configuration\<close>

definition REF_FACE_PATH :: string where
  "REF_FACE_PATH = ''reference image face''"

definition PROMPTS_FOLDER :: string where
  "PROMPTS_FOLDER = ''prompts''"

definition OUTPUT_BASE :: string where
  "OUTPUT_BASE = ''output folder''"

definition MODELS :: "(string \<times> string) list" where
  "MODELS = [(''1'', ''gemini-2.5-flash-image''), (''2'', ''gemini-3-pro-image-preview'')]"

text \<open>\<open>MODELS.get(choice, "gemini-2.5-flash-image")\<close> on the stripped input line.\<close>

definition select_model :: "string \<Rightarrow> string" where
  "select_model line =
     (let choice = py_strip line
      in case map_of MODELS choice of Some m \<Rightarrow> m | None \<Rightarrow> ''gemini-2.5-flash-image'')"

definition nl :: string where
  "nl = [char_of (10 :: nat)]"

definition master_prompt :: "string \<Rightarrow> string" where
  "master_prompt prompt_text =
     nl @ ''    Fashion photography of [the person in the reference image].'' @
     nl @ ''    '' @ prompt_text @
     nl @ ''    CRITICAL: Maintain the facial identity of the reference image exactly.'' @
     nl @ ''    ''"

definition pose_prompt :: "string \<Rightarrow> string" where
  "pose_prompt pose =
     nl @ ''        TASK: Create a variation of the [ATTACHED IMAGE].'' @
     nl @ ''        '' @
     nl @ ''        INSTRUCTIONS:'' @
     nl @ ''        1. Keep the exact character (face, hair, clothes) from the [ATTACHED IMAGE].'' @
     nl @ ''        2. Keep the exact background environment from the [ATTACHED IMAGE].'' @
     nl @ ''        3. CHANGE ONLY THE POSE to: '' @ pose @ ''.'' @
     nl @ ''        ''"

section \<open>The generation driver\<close>

text \<open>The arguments of the two calls of \<open>generate_content\<close>.\<close>

definition master_request :: "string \<Rightarrow> bytes \<Rightarrow> string \<Rightarrow> request" where
  "master_request model face_bytes text =
     \<lparr>req_model = model, req_data = face_bytes, req_mime = ''image/jpeg'', req_text = text\<rparr>"

definition pose_request :: "string \<Rightarrow> bytes \<Rightarrow> string \<Rightarrow> request" where
  "pose_request model master_image_bytes pose =
     \<lparr>req_model = model, req_data = master_image_bytes, req_mime = ''image/png'',
      req_text = pose_prompt pose\<rparr>"

text \<open>
  Step 1 of the per-prompt body: the master request inside its \<open>try\<close>, and the test
  of \<open>master_image_bytes\<close> after it.  The result \<open>None\<close> is the \<open>continue\<close> of
  either branch.
\<close>

definition generate_master :: "'img env \<Rightarrow> string \<Rightarrow> bytes \<Rightarrow> string \<Rightarrow> string \<Rightarrow> world \<Rightarrow> bytes option \<times> world" where
  "generate_master env model face_bytes text master_path w =
     (let req = master_request model face_bytes text;
          res = generate_content env (trace w) req;
          w1 = emit (Call req res) w
      in case res of
           Inl e \<Rightarrow> (None, emit (Print (ConceptError e)) w1)
         | Inr response \<Rightarrow>
             (case save_image env response master_path w1 of
                (Inl e, w2) \<Rightarrow> (None, emit (Print (ConceptError e)) w2)
              | (Inr master_image_bytes, w2) \<Rightarrow>
                  (if \<not> truthy master_image_bytes then (None, emit (Print ConceptFailed) w2)
                   else (master_image_bytes, w2))))"

text \<open>
  One iteration of the pose loop, for index \<open>i\<close> of \<open>enumerate(POSES)\<close>.  The pause
  is the last statement of the \<open>try\<close> block.
\<close>

definition pose_body :: "'img env \<Rightarrow> string \<Rightarrow> bytes \<Rightarrow> string \<Rightarrow> nat \<Rightarrow> string \<Rightarrow> world \<Rightarrow> world" where
  "pose_body env model master_image_bytes dir i pose w =
     (let w0 = emit (Print (PoseHeader (i + 1) (length (POSES env)) pose)) w;
          req = pose_request model master_image_bytes pose;
          res = generate_content env (trace w0) req;
          w1 = emit (Call req res) w0
      in case res of
           Inl e \<Rightarrow> emit (Print (PoseFailed e)) w1
         | Inr response \<Rightarrow>
             (let pose_filename = path_join dir [''pose_'' @ str_nat (i + 1) @ ''.png'']
              in case save_image env response pose_filename w1 of
                   (Inl e, w2) \<Rightarrow> emit (Print (PoseFailed e)) w2
                 | (Inr _, w2) \<Rightarrow> emit (Sleep 2) w2))"

fun pose_loop :: "'img env \<Rightarrow> string \<Rightarrow> bytes \<Rightarrow> string \<Rightarrow> nat \<Rightarrow> string list \<Rightarrow> world \<Rightarrow> world" where
  "pose_loop env model master_image_bytes dir i [] w = w"
| "pose_loop env model master_image_bytes dir i (pose # rest) w =
     pose_loop env model master_image_bytes dir (Suc i) rest
       (pose_body env model master_image_bytes dir i pose w)"

text \<open>Steps 2 and 3: the operator gate, then the poses.\<close>

definition ask_and_pose :: "'img env \<Rightarrow> string \<Rightarrow> string \<Rightarrow> string \<Rightarrow> string \<Rightarrow> bytes \<Rightarrow> world \<Rightarrow> py_exc option \<times> world" where
  "ask_and_pose env model clean_name dir master_path master_image_bytes w =
     (case py_input (AskPoses clean_name) (emit (Print (CheckImage master_path)) w) of
        (Inl e, w1) \<Rightarrow> (Some e, w1)
      | (Inr line, w1) \<Rightarrow>
          (let user_choice = py_lower (py_strip line)
           in if user_choice \<noteq> ''y'' then (None, emit (Print SkippingPoses) w1)
              else (None,
                emit (Print (AllPosesFinished clean_name))
                  (pose_loop env model master_image_bytes dir 0 (POSES env)
                    (emit (Print (GeneratingPoses (length (POSES env)) model)) w1)))))"

text \<open>The output directory of one prompt, from its file name and the clock.\<close>

definition current_output_dir :: "'img env \<Rightarrow> string \<Rightarrow> world \<Rightarrow> string" where
  "current_output_dir env filename w =
     (let clean_name = fst (splitext filename);
          run_id = time_now env (trace w)
      in path_join OUTPUT_BASE [clean_name, ''run_'' @ str_int run_id])"

text \<open>
  The body of the loop over the prompt files.  The result \<open>Some e\<close> is an exception
  no handler catches: it ends the program.
\<close>

definition process_prompt :: "'img env \<Rightarrow> string \<Rightarrow> bytes \<Rightarrow> string \<Rightarrow> world \<Rightarrow> py_exc option \<times> world" where
  "process_prompt env model face_bytes filename w =
     (let clean_name = fst (splitext filename);
          txt_path = path_join PROMPTS_FOLDER [filename];
          run_id = time_now env (trace w);
          dir = current_output_dir env filename w
      in case makedirs dir w of
           (Some e, w1) \<Rightarrow> (Some e, w1)
         | (None, w1) \<Rightarrow>
             (case read_file w1 txt_path of
                Inl e \<Rightarrow> (Some e, w1)
              | Inr raw \<Rightarrow>
                  (case decode_text env raw of
                     Inl e \<Rightarrow> (Some e, w1)
                   | Inr txt \<Rightarrow>
                       (let prompt_text = py_strip txt;
                            w2 = emit (Print (GeneratingConcept model))
                                   (emit (Print (SavingTo clean_name run_id))
                                     (emit (Print (PromptPreview (take 60 prompt_text)))
                                       (emit (Print (Processing filename))
                                         (emit (Print Separator) w1))));
                            master_path = path_join dir [''00_MASTER_CONCEPT.png'']
                        in case generate_master env model face_bytes (master_prompt prompt_text) master_path w2 of
                             (None, w3) \<Rightarrow> (None, w3)
                           | (Some master_image_bytes, w3) \<Rightarrow>
                               ask_and_pose env model clean_name dir master_path master_image_bytes w3))))"

fun prompts_loop :: "'img env \<Rightarrow> string \<Rightarrow> bytes \<Rightarrow> string list \<Rightarrow> world \<Rightarrow> py_exc option \<times> world" where
  "prompts_loop env model face_bytes [] w = (None, w)"
| "prompts_loop env model face_bytes (filename # rest) w =
     (case process_prompt env model face_bytes filename w of
        (Some e, w1) \<Rightarrow> (Some e, w1)
      | (None, w1) \<Rightarrow> prompts_loop env model face_bytes rest w1)"

section \<open>The script\<close>

datatype outcome = Completed | Exited | Crashed py_exc

text \<open>The prompt files: the entries of the prompts folder whose name ends in \<open>.txt\<close>.\<close>

definition discover :: "world \<Rightarrow> (py_exc + string list) \<times> world" where
  "discover w =
     (case listdir PROMPTS_FOLDER w of
        (Inl e, w1) \<Rightarrow> (Inl e, w1)
      | (Inr names, w1) \<Rightarrow> (Inr (filter (\<lambda>f. endswith f ''.txt'') names), w1))"

text \<open>From model selection to the end of the session.\<close>

definition session :: "'img env \<Rightarrow> bytes \<Rightarrow> string list \<Rightarrow> world \<Rightarrow> outcome \<times> world" where
  "session env face_bytes files w =
     (case py_input AskModel
             (emit (Print MenuOption2) (emit (Print MenuOption1) (emit (Print MenuHeader) w))) of
        (Inl e, w1) \<Rightarrow> (Crashed e, w1)
      | (Inr line, w1) \<Rightarrow>
          (let SELECTED_MODEL = select_model line;
               w2 = emit (Print (FoundPrompts (length files)))
                      (emit (Print (UsingModel SELECTED_MODEL)) w1)
           in case prompts_loop env SELECTED_MODEL face_bytes files w2 of
                (Some e, w3) \<Rightarrow> (Crashed e, w3)
              | (None, w3) \<Rightarrow> (Completed, emit (Print SessionComplete) w3)))"

text \<open>
  The script from its first line: the credential check, the two folders, the reference
  face, the prompt files, the session.  \<open>exit()\<close> ends it with \<open>Exited\<close>, an
  exception outside every \<open>try\<close> with \<open>Crashed\<close>.  Building the client and the
  configuration has no effect on the world and is left out.
\<close>

definition main :: "'img env \<Rightarrow> world \<Rightarrow> outcome \<times> world" where
  "main env w =
     (if \<not> truthy (API_KEY env) then (Exited, emit (Print ApiKeyMissing) w)
      else case makedirs PROMPTS_FOLDER w of
             (Some e, w1) \<Rightarrow> (Crashed e, w1)
           | (None, w1) \<Rightarrow>
               (case makedirs OUTPUT_BASE w1 of
                  (Some e, w2) \<Rightarrow> (Crashed e, w2)
                | (None, w2) \<Rightarrow>
                    (if \<not> path_exists w2 REF_FACE_PATH
                     then (Exited, emit (Print (FaceNotFound REF_FACE_PATH)) w2)
                     else case read_file w2 REF_FACE_PATH of
                            Inl e \<Rightarrow> (Crashed e, w2)
                          | Inr face_bytes \<Rightarrow>
                              (case discover w2 of
                                 (Inl e, w3) \<Rightarrow> (Crashed e, w3)
                               | (Inr files, w3) \<Rightarrow>
                                   (if files = []
                                    then (Exited, emit (Print (NoTxtFiles PROMPTS_FOLDER)) w3)
                                    else session env face_bytes files w3)))))"

section \<open>Reading the trace\<close>

text \<open>The effects between two worlds, the requests among them, and the paths written.\<close>

definition new_events :: "world \<Rightarrow> world \<Rightarrow> event list" where
  "new_events w w' = drop (length (trace w)) (trace w')"

fun requests :: "event list \<Rightarrow> request list" where
  "requests [] = []"
| "requests (Call r _ # es) = r # requests es"
| "requests (_ # es) = requests es"

fun written :: "event list \<Rightarrow> string list" where
  "written [] = []"
| "written (Wrote p _ # es) = p # written es"
| "written (_ # es) = written es"

fun made :: "event list \<Rightarrow> string list" where
  "made [] = []"
| "made (MakeDirs p # es) = p # made es"
| "made (_ # es) = made es"

text \<open>
  The calls among the effects, each with its result; the requests whose call is followed at
  once by a write, each with the path written; and the file system that results from
  replaying the writes among the effects.
\<close>

fun calls :: "event list \<Rightarrow> (request \<times> (py_exc + response)) list" where
  "calls [] = []"
| "calls (Call r res # es) = (r, res) # calls es"
| "calls (_ # es) = calls es"

fun saved_as :: "event list \<Rightarrow> (request \<times> string) list" where
  "saved_as [] = []"
| "saved_as (Call r _ # Wrote p _ # es) = (r, p) # saved_as es"
| "saved_as (_ # es) = saved_as es"

fun apply_writes :: "event list \<Rightarrow> (string \<times> node) list \<Rightarrow> (string \<times> node) list" where
  "apply_writes [] f = f"
| "apply_writes (Wrote p enc # es) f = apply_writes es (AList.update p (File enc) f)"
| "apply_writes (_ # es) f = apply_writes es f"

text \<open>The two kinds of request differ in the image they attach: the reference face, sent
  as \<open>image/jpeg\<close>, or the master image, sent as \<open>image/png\<close>.  A pose request
  is one of the second kind.\<close>

definition is_pose_request :: "request \<Rightarrow> bool" where
  "is_pose_request r = (req_mime r = ''image/png'')"

text \<open>
  The files a fully successful run of one prompt is expected to leave in its directory, for
  \<open>n\<close> poses: the master file and \<open>pose_1.png\<close> to \<open>pose_n.png\<close>.
\<close>

definition expected_files :: "string \<Rightarrow> nat \<Rightarrow> string list" where
  "expected_files dir n =
     (dir @ ''/00_MASTER_CONCEPT.png'') #
     map (\<lambda>k. dir @ ''/pose_'' @ str_nat k @ ''.png'') [1..<Suc n]"

text \<open>A call that succeeds: it returns a response from which \<open>save_image\<close>, for the
  given path, returns bytes that are not empty.\<close>

definition yields_image :: "'img env \<Rightarrow> string \<Rightarrow> py_exc + response \<Rightarrow> bool" where
  "yields_image env path res =
     (case res of
        Inl e \<Rightarrow> False
      | Inr resp \<Rightarrow>
          (case fst (save_image env resp path \<lparr>fs = [], stdin = [], trace = []\<rparr>) of
             Inr (Some b) \<Rightarrow> b \<noteq> []
           | _ \<Rightarrow> False))"

section \<open>An example environment\<close>

text \<open>
  A small image library for the examples.  An encoded image is a format tag, a colon and
  the pixel data.  Saving picks the format from the extension of the target path, as the
  image library of the script does when \<open>save\<close> gets no format argument.
\<close>

definition demo_open :: "bytes \<Rightarrow> py_exc + (string \<times> bytes)" where
  "demo_open b =
     (if CHR '':'' \<in> set b
      then Inr (takeWhile (\<lambda>c. c \<noteq> CHR '':'') b, tl (dropWhile (\<lambda>c. c \<noteq> CHR '':'') b))
      else Inl (LibraryError ''cannot identify image file''))"

definition demo_save :: "string \<times> bytes \<Rightarrow> string \<Rightarrow> py_exc + bytes" where
  "demo_save img path =
     (if endswith path ''.png'' then Inr (''PNG:'' @ snd img)
      else if endswith path ''.jpg'' then Inr (''JPEG:'' @ snd img)
      else Inl (LibraryError ''unknown file extension''))"

definition image_response :: "bytes \<Rightarrow> response" where
  "image_response b =
     \<lparr>candidates = Some [\<lparr>content = Some \<lparr>parts = Some
        [\<lparr>inline_data = None, part_text = Some ''Here is the image.''\<rparr>,
         \<lparr>inline_data = Some \<lparr>data = b, mime_type = ''image/jpeg''\<rparr>, part_text = None\<rparr>]\<rparr>\<rparr>]\<rparr>"

definition demo_env :: "(string \<times> bytes) env" where
  "demo_env =
     \<lparr>API_KEY = Some ''key'', POSES = [''standing'', ''sitting''],
      generate_content = (\<lambda>h req. Inr (image_response ''JPEG:abc'')),
      time_now = (\<lambda>h. 1700000000),
      Image_open = demo_open, Image_save = demo_save,
      decode_text = Inr\<rparr>"

definition empty_world :: world where
  "empty_world = \<lparr>fs = [], stdin = [], trace = []\<rparr>"

definition text_response :: response where
  "text_response =
     \<lparr>candidates = Some [\<lparr>content = Some \<lparr>parts = Some
        [\<lparr>inline_data = None, part_text = Some ''I cannot draw that.''\<rparr>]\<rparr>\<rparr>]\<rparr>"

definition failing_env :: "(string \<times> bytes) env" where
  "failing_env = demo_env\<lparr>generate_content := (\<lambda>h req. Inl (LibraryError ''503 UNAVAILABLE''))\<rparr>"

definition text_env :: "(string \<times> bytes) env" where
  "text_env = demo_env\<lparr>generate_content := (\<lambda>h req. Inr text_response)\<rparr>"

text \<open>A service that answers while the history is short and fails afterwards.\<close>

definition picky_env :: "(string \<times> bytes) env" where
  "picky_env =
     demo_env\<lparr>generate_content :=
       (\<lambda>h req. if length h < 30 then Inr (image_response ''JPEG:abc'')
                 else Inl (LibraryError ''429 RESOURCE_EXHAUSTED''))\<rparr>"

text \<open>A world with the reference face, one prompt file, and a directory whose name ends
  in \<open>.txt\<close>; the operator picks the first model and confirms the poses.\<close>

definition demo_world :: world where
  "demo_world =
     \<lparr>fs = [(''reference image face'', File ''FACE''),
            (''prompts'', Dir),
            (''prompts/winter.txt'', File ''A red coat in snow.''),
            (''prompts/shots.txt'', Dir)],
      stdin = [''1'', '' Y ''],
      trace = []\<rparr>"

text \<open>The same world with a regular file where the directory of the prompt has to be, and
  the same world with the output directory of the prompt already there.\<close>

definition blocked_world :: world where
  "blocked_world =
     demo_world\<lparr>fs := fs demo_world @
       [(''output folder'', Dir), (''output folder/winter'', File ''notes'')]\<rparr>"

definition rerun_world :: world where
  "rerun_world =
     demo_world\<lparr>fs := fs demo_world @
       [(''output folder'', Dir), (''output folder/winter'', Dir),
        (''output folder/winter/run_1700000000'', Dir)]\<rparr>"

text \<open>A world that holds the reference face and nothing else.\<close>

definition face_world :: world where
  "face_world = \<lparr>fs = [(''reference image face'', File ''FACE'')], stdin = [], trace = []\<rparr>"

section \<open>Properties of the image persistence helper\<close>

lemma emit_simps: "trace (emit e w) = trace w @ [e]" "fs (emit e w) = fs w" "stdin (emit e w) = stdin w"
  by (simp_all add: emit_def)

lemma write_file_simps:
  "trace (write_file p enc w) = trace w @ [Wrote p enc]"
  "fs (write_file p enc w) = AList.update p (File enc) (fs w)"
  "stdin (write_file p enc w) = stdin w"
  by (simp_all add: write_file_def emit_def)

lemma save_parts_found:
  "\<forall>q \<in> set pre. inline_data q = None \<Longrightarrow> inline_data p = Some b \<Longrightarrow>
   Image_open env (data b) = Inr img \<Longrightarrow> Image_save env img path = Inr enc \<Longrightarrow>
   save_parts env path (pre @ p # post) w =
     (Inr (Some (data b)), emit (Print (Saved path)) (write_file path enc w))"
  by (induction pre) simp_all

lemma save_parts_none:
  "\<forall>q \<in> set ps. inline_data q = None \<Longrightarrow> save_parts env path ps w = (Inr None, w)"
  by (induction ps) simp_all


text \<open>
  C2 (as amended).  Given a response whose first candidate has content, \<open>save_image\<close>
  passes over the parts without inline data, decodes the first part that carries inline
  data, writes to the target path what the image library encodes for that path, prints the
  path and returns the bytes of that part as received.
\<close>

theorem save_image_first_inline_part:
  assumes "candidates resp = Some (c # cs)" and "content c = Some ct"
    and "parts ct = Some (pre @ p # post)" and "\<forall>q \<in> set pre. inline_data q = None"
    and "inline_data p = Some b" and "Image_open env (data b) = Inr img"
    and "Image_save env img path = Inr enc"
  shows "save_image env resp path w =
           (Inr (Some (data b)), emit (Print (Saved path)) (write_file path enc w))
         \<and> map_of (fs (snd (save_image env resp path w))) path = Some (File enc)"
proof -
  have t1: "truthy (candidates resp)" and t2: "truthy (parts ct)"
    using assms(1,3) by (simp_all add: truthy_def split: list.splits)
  have "save_image env resp path w = save_parts env path (pre @ p # post) w"
    using assms(1,2,3) t1 t2 by (simp add: save_image_def)
  also have "\<dots> = (Inr (Some (data b)), emit (Print (Saved path)) (write_file path enc w))"
    using assms(4-7) by (rule save_parts_found)
  finally have eq: "save_image env resp path w =
    (Inr (Some (data b)), emit (Print (Saved path)) (write_file path enc w))" .
  then show ?thesis
    by (simp add: emit_simps write_file_simps update_conv')
qed

text \<open>The theorem at a response with a text part followed by a JPEG part, saved to a
  path ending in \<open>.jpg\<close>.\<close>

theorem save_image_first_inline_part_witness:
  "save_image demo_env (image_response ''JPEG:abc'') ''out/a.jpg'' empty_world =
     (Inr (Some ''JPEG:abc''),
      emit (Print (Saved ''out/a.jpg'')) (write_file ''out/a.jpg'' ''JPEG:abc'' empty_world))
   \<and> map_of (fs (snd (save_image demo_env (image_response ''JPEG:abc'') ''out/a.jpg'' empty_world)))
        ''out/a.jpg'' = Some (File ''JPEG:abc'')"
  using save_image_first_inline_part [of "image_response ''JPEG:abc''"
      "\<lparr>content = Some \<lparr>parts = Some
        [\<lparr>inline_data = None, part_text = Some ''Here is the image.''\<rparr>,
         \<lparr>inline_data = Some \<lparr>data = ''JPEG:abc'', mime_type = ''image/jpeg''\<rparr>, part_text = None\<rparr>]\<rparr>\<rparr>"
      "[]"
      "\<lparr>parts = Some
        [\<lparr>inline_data = None, part_text = Some ''Here is the image.''\<rparr>,
         \<lparr>inline_data = Some \<lparr>data = ''JPEG:abc'', mime_type = ''image/jpeg''\<rparr>, part_text = None\<rparr>]\<rparr>"
      "[\<lparr>inline_data = None, part_text = Some ''Here is the image.''\<rparr>]"
      "\<lparr>inline_data = Some \<lparr>data = ''JPEG:abc'', mime_type = ''image/jpeg''\<rparr>, part_text = None\<rparr>"
      "[]"
      "\<lparr>data = ''JPEG:abc'', mime_type = ''image/jpeg''\<rparr>"
      demo_env "(''JPEG'', ''abc'')" "''out/a.jpg''" "''JPEG:abc''" empty_world]
  by (simp add: image_response_def demo_env_def demo_open_def demo_save_def endswith_def
      emit_def write_file_def empty_world_def update_conv')

text \<open>
  C2 (as stated) fails: the file does not hold the image in the encoded form it arrived
  in.  A part with JPEG data saved to a path ending in \<open>.png\<close> leaves other bytes on
  disk than the bytes returned.
\<close>

theorem save_image_reencodes:
  "fst (save_image demo_env (image_response ''JPEG:abc'') ''out/a.png'' empty_world)
     = Inr (Some ''JPEG:abc'')
   \<and> map_of (fs (snd (save_image demo_env (image_response ''JPEG:abc'') ''out/a.png'' empty_world)))
        ''out/a.png'' = Some (File ''PNG:abc'')
   \<and> ''PNG:abc'' \<noteq> ''JPEG:abc''"
  by (simp add: save_image_def truthy_def image_response_def demo_env_def demo_open_def
      demo_save_def endswith_def emit_def write_file_def empty_world_def)

text \<open>
  C3.  A response whose first candidate has no content makes \<open>save_image\<close> raise
  \<open>AttributeError\<close>: the test of \<open>response.candidates[0].content.parts\<close> reads
  \<open>parts\<close> of \<open>None\<close>.  The docstring promises \<open>None\<close> on failure.
\<close>

theorem save_image_no_content_raises:
  "save_image env \<lparr>candidates = Some [\<lparr>content = None\<rparr>]\<rparr> path w = (Inl AttributeError, w)"
  by (simp add: save_image_def truthy_def)

text \<open>The other cases without an image do return \<open>None\<close> and leave the world as it is.\<close>

lemma save_image_not_found:
  "\<not> truthy (candidates resp) \<Longrightarrow> save_image env resp path w = (Inr None, w)"
  "candidates resp = Some (c # cs) \<Longrightarrow> content c = Some ct \<Longrightarrow> \<not> truthy (parts ct) \<Longrightarrow>
     save_image env resp path w = (Inr None, w)"
  "candidates resp = Some (c # cs) \<Longrightarrow> content c = Some ct \<Longrightarrow> parts ct = Some ps \<Longrightarrow>
     \<forall>q \<in> set ps. inline_data q = None \<Longrightarrow> save_image env resp path w = (Inr None, w)"
  by (auto simp: save_image_def truthy_def save_parts_none split: list.splits)

lemma requests_append: "requests (xs @ ys) = requests xs @ requests ys"
  by (induction xs rule: requests.induct) simp_all

lemma written_append: "written (xs @ ys) = written xs @ written ys"
  by (induction xs rule: written.induct) simp_all

lemma made_append: "made (xs @ ys) = made xs @ made ys"
  by (induction xs rule: made.induct) simp_all

lemma save_parts_fst: "fst (save_parts env path ps w) = fst (save_parts env path ps w0)"
  by (induction ps) (simp_all split: option.splits sum.splits)

lemma save_image_fst: "fst (save_image env resp path w) = fst (save_image env resp path w0)"
  using save_parts_fst[of env path _ w w0]
  by (simp add: save_image_def split: option.splits)

lemma save_parts_unchanged:
  "fst (save_parts env path ps w) = Inl e \<Longrightarrow> snd (save_parts env path ps w) = w"
  "fst (save_parts env path ps w) = Inr None \<Longrightarrow> snd (save_parts env path ps w) = w"
  by (induction ps) (simp_all split: option.splits sum.splits)

lemma save_parts_written:
  "fst (save_parts env path ps w) = Inr (Some b) \<Longrightarrow>
     \<exists>enc. snd (save_parts env path ps w) = emit (Print (Saved path)) (write_file path enc w)"
  by (induction ps) (auto split: option.splits sum.splits)

lemma save_image_unchanged:
  "fst (save_image env resp path w) = Inl e \<Longrightarrow> snd (save_image env resp path w) = w"
  "fst (save_image env resp path w) = Inr None \<Longrightarrow> snd (save_image env resp path w) = w"
  by (auto simp: save_image_def save_parts_unchanged split: option.splits if_splits)

lemma save_image_written:
  "fst (save_image env resp path w) = Inr (Some b) \<Longrightarrow>
     \<exists>enc. snd (save_image env resp path w) = emit (Print (Saved path)) (write_file path enc w)"
  by (auto simp: save_image_def save_parts_written split: option.splits if_splits)

section \<open>Properties of the operator input\<close>

lemma dropWhile_all: "\<forall>x\<in>set xs. P x \<Longrightarrow> dropWhile P (xs @ ys) = dropWhile P ys"
  by (induction xs) simp_all

lemma py_strip_singleton:
  assumes "\<not> py_isspace c"
  shows "py_strip s = [c] \<longleftrightarrow>
    (\<exists>l r. s = l @ [c] @ r \<and> (\<forall>x\<in>set l. py_isspace x) \<and> (\<forall>x\<in>set r. py_isspace x))"
proof
  assume h: "py_strip s = [c]"
  define t where "t = dropWhile py_isspace s"
  define u where "u = takeWhile py_isspace (rev t)"
  have s: "s = takeWhile py_isspace s @ t" by (simp add: t_def)
  from h have "rev (dropWhile py_isspace (rev t)) = [c]"
    by (simp add: py_strip_def t_def)
  then have "rev (rev (dropWhile py_isspace (rev t))) = rev [c]" by (simp only:)
  then have d: "dropWhile py_isspace (rev t) = [c]" by simp
  have "rev t = u @ dropWhile py_isspace (rev t)"
    unfolding u_def by simp
  with d have "rev t = u @ [c]" by simp
  then have "rev (rev t) = rev (u @ [c])" by (simp only:)
  then have "t = c # rev u" by simp
  with s have "s = takeWhile py_isspace s @ [c] @ rev u" by simp
  moreover have "\<forall>x\<in>set (takeWhile py_isspace s). py_isspace x"
    by (auto dest: set_takeWhileD)
  moreover have "\<forall>x\<in>set (rev u). py_isspace x"
    unfolding u_def by (auto dest: set_takeWhileD)
  ultimately show "\<exists>l r. s = l @ [c] @ r \<and> (\<forall>x\<in>set l. py_isspace x) \<and> (\<forall>x\<in>set r. py_isspace x)"
    by blast
next
  assume "\<exists>l r. s = l @ [c] @ r \<and> (\<forall>x\<in>set l. py_isspace x) \<and> (\<forall>x\<in>set r. py_isspace x)"
  then obtain l r where s: "s = l @ [c] @ r" and l: "\<forall>x\<in>set l. py_isspace x"
    and r: "\<forall>x\<in>set r. py_isspace x" by blast
  have "dropWhile py_isspace s = dropWhile py_isspace (c # r)"
    unfolding s using l by (simp only: dropWhile_all append_Cons append_Nil)
  then have 1: "dropWhile py_isspace s = c # r" using assms by simp
  have "\<forall>x\<in>set (rev r). py_isspace x" using r by simp
  then have "dropWhile py_isspace (rev r @ [c]) = dropWhile py_isspace [c]"
    by (rule dropWhile_all)
  then have 2: "dropWhile py_isspace (rev r @ [c]) = [c]" using assms by simp
  show "py_strip s = [c]" by (simp add: py_strip_def 1 2)
qed

lemma py_lower_char_fix: "py_lower_char (CHR ''y'') = CHR ''y''" "py_lower_char (CHR ''Y'') = CHR ''y''"
  by (simp_all add: py_lower_char_def char_of_eq_iff)

lemma py_lower_char_y: "py_lower_char c = CHR ''y'' \<longleftrightarrow> c = CHR ''y'' \<or> c = CHR ''Y''"
proof (cases "c = CHR ''y'' \<or> c = CHR ''Y''")
  case True
  then show ?thesis using py_lower_char_fix by auto
next
  case False
  define n :: nat where "n = of_char c"
  have "py_lower_char c \<noteq> CHR ''y''"
  proof (cases "(65 \<le> n \<and> n \<le> 90) \<or> (192 \<le> n \<and> n \<le> 222 \<and> n \<noteq> 215)")
    case up: True
    then have eq: "py_lower_char c = char_of (n + 32)"
      by (simp add: py_lower_char_def n_def Let_def)
    show ?thesis
    proof
      assume "py_lower_char c = CHR ''y''"
      with eq have "char_of (n + 32) = CHR ''y''" by simp
      then have "(of_char (char_of (n + 32) :: char) :: nat) = of_char (CHR ''y'')" by simp
      then have "(n + 32) mod 256 = 121" by (simp only: of_char_of) simp
      moreover from up have "n + 32 < 256" by arith
      ultimately have "n = 89" by simp
      then have "(of_char c :: nat) = of_char (CHR ''Y'')" by (simp add: n_def)
      then have "c = CHR ''Y''" by (simp only: of_char_eq_iff)
      with False show False by simp
    qed
  next
    case lo: False
    then have "py_lower_char c = c"
      unfolding py_lower_char_def n_def Let_def by (simp only: if_False)
    with False show ?thesis by simp
  qed
  with False show ?thesis by simp
qed

lemma not_space_chars: "\<not> py_isspace (CHR ''y'')" "\<not> py_isspace (CHR ''Y'')"
  "\<not> py_isspace (CHR ''1'')" "\<not> py_isspace (CHR ''2'')"
  by (simp_all add: py_isspace_def)

lemma gate_iff:
  "py_lower (py_strip line) = ''y'' \<longleftrightarrow>
     (\<exists>l c r. line = l @ [c] @ r \<and> (c = CHR ''y'' \<or> c = CHR ''Y'')
        \<and> (\<forall>x\<in>set l. py_isspace x) \<and> (\<forall>x\<in>set r. py_isspace x))"
proof -
  have "py_lower (py_strip line) = ''y'' \<longleftrightarrow> (\<exists>c. py_strip line = [c] \<and> py_lower_char c = CHR ''y'')"
    by (cases "py_strip line") (auto simp: py_lower_def)
  also have "\<dots> \<longleftrightarrow> py_strip line = ''y'' \<or> py_strip line = ''Y''"
    by (auto simp: py_lower_char_y)
  also have "\<dots> \<longleftrightarrow> (\<exists>l c r. line = l @ [c] @ r \<and> (c = CHR ''y'' \<or> c = CHR ''Y'')
        \<and> (\<forall>x\<in>set l. py_isspace x) \<and> (\<forall>x\<in>set r. py_isspace x))"
    using py_strip_singleton[OF not_space_chars(1), of line]
      py_strip_singleton[OF not_space_chars(2), of line] by blast
  finally show ?thesis .
qed

text \<open>
  C6 (as amended).  The selection reads the input line with surrounding whitespace
  trimmed: a line that is \<open>2\<close> between whitespace resolves to the second identifier of
  \<open>MODELS\<close>, every other line, \<open>1\<close> among them, to the first.
\<close>

theorem select_model_trimmed:
  "select_model line =
     (if \<exists>l r. line = l @ ''2'' @ r \<and> (\<forall>x\<in>set l. py_isspace x) \<and> (\<forall>x\<in>set r. py_isspace x)
      then ''gemini-3-pro-image-preview'' else ''gemini-2.5-flash-image'')
   \<and> map_of MODELS ''1'' = Some ''gemini-2.5-flash-image''
   \<and> map_of MODELS ''2'' = Some ''gemini-3-pro-image-preview''"
proof -
  have "select_model line =
     (if py_strip line = ''2'' then ''gemini-3-pro-image-preview'' else ''gemini-2.5-flash-image'')"
    by (simp add: select_model_def MODELS_def Let_def)
  then show ?thesis
    using py_strip_singleton[OF not_space_chars(4), of line] by (simp add: MODELS_def)
qed

text \<open>The theorem at the line \<open>2\<close> typed between two blanks.\<close>

theorem select_model_trimmed_witness:
  "select_model '' 2 '' = ''gemini-3-pro-image-preview''"
proof -
  have "'' 2 '' = '' '' @ ''2'' @ '' '' \<and> (\<forall>x\<in>set '' ''. py_isspace x) \<and> (\<forall>x\<in>set '' ''. py_isspace x)"
    by (simp add: py_isspace_def)
  then have "\<exists>l r. '' 2 '' = l @ ''2'' @ r \<and> (\<forall>x\<in>set l. py_isspace x) \<and> (\<forall>x\<in>set r. py_isspace x)"
    by blast
  with select_model_trimmed[of "'' 2 ''"] show ?thesis by (simp only: if_True)
qed

text \<open>
  C6 (as stated) fails: the line \<open>2\<close> followed by a blank is neither \<open>1\<close> nor
  \<open>2\<close>, and it resolves to the second identifier, not to the default of \<open>1\<close>.
\<close>

theorem select_model_padded_two:
  "select_model ''2 '' = ''gemini-3-pro-image-preview''
   \<and> select_model ''1'' = ''gemini-2.5-flash-image''
   \<and> ''2 '' \<noteq> ''1'' \<and> ''2 '' \<noteq> ''2''"
  by (simp add: select_model_def MODELS_def py_strip_def py_isspace_def)

lemma select_model_examples:
  "select_model ''1'' = ''gemini-2.5-flash-image''"
  "select_model ''2'' = ''gemini-3-pro-image-preview''"
  "select_model [] = ''gemini-2.5-flash-image''"
  "select_model ''3'' = ''gemini-2.5-flash-image''"
  "select_model ''x'' = ''gemini-2.5-flash-image''"
  by (simp_all add: select_model_def MODELS_def py_strip_def py_isspace_def)

text \<open>
  C7.  Once the master image is there and a line can be read, the gate goes on to the
  pose loop exactly when the line is \<open>y\<close> or \<open>Y\<close> between whitespace; on every
  other line it prints that it skips the poses and ends the prompt.
\<close>

theorem operator_gate:
  assumes "stdin w = line # rest"
  shows "ask_and_pose env model clean_name dir master_path master_image_bytes w =
    (if \<exists>l c r. line = l @ [c] @ r \<and> (c = CHR ''y'' \<or> c = CHR ''Y'')
          \<and> (\<forall>x\<in>set l. py_isspace x) \<and> (\<forall>x\<in>set r. py_isspace x)
     then (None, emit (Print (AllPosesFinished clean_name))
            (pose_loop env model master_image_bytes dir 0 (POSES env)
              (emit (Print (GeneratingPoses (length (POSES env)) model))
                (emit (Input (AskPoses clean_name) line)
                  ((emit (Print (CheckImage master_path)) w)\<lparr>stdin := rest\<rparr>)))))
     else (None, emit (Print SkippingPoses)
            (emit (Input (AskPoses clean_name) line)
              ((emit (Print (CheckImage master_path)) w)\<lparr>stdin := rest\<rparr>))))"
proof (cases "py_lower (py_strip line) = ''y''")
  case True
  then have "\<exists>l c r. line = l @ [c] @ r \<and> (c = CHR ''y'' \<or> c = CHR ''Y'')
          \<and> (\<forall>x\<in>set l. py_isspace x) \<and> (\<forall>x\<in>set r. py_isspace x)"
    unfolding gate_iff .
  then show ?thesis
    using True assms by (simp only: if_True) (simp add: ask_and_pose_def py_input_def emit_def)
next
  case False
  then have "\<not> (\<exists>l c r. line = l @ [c] @ r \<and> (c = CHR ''y'' \<or> c = CHR ''Y'')
          \<and> (\<forall>x\<in>set l. py_isspace x) \<and> (\<forall>x\<in>set r. py_isspace x))"
    unfolding gate_iff .
  then show ?thesis
    using False assms by (simp only: if_False) (simp add: ask_and_pose_def py_input_def emit_def)
qed

lemma operator_gate_examples:
  "py_lower (py_strip ''y'') = ''y''" "py_lower (py_strip '' Y  '') = ''y''"
  "py_lower (py_strip ''yes'') \<noteq> ''y''" "py_lower (py_strip ''n'') \<noteq> ''y''"
  "py_lower (py_strip []) \<noteq> ''y''"
  by (simp_all add: py_lower_def py_strip_def py_isspace_def py_lower_char_def char_of_eq_iff)

section \<open>Properties of the pose loop\<close>

lemma str_nat_small: "str_nat 1 = ''1''" "str_nat 2 = ''2''" "str_nat 3 = ''3''"
  "str_nat (Suc 0) = ''1''" "str_nat (Suc (Suc 0)) = ''2''"
  by (simp_all add: str_nat.simps char_of_eq_iff)

lemma new_events_append [simp]: "trace w' = trace w @ evs \<Longrightarrow> new_events w w' = evs"
  by (simp add: new_events_def)

lemma pose_body_request_raises:
  assumes "generate_content env (trace w @ [Print (PoseHeader (i + 1) (length (POSES env)) pose)])
             (pose_request model mb pose) = Inl e"
  shows "pose_body env model mb dir i pose w =
           w\<lparr>trace := trace w @ [Print (PoseHeader (i + 1) (length (POSES env)) pose),
                                 Call (pose_request model mb pose) (Inl e),
                                 Print (PoseFailed e)]\<rparr>"
  using assms by (simp add: pose_body_def Let_def emit_def)

lemma pose_body_save_raises:
  assumes "generate_content env (trace w @ [Print (PoseHeader (i + 1) (length (POSES env)) pose)])
             (pose_request model mb pose) = Inr resp"
    and "fst (save_image env resp (path_join dir [''pose_'' @ str_nat (i + 1) @ ''.png'']) w) = Inl e"
  shows "pose_body env model mb dir i pose w =
           w\<lparr>trace := trace w @ [Print (PoseHeader (i + 1) (length (POSES env)) pose),
                                 Call (pose_request model mb pose) (Inr resp),
                                 Print (PoseFailed e)]\<rparr>"
proof -
  let ?p = "path_join dir [''pose_'' @ str_nat (i + 1) @ ''.png'']"
  let ?w1 = "emit (Call (pose_request model mb pose) (Inr resp))
               (emit (Print (PoseHeader (i + 1) (length (POSES env)) pose)) w)"
  have f: "fst (save_image env resp ?p ?w1) = Inl e"
    using assms(2) save_image_fst[of env resp ?p ?w1 w] by simp
  then have "save_image env resp ?p ?w1 = (Inl e, ?w1)"
    using save_image_unchanged(1)[OF f] by (simp add: prod_eq_iff)
  then show ?thesis
    using assms(1) by (simp add: pose_body_def Let_def emit_def)
qed

lemma pose_body_empty:
  assumes "generate_content env (trace w @ [Print (PoseHeader (i + 1) (length (POSES env)) pose)])
             (pose_request model mb pose) = Inr resp"
    and "fst (save_image env resp (path_join dir [''pose_'' @ str_nat (i + 1) @ ''.png'']) w) = Inr None"
  shows "pose_body env model mb dir i pose w =
           w\<lparr>trace := trace w @ [Print (PoseHeader (i + 1) (length (POSES env)) pose),
                                 Call (pose_request model mb pose) (Inr resp),
                                 Sleep 2]\<rparr>"
proof -
  let ?p = "path_join dir [''pose_'' @ str_nat (i + 1) @ ''.png'']"
  let ?w1 = "emit (Call (pose_request model mb pose) (Inr resp))
               (emit (Print (PoseHeader (i + 1) (length (POSES env)) pose)) w)"
  have f: "fst (save_image env resp ?p ?w1) = Inr None"
    using assms(2) save_image_fst[of env resp ?p ?w1 w] by simp
  then have "save_image env resp ?p ?w1 = (Inr None, ?w1)"
    using save_image_unchanged(2)[OF f] by (simp add: prod_eq_iff)
  then show ?thesis
    using assms(1) by (simp add: pose_body_def Let_def emit_def)
qed

lemma pose_body_saved:
  assumes "generate_content env (trace w @ [Print (PoseHeader (i + 1) (length (POSES env)) pose)])
             (pose_request model mb pose) = Inr resp"
    and "fst (save_image env resp (path_join dir [''pose_'' @ str_nat (i + 1) @ ''.png'']) w) = Inr (Some b)"
  shows "\<exists>enc. pose_body env model mb dir i pose w =
           w\<lparr>fs := AList.update (path_join dir [''pose_'' @ str_nat (i + 1) @ ''.png'']) (File enc) (fs w),
             trace := trace w @ [Print (PoseHeader (i + 1) (length (POSES env)) pose),
                                 Call (pose_request model mb pose) (Inr resp),
                                 Wrote (path_join dir [''pose_'' @ str_nat (i + 1) @ ''.png'']) enc,
                                 Print (Saved (path_join dir [''pose_'' @ str_nat (i + 1) @ ''.png''])),
                                 Sleep 2]\<rparr>"
proof -
  let ?p = "path_join dir [''pose_'' @ str_nat (i + 1) @ ''.png'']"
  let ?w1 = "emit (Call (pose_request model mb pose) (Inr resp))
               (emit (Print (PoseHeader (i + 1) (length (POSES env)) pose)) w)"
  have f: "fst (save_image env resp ?p ?w1) = Inr (Some b)"
    using assms(2) save_image_fst[of env resp ?p ?w1 w] by simp
  from save_image_written[OF f] obtain enc where
    "snd (save_image env resp ?p ?w1) = emit (Print (Saved ?p)) (write_file ?p enc ?w1)" by blast
  with f have "save_image env resp ?p ?w1 = (Inr (Some b), emit (Print (Saved ?p)) (write_file ?p enc ?w1))"
    by (simp add: prod_eq_iff)
  then have "pose_body env model mb dir i pose w =
           w\<lparr>fs := AList.update ?p (File enc) (fs w),
             trace := trace w @ [Print (PoseHeader (i + 1) (length (POSES env)) pose),
                                 Call (pose_request model mb pose) (Inr resp),
                                 Wrote ?p enc, Print (Saved ?p), Sleep 2]\<rparr>"
    using assms(1) by (simp add: pose_body_def Let_def emit_def write_file_def)
  then show ?thesis by blast
qed

lemma pose_body_grows:
  "\<exists>evs. trace (pose_body env model mb dir i pose w) = trace w @ evs
     \<and> requests evs = [pose_request model mb pose] \<and> made evs = []
     \<and> stdin (pose_body env model mb dir i pose w) = stdin w"
proof (cases "generate_content env (trace w @ [Print (PoseHeader (i + 1) (length (POSES env)) pose)])
             (pose_request model mb pose)")
  case (Inl e)
  show ?thesis by (simp add: pose_body_request_raises[OF Inl])
next
  case (Inr resp)
  show ?thesis
  proof (cases "fst (save_image env resp (path_join dir [''pose_'' @ str_nat (i + 1) @ ''.png'']) w)")
    case (Inl e)
    show ?thesis by (simp add: pose_body_save_raises[OF Inr Inl])
  next
    case r: (Inr r)
    show ?thesis
    proof (cases r)
      case None
      with r show ?thesis by (simp add: pose_body_empty[OF Inr])
    next
      case (Some b)
      with r pose_body_saved[OF Inr] obtain enc where
        "pose_body env model mb dir i pose w =
           w\<lparr>fs := AList.update (path_join dir [''pose_'' @ str_nat (i + 1) @ ''.png'']) (File enc) (fs w),
             trace := trace w @ [Print (PoseHeader (i + 1) (length (POSES env)) pose),
                                 Call (pose_request model mb pose) (Inr resp),
                                 Wrote (path_join dir [''pose_'' @ str_nat (i + 1) @ ''.png'']) enc,
                                 Print (Saved (path_join dir [''pose_'' @ str_nat (i + 1) @ ''.png''])),
                                 Sleep 2]\<rparr>" by blast
      then show ?thesis by simp
    qed
  qed
qed

lemma pose_loop_grows:
  "\<exists>evs. trace (pose_loop env model mb dir i poses w) = trace w @ evs
     \<and> requests evs = map (pose_request model mb) poses \<and> made evs = []
     \<and> stdin (pose_loop env model mb dir i poses w) = stdin w"
proof (induction poses arbitrary: i w)
  case Nil
  show ?case by simp
next
  case (Cons pose rest)
  obtain e1 where 1: "trace (pose_body env model mb dir i pose w) = trace w @ e1"
    "requests e1 = [pose_request model mb pose]" "made e1 = []"
    "stdin (pose_body env model mb dir i pose w) = stdin w"
    using pose_body_grows[of env model mb dir i pose w] by blast
  obtain e2 where 2: "trace (pose_loop env model mb dir (Suc i) rest (pose_body env model mb dir i pose w))
       = trace (pose_body env model mb dir i pose w) @ e2"
    "requests e2 = map (pose_request model mb) rest" "made e2 = []"
    "stdin (pose_loop env model mb dir (Suc i) rest (pose_body env model mb dir i pose w))
       = stdin (pose_body env model mb dir i pose w)"
    using Cons.IH[of "Suc i" "pose_body env model mb dir i pose w"] by blast
  have "trace (pose_loop env model mb dir i (pose # rest) w) = trace w @ (e1 @ e2)"
    using 1 2 by simp
  moreover have "requests (e1 @ e2) = map (pose_request model mb) (pose # rest)"
    using 1 2 by (simp add: requests_append)
  moreover have "made (e1 @ e2) = []" using 1 2 by (simp add: made_append)
  moreover have "stdin (pose_loop env model mb dir i (pose # rest) w) = stdin w"
    using 1 2 by simp
  ultimately show ?case by blast
qed

text \<open>
  C4 (as amended).  When a pose request returns a response and \<open>save_image\<close> handles it
  without raising, whether it found an image or not, the iteration ends with the pause of
  two seconds, and the next request is issued only from there.
\<close>

theorem pause_after_handled_response:
  assumes "generate_content env (trace w @ [Print (PoseHeader (i + 1) (length (POSES env)) pose)])
             (pose_request model mb pose) = Inr resp"
    and "fst (save_image env resp (path_join dir [''pose_'' @ str_nat (i + 1) @ ''.png'']) w) = Inr r"
  shows "\<exists>evs. trace (pose_body env model mb dir i pose w) =
            trace w @ [Print (PoseHeader (i + 1) (length (POSES env)) pose),
                       Call (pose_request model mb pose) (Inr resp)] @ evs @ [Sleep 2]
          \<and> requests evs = []
          \<and> pose_loop env model mb dir i (pose # rest) w =
              pose_loop env model mb dir (Suc i) rest (pose_body env model mb dir i pose w)"
proof (cases r)
  case None
  with assms have "trace (pose_body env model mb dir i pose w) =
            trace w @ [Print (PoseHeader (i + 1) (length (POSES env)) pose),
                       Call (pose_request model mb pose) (Inr resp)] @ [] @ [Sleep 2]"
    by (simp add: pose_body_empty)
  then show ?thesis by (intro exI[of _ "[]"]) simp
next
  case (Some b)
  with assms pose_body_saved[of env w i pose model mb resp dir b] obtain enc where
    "pose_body env model mb dir i pose w =
           w\<lparr>fs := AList.update (path_join dir [''pose_'' @ str_nat (i + 1) @ ''.png'']) (File enc) (fs w),
             trace := trace w @ [Print (PoseHeader (i + 1) (length (POSES env)) pose),
                                 Call (pose_request model mb pose) (Inr resp),
                                 Wrote (path_join dir [''pose_'' @ str_nat (i + 1) @ ''.png'']) enc,
                                 Print (Saved (path_join dir [''pose_'' @ str_nat (i + 1) @ ''.png''])),
                                 Sleep 2]\<rparr>" by blast
  then have "trace (pose_body env model mb dir i pose w) =
            trace w @ [Print (PoseHeader (i + 1) (length (POSES env)) pose),
                       Call (pose_request model mb pose) (Inr resp)] @
              [Wrote (path_join dir [''pose_'' @ str_nat (i + 1) @ ''.png'']) enc,
               Print (Saved (path_join dir [''pose_'' @ str_nat (i + 1) @ ''.png'']))] @ [Sleep 2]"
    by simp
  then show ?thesis
    by (intro exI[of _ "[Wrote (path_join dir [''pose_'' @ str_nat (i + 1) @ ''.png'']) enc,
               Print (Saved (path_join dir [''pose_'' @ str_nat (i + 1) @ ''.png'']))]"]) simp
qed

text \<open>The theorem at the first pose of the example environment.\<close>

theorem pause_after_handled_response_witness:
  "\<exists>evs. trace (pose_body demo_env ''gemini-2.5-flash-image'' ''PNG:abc'' ''out'' 0 ''standing'' empty_world) =
            trace empty_world @ [Print (PoseHeader (0 + 1) (length (POSES demo_env)) ''standing''),
                       Call (pose_request ''gemini-2.5-flash-image'' ''PNG:abc'' ''standing'')
                         (Inr (image_response ''JPEG:abc''))] @ evs @ [Sleep 2]
          \<and> requests evs = []
          \<and> pose_loop demo_env ''gemini-2.5-flash-image'' ''PNG:abc'' ''out'' 0 (''standing'' # [''sitting'']) empty_world =
              pose_loop demo_env ''gemini-2.5-flash-image'' ''PNG:abc'' ''out'' (Suc 0) [''sitting'']
                (pose_body demo_env ''gemini-2.5-flash-image'' ''PNG:abc'' ''out'' 0 ''standing'' empty_world)"
  by (rule pause_after_handled_response[where r = "Some ''JPEG:abc''"])
     (simp_all add: demo_env_def save_image_def truthy_def image_response_def demo_open_def
        demo_save_def endswith_def path_join_def join2_def str_nat_small)

text \<open>
  C4 (as stated) fails: when the request raises, the \<open>except\<close> branch prints the error
  and the loop issues the next request with no pause between the two.
\<close>

theorem no_pause_after_failed_request:
  "trace (pose_loop failing_env ''gemini-2.5-flash-image'' ''PNG:abc'' ''out'' 0
            [''standing'', ''sitting''] empty_world) =
     [Print (PoseHeader 1 2 ''standing''),
      Call (pose_request ''gemini-2.5-flash-image'' ''PNG:abc'' ''standing'')
        (Inl (LibraryError ''503 UNAVAILABLE'')),
      Print (PoseFailed (LibraryError ''503 UNAVAILABLE'')),
      Print (PoseHeader 2 2 ''sitting''),
      Call (pose_request ''gemini-2.5-flash-image'' ''PNG:abc'' ''sitting'')
        (Inl (LibraryError ''503 UNAVAILABLE'')),
      Print (PoseFailed (LibraryError ''503 UNAVAILABLE''))]"
  by (simp add: pose_body_def failing_env_def demo_env_def empty_world_def emit_def Let_def)

text \<open>
  C5 (as stated) fails: a pose response without image data leaves no line on the console.
  The only lines of such a run are the headers printed before each request.
\<close>

theorem empty_pose_result_not_logged:
  "trace (pose_loop text_env ''gemini-2.5-flash-image'' ''PNG:abc'' ''out'' 0
            [''standing'', ''sitting''] empty_world) =
     [Print (PoseHeader 1 2 ''standing''),
      Call (pose_request ''gemini-2.5-flash-image'' ''PNG:abc'' ''standing'') (Inr text_response),
      Sleep 2,
      Print (PoseHeader 2 2 ''sitting''),
      Call (pose_request ''gemini-2.5-flash-image'' ''PNG:abc'' ''sitting'') (Inr text_response),
      Sleep 2]"
  by (simp add: pose_body_def text_env_def demo_env_def empty_world_def emit_def Let_def
      save_image_def truthy_def text_response_def)

text \<open>
  C5 (as amended).  Whatever the requests return, the loop issues one request per pose, in
  order.  A request that raises, or a response on which \<open>save_image\<close> raises, is
  logged as a failed pose; that and a response without image data write no file.
\<close>

theorem failed_pose_is_skipped_alone:
  "requests (new_events w (pose_loop env model mb dir i poses w)) = map (pose_request model mb) poses
   \<and> (\<forall>e. generate_content env (trace w @ [Print (PoseHeader (k + 1) (length (POSES env)) pose)])
             (pose_request model mb pose) = Inl e \<longrightarrow>
          pose_body env model mb dir k pose w =
            w\<lparr>trace := trace w @ [Print (PoseHeader (k + 1) (length (POSES env)) pose),
                                  Call (pose_request model mb pose) (Inl e),
                                  Print (PoseFailed e)]\<rparr>)
   \<and> (\<forall>resp e. generate_content env (trace w @ [Print (PoseHeader (k + 1) (length (POSES env)) pose)])
             (pose_request model mb pose) = Inr resp
          \<and> fst (save_image env resp (path_join dir [''pose_'' @ str_nat (k + 1) @ ''.png'']) w) = Inl e \<longrightarrow>
          pose_body env model mb dir k pose w =
            w\<lparr>trace := trace w @ [Print (PoseHeader (k + 1) (length (POSES env)) pose),
                                  Call (pose_request model mb pose) (Inr resp),
                                  Print (PoseFailed e)]\<rparr>)
   \<and> (\<forall>resp. generate_content env (trace w @ [Print (PoseHeader (k + 1) (length (POSES env)) pose)])
             (pose_request model mb pose) = Inr resp
          \<and> fst (save_image env resp (path_join dir [''pose_'' @ str_nat (k + 1) @ ''.png'']) w) = Inr None \<longrightarrow>
          fs (pose_body env model mb dir k pose w) = fs w
          \<and> written (new_events w (pose_body env model mb dir k pose w)) = [])"
proof -
  obtain evs where "trace (pose_loop env model mb dir i poses w) = trace w @ evs"
    "requests evs = map (pose_request model mb) poses"
    using pose_loop_grows[of env model mb dir i poses w] by blast
  then have "requests (new_events w (pose_loop env model mb dir i poses w)) = map (pose_request model mb) poses"
    by simp
  then show ?thesis
    by (simp add: pose_body_request_raises pose_body_save_raises pose_body_empty)
qed

text \<open>The theorem at a service that always fails and at one that returns text only.\<close>

theorem failed_pose_is_skipped_alone_witness:
  "requests (new_events empty_world
      (pose_loop failing_env ''gemini-2.5-flash-image'' ''PNG:abc'' ''out'' 0 [''standing'', ''sitting''] empty_world))
     = map (pose_request ''gemini-2.5-flash-image'' ''PNG:abc'') [''standing'', ''sitting'']
   \<and> pose_body failing_env ''gemini-2.5-flash-image'' ''PNG:abc'' ''out'' 0 ''standing'' empty_world =
       empty_world\<lparr>trace := trace empty_world @
         [Print (PoseHeader (0 + 1) (length (POSES failing_env)) ''standing''),
          Call (pose_request ''gemini-2.5-flash-image'' ''PNG:abc'' ''standing'')
            (Inl (LibraryError ''503 UNAVAILABLE'')),
          Print (PoseFailed (LibraryError ''503 UNAVAILABLE''))]\<rparr>
   \<and> fs (pose_body text_env ''gemini-2.5-flash-image'' ''PNG:abc'' ''out'' 0 ''standing'' empty_world)
       = fs empty_world
   \<and> written (new_events empty_world
        (pose_body text_env ''gemini-2.5-flash-image'' ''PNG:abc'' ''out'' 0 ''standing'' empty_world)) = []"
proof -
  note a = failed_pose_is_skipped_alone[of empty_world failing_env "''gemini-2.5-flash-image''"
      "''PNG:abc''" "''out''" 0 "[''standing'', ''sitting'']" 0 "''standing''"]
  note b = failed_pose_is_skipped_alone[of empty_world text_env "''gemini-2.5-flash-image''"
      "''PNG:abc''" "''out''" 0 "[''standing'', ''sitting'']" 0 "''standing''"]
  have g1: "generate_content failing_env
      (trace empty_world @ [Print (PoseHeader (0 + 1) (length (POSES failing_env)) ''standing'')])
      (pose_request ''gemini-2.5-flash-image'' ''PNG:abc'' ''standing'')
      = Inl (LibraryError ''503 UNAVAILABLE'')"
    by (simp add: failing_env_def)
  have g2: "generate_content text_env
      (trace empty_world @ [Print (PoseHeader (0 + 1) (length (POSES text_env)) ''standing'')])
      (pose_request ''gemini-2.5-flash-image'' ''PNG:abc'' ''standing'') = Inr text_response
    \<and> fst (save_image text_env text_response
        (path_join ''out'' [''pose_'' @ str_nat (0 + 1) @ ''.png'']) empty_world) = Inr None"
    by (simp add: text_env_def save_image_def truthy_def text_response_def)
  from a have 1: "requests (new_events empty_world
      (pose_loop failing_env ''gemini-2.5-flash-image'' ''PNG:abc'' ''out'' 0 [''standing'', ''sitting''] empty_world))
     = map (pose_request ''gemini-2.5-flash-image'' ''PNG:abc'') [''standing'', ''sitting'']"
    by (rule conjunct1)
  from a g1 have 2: "pose_body failing_env ''gemini-2.5-flash-image'' ''PNG:abc'' ''out'' 0 ''standing'' empty_world =
       empty_world\<lparr>trace := trace empty_world @
         [Print (PoseHeader (0 + 1) (length (POSES failing_env)) ''standing''),
          Call (pose_request ''gemini-2.5-flash-image'' ''PNG:abc'' ''standing'')
            (Inl (LibraryError ''503 UNAVAILABLE'')),
          Print (PoseFailed (LibraryError ''503 UNAVAILABLE''))]\<rparr>"
    by blast
  from b g2 have 3: "fs (pose_body text_env ''gemini-2.5-flash-image'' ''PNG:abc'' ''out'' 0 ''standing'' empty_world)
       = fs empty_world
   \<and> written (new_events empty_world
        (pose_body text_env ''gemini-2.5-flash-image'' ''PNG:abc'' ''out'' 0 ''standing'' empty_world)) = []"
    by blast
  from 1 2 3 show ?thesis by (intro conjI) blast+
qed

text \<open>The gate of C7 at the line \<open>Y\<close> between two blanks, with a service that returns text only.\<close>

theorem operator_gate_witness:
  "stdin (empty_world\<lparr>stdin := ['' Y '']\<rparr>) = ['' Y '']
   \<and> trace (snd (ask_and_pose text_env ''gemini-2.5-flash-image'' ''winter'' ''out''
        ''out/00_MASTER_CONCEPT.png'' ''PNG:abc'' (empty_world\<lparr>stdin := ['' Y '']\<rparr>))) =
     [Print (CheckImage ''out/00_MASTER_CONCEPT.png''),
      Input (AskPoses ''winter'') '' Y '',
      Print (GeneratingPoses 2 ''gemini-2.5-flash-image''),
      Print (PoseHeader 1 2 ''standing''),
      Call (pose_request ''gemini-2.5-flash-image'' ''PNG:abc'' ''standing'') (Inr text_response),
      Sleep 2,
      Print (PoseHeader 2 2 ''sitting''),
      Call (pose_request ''gemini-2.5-flash-image'' ''PNG:abc'' ''sitting'') (Inr text_response),
      Sleep 2,
      Print (AllPosesFinished ''winter'')]"
proof -
  have "'' Y '' = '' '' @ [CHR ''Y''] @ '' '' \<and> (CHR ''Y'' = CHR ''y'' \<or> CHR ''Y'' = CHR ''Y'')
      \<and> (\<forall>x\<in>set '' ''. py_isspace x) \<and> (\<forall>x\<in>set '' ''. py_isspace x)"
    by (simp add: py_isspace_def)
  then have ex: "\<exists>l c r. '' Y '' = l @ [c] @ r \<and> (c = CHR ''y'' \<or> c = CHR ''Y'')
      \<and> (\<forall>x\<in>set l. py_isspace x) \<and> (\<forall>x\<in>set r. py_isspace x)"
    by blast
  have st: "stdin (empty_world\<lparr>stdin := ['' Y '']\<rparr>) = '' Y '' # []" by simp
  show ?thesis
    using operator_gate[OF st, of text_env "''gemini-2.5-flash-image''" "''winter''" "''out''"
        "''out/00_MASTER_CONCEPT.png''" "''PNG:abc''"] ex
    by (simp only: if_True)
       (simp add: pose_body_def text_env_def demo_env_def empty_world_def emit_def Let_def
          save_image_def truthy_def text_response_def)
qed

section \<open>The example run\<close>

lemma demo_env_simps:
  "API_KEY demo_env = Some ''key''" "POSES demo_env = [''standing'', ''sitting'']"
  "generate_content demo_env h req = Inr (image_response ''JPEG:abc'')"
  "time_now demo_env h = 1700000000"
  "Image_open demo_env = demo_open" "Image_save demo_env = demo_save"
  "decode_text demo_env = Inr"
  by (simp_all add: demo_env_def)

lemma demo_world_trace: "trace demo_world = []"
  by (simp add: demo_world_def)

lemma str_int_demo: "str_int 1700000000 = ''1700000000''"
  by (simp add: str_int_def str_nat.simps char_of_eq_iff)

lemma splitext_demo: "splitext ''winter.txt'' = (''winter'', ''.txt'')"
  by code_simp

lemma demo_dir: "current_output_dir demo_env ''winter.txt'' w = ''output folder/winter/run_1700000000''"
  by (simp add: current_output_dir_def splitext_demo str_int_demo demo_env_simps path_join_def
      join2_def OUTPUT_BASE_def)

lemma ancestors_demo:
  "ancestors ''output folder/winter/run_1700000000'' =
     [''output folder'', ''output folder/winter'', ''output folder/winter/run_1700000000'']"
  by (simp add: ancestors_def)

lemma demo_prompt_run:
  "process_prompt demo_env ''gemini-2.5-flash-image'' ''FACE'' ''winter.txt''
     (demo_world\<lparr>stdin := [''y'']\<rparr>) =
   (None,
    \<lparr>fs = [(''reference image face'', File ''FACE''),
            (''prompts'', Dir),
            (''prompts/winter.txt'', File ''A red coat in snow.''),
            (''prompts/shots.txt'', Dir),
            (''output folder'', Dir),
            (''output folder/winter'', Dir),
            (''output folder/winter/run_1700000000'', Dir),
            (''output folder/winter/run_1700000000/00_MASTER_CONCEPT.png'', File ''PNG:abc''),
            (''output folder/winter/run_1700000000/pose_1.png'', File ''PNG:abc''),
            (''output folder/winter/run_1700000000/pose_2.png'', File ''PNG:abc'')],
      stdin = [],
      trace =
        [MakeDirs ''output folder/winter/run_1700000000'',
         Print Separator,
         Print (Processing ''winter.txt''),
         Print (PromptPreview ''A red coat in snow.''),
         Print (SavingTo ''winter'' 1700000000),
         Print (GeneratingConcept ''gemini-2.5-flash-image''),
         Call (master_request ''gemini-2.5-flash-image'' ''FACE'' (master_prompt ''A red coat in snow.''))
           (Inr (image_response ''JPEG:abc'')),
         Wrote ''output folder/winter/run_1700000000/00_MASTER_CONCEPT.png'' ''PNG:abc'',
         Print (Saved ''output folder/winter/run_1700000000/00_MASTER_CONCEPT.png''),
         Print (CheckImage ''output folder/winter/run_1700000000/00_MASTER_CONCEPT.png''),
         Input (AskPoses ''winter'') ''y'',
         Print (GeneratingPoses 2 ''gemini-2.5-flash-image''),
         Print (PoseHeader 1 2 ''standing''),
         Call (pose_request ''gemini-2.5-flash-image'' ''JPEG:abc'' ''standing'')
           (Inr (image_response ''JPEG:abc'')),
         Wrote ''output folder/winter/run_1700000000/pose_1.png'' ''PNG:abc'',
         Print (Saved ''output folder/winter/run_1700000000/pose_1.png''),
         Sleep 2,
         Print (PoseHeader 2 2 ''sitting''),
         Call (pose_request ''gemini-2.5-flash-image'' ''JPEG:abc'' ''sitting'')
           (Inr (image_response ''JPEG:abc'')),
         Wrote ''output folder/winter/run_1700000000/pose_2.png'' ''PNG:abc'',
         Print (Saved ''output folder/winter/run_1700000000/pose_2.png''),
         Sleep 2,
         Print (AllPosesFinished ''winter'')]\<rparr>)"
  by (simp add: process_prompt_def demo_dir splitext_demo ancestors_demo makedirs_def read_file_def
      demo_world_def Let_def emit_def PROMPTS_FOLDER_def path_join_def join2_def
      generate_master_def ask_and_pose_def py_input_def pose_body_def save_image_def truthy_def
      write_file_def demo_env_simps image_response_def demo_open_def demo_save_def endswith_def
      py_strip_def py_isspace_def py_lower_def py_lower_char_def str_nat_small)

section \<open>Properties of one prompt\<close>

lemma Call_in_requests: "Call q res \<in> set evs \<Longrightarrow> q \<in> set (requests evs)"
  by (induction evs rule: requests.induct) auto

lemma master_not_pose: "master_request model face text \<noteq> pose_request model' mb pose"
  by (simp add: master_request_def pose_request_def)

lemma is_pose_request_simps:
  "is_pose_request (pose_request model mb pose)" "\<not> is_pose_request (master_request model face text)"
  by (simp_all add: is_pose_request_def master_request_def pose_request_def)

text \<open>The effects of step 1, and what a result other than \<open>None\<close> says about them.\<close>

lemma generate_master_shape:
  "\<exists>evs. trace (snd (generate_master env model face text mp w)) =
            trace w @ Call (master_request model face text)
                        (generate_content env (trace w) (master_request model face text)) # evs
     \<and> requests evs = [] \<and> made evs = []
     \<and> stdin (snd (generate_master env model face text mp w)) = stdin w
     \<and> (\<forall>b. fst (generate_master env model face text mp w) = Some b \<longrightarrow>
           b \<noteq> [] \<and> (\<exists>resp enc.
             generate_content env (trace w) (master_request model face text) = Inr resp
             \<and> fst (save_image env resp mp w) = Inr (Some b)
             \<and> evs = [Wrote mp enc, Print (Saved mp)]))"
proof (cases "generate_content env (trace w) (master_request model face text)")
  case (Inl e)
  then show ?thesis by (simp add: generate_master_def Let_def emit_def)
next
  case (Inr resp)
  let ?w1 = "emit (Call (master_request model face text) (Inr resp)) w"
  have fst_eq: "fst (save_image env resp mp ?w1) = fst (save_image env resp mp w)"
    by (rule save_image_fst)
  show ?thesis
  proof (cases "fst (save_image env resp mp w)")
    case (Inl e)
    with fst_eq have f: "fst (save_image env resp mp ?w1) = Inl e" by simp
    then have "save_image env resp mp ?w1 = (Inl e, ?w1)"
      using save_image_unchanged(1)[OF f] by (simp add: prod_eq_iff)
    with Inr show ?thesis by (simp add: generate_master_def Let_def emit_def)
  next
    case r: (Inr r)
    show ?thesis
    proof (cases r)
      case None
      with r fst_eq have f: "fst (save_image env resp mp ?w1) = Inr None" by simp
      then have "save_image env resp mp ?w1 = (Inr None, ?w1)"
        using save_image_unchanged(2)[OF f] by (simp add: prod_eq_iff)
      with Inr show ?thesis by (simp add: generate_master_def Let_def emit_def truthy_def)
    next
      case (Some b)
      with r fst_eq have f: "fst (save_image env resp mp ?w1) = Inr (Some b)" by simp
      from save_image_written[OF f] obtain enc where
        "snd (save_image env resp mp ?w1) = emit (Print (Saved mp)) (write_file mp enc ?w1)" by blast
      with f have s: "save_image env resp mp ?w1 =
          (Inr (Some b), emit (Print (Saved mp)) (write_file mp enc ?w1))"
        by (simp add: prod_eq_iff)
      show ?thesis
      proof (cases b)
        case Nil
        with Inr s r Some show ?thesis
          by (simp add: generate_master_def Let_def emit_def truthy_def write_file_def)
      next
        case (Cons c cs)
        with Inr s r Some show ?thesis
          by (simp add: generate_master_def Let_def emit_def truthy_def write_file_def)
      qed
    qed
  qed
qed

text \<open>The effects of steps 2 and 3: the only requests are the pose requests, all of them
  or none.\<close>

lemma ask_and_pose_shape:
  "\<exists>evs. trace (snd (ask_and_pose env model cn dir mp mb w)) = trace w @ evs
     \<and> made evs = []
     \<and> (requests evs = [] \<or> requests evs = map (pose_request model mb) (POSES env))"
proof (cases "stdin w")
  case Nil
  then show ?thesis by (simp add: ask_and_pose_def py_input_def emit_def)
next
  case (Cons line rest)
  show ?thesis
  proof (cases "py_lower (py_strip line) = ''y''")
    case False
    with Cons show ?thesis by (simp add: ask_and_pose_def py_input_def emit_def)
  next
    case True
    let ?w1 = "emit (Print (GeneratingPoses (length (POSES env)) model))
                (emit (Input (AskPoses cn) line) ((emit (Print (CheckImage mp)) w)\<lparr>stdin := rest\<rparr>))"
    obtain evs where e: "trace (pose_loop env model mb dir 0 (POSES env) ?w1) = trace ?w1 @ evs"
      "requests evs = map (pose_request model mb) (POSES env)" "made evs = []"
      using pose_loop_grows[of env model mb dir 0 "POSES env" ?w1] by blast
    have "trace (snd (ask_and_pose env model cn dir mp mb w)) =
        trace w @ ([Print (CheckImage mp), Input (AskPoses cn) line,
                    Print (GeneratingPoses (length (POSES env)) model)] @ evs @ [Print (AllPosesFinished cn)])"
      using Cons True e(1) by (simp add: ask_and_pose_def py_input_def emit_def)
    moreover have "made ([Print (CheckImage mp), Input (AskPoses cn) line,
                    Print (GeneratingPoses (length (POSES env)) model)] @ evs @ [Print (AllPosesFinished cn)]) = []"
      using e(3) by (simp add: made_append)
    moreover have "requests ([Print (CheckImage mp), Input (AskPoses cn) line,
                    Print (GeneratingPoses (length (POSES env)) model)] @ evs @ [Print (AllPosesFinished cn)])
           = map (pose_request model mb) (POSES env)"
      using e(2) by (simp add: requests_append)
    ultimately show ?thesis by blast
  qed
qed
lemma makedirs_trace: "trace (snd (makedirs p w)) = trace w @ [MakeDirs p]"
  "stdin (snd (makedirs p w)) = stdin w"
  by (simp_all add: makedirs_def emit_def split: prod.splits)

text \<open>
  The effects of one prompt: the directory first, then no request, the master request
  alone, or the master request followed by every pose request.
\<close>

lemma process_prompt_shape:
  "\<exists>evs. trace (snd (process_prompt env model face filename w)) =
            trace w @ MakeDirs (current_output_dir env filename w) # evs
     \<and> made evs = []
     \<and> (requests evs = []
        \<or> (\<exists>txt. requests evs = [master_request model face txt])
        \<or> (\<exists>txt resp b enc.
              requests evs = master_request model face txt # map (pose_request model b) (POSES env)
              \<and> Call (master_request model face txt) (Inr resp) \<in> set evs
              \<and> (\<forall>res. Call (master_request model face txt) res \<in> set evs \<longrightarrow> res = Inr resp)
              \<and> fst (save_image env resp
                    (path_join (current_output_dir env filename w) [''00_MASTER_CONCEPT.png'']) w)
                  = Inr (Some b)
              \<and> b \<noteq> []
              \<and> Wrote (path_join (current_output_dir env filename w) [''00_MASTER_CONCEPT.png'']) enc
                  \<in> set evs))"
proof -
  let ?dir = "current_output_dir env filename w"
  let ?cn = "fst (splitext filename)"
  let ?mp = "path_join ?dir [''00_MASTER_CONCEPT.png'']"
  obtain r1 w1 where m: "makedirs ?dir w = (r1, w1)" by (cases "makedirs ?dir w")
  have t1: "trace w1 = trace w @ [MakeDirs ?dir]"
    using makedirs_trace(1)[of ?dir w] m by simp
  have stop: "process_prompt env model face filename w = (Some e, w1) \<Longrightarrow> ?thesis" for e
    using t1 by simp
  show ?thesis
  proof (cases r1)
    case (Some e)
    with m have "process_prompt env model face filename w = (Some e, w1)"
      by (simp add: process_prompt_def Let_def)
    then show ?thesis by (rule stop)
  next
    case None
    note r1 = this
    show ?thesis
    proof (cases "read_file w1 (path_join PROMPTS_FOLDER [filename])")
      case (Inl e)
      with m r1 have "process_prompt env model face filename w = (Some e, w1)"
        by (simp add: process_prompt_def Let_def)
      then show ?thesis by (rule stop)
    next
      case (Inr raw)
      note raw = this
      show ?thesis
      proof (cases "decode_text env raw")
        case (Inl e)
        with m r1 raw have "process_prompt env model face filename w = (Some e, w1)"
          by (simp add: process_prompt_def Let_def)
        then show ?thesis by (rule stop)
      next
        case (Inr content_text)
        let ?pre = "[Print Separator, Print (Processing filename),
                     Print (PromptPreview (take 60 (py_strip content_text))),
                     Print (SavingTo ?cn (time_now env (trace w))),
                     Print (GeneratingConcept model)]"
        let ?w2 = "emit (Print (GeneratingConcept model))
                    (emit (Print (SavingTo ?cn (time_now env (trace w))))
                      (emit (Print (PromptPreview (take 60 (py_strip content_text))))
                        (emit (Print (Processing filename)) (emit (Print Separator) w1))))"
        let ?text = "master_prompt (py_strip content_text)"
        let ?mreq = "master_request model face ?text"
        let ?gm = "generate_master env model face ?text ?mp ?w2"
        have t2: "trace ?w2 = trace w @ MakeDirs ?dir # ?pre"
          using t1 by (simp add: emit_def)
        have pp: "process_prompt env model face filename w =
            (case ?gm of (None, w3) \<Rightarrow> (None, w3)
             | (Some b, w3) \<Rightarrow> ask_and_pose env model ?cn ?dir ?mp b w3)"
          using m r1 raw Inr by (simp add: process_prompt_def Let_def)
        obtain em where em: "trace (snd ?gm) = trace ?w2 @ Call ?mreq (generate_content env (trace ?w2) ?mreq) # em"
          "requests em = []" "made em = []"
          "\<forall>b. fst ?gm = Some b \<longrightarrow> b \<noteq> [] \<and> (\<exists>resp enc.
             generate_content env (trace ?w2) ?mreq = Inr resp
             \<and> fst (save_image env resp ?mp ?w2) = Inr (Some b)
             \<and> em = [Wrote ?mp enc, Print (Saved ?mp)])"
          using generate_master_shape[of env model face ?text ?mp ?w2] by blast
        show ?thesis
        proof (cases "fst ?gm")
          case None
          then have "process_prompt env model face filename w = (None, snd ?gm)"
            using pp by (simp add: case_prod_beta)
          then have "trace (snd (process_prompt env model face filename w)) =
              trace w @ MakeDirs ?dir # (?pre @ Call ?mreq (generate_content env (trace ?w2) ?mreq) # em)"
            using em(1) t2 by simp
          moreover have "made (?pre @ Call ?mreq (generate_content env (trace ?w2) ?mreq) # em) = []"
            using em(3) by simp
          moreover have "requests (?pre @ Call ?mreq (generate_content env (trace ?w2) ?mreq) # em) = [?mreq]"
            using em(2) by simp
          ultimately show ?thesis by blast
        next
          case (Some b)
          with em(4) obtain resp enc where ok: "b \<noteq> []"
            "generate_content env (trace ?w2) ?mreq = Inr resp"
            "fst (save_image env resp ?mp ?w2) = Inr (Some b)"
            "em = [Wrote ?mp enc, Print (Saved ?mp)]" by blast
          have sv: "fst (save_image env resp ?mp w) = Inr (Some b)"
            using ok(3) save_image_fst[of env resp ?mp w ?w2] by simp
          let ?ap = "ask_and_pose env model ?cn ?dir ?mp b (snd ?gm)"
          have pp': "process_prompt env model face filename w = ?ap"
            using pp Some by (simp add: case_prod_beta)
          obtain ea where ea: "trace (snd ?ap) = trace (snd ?gm) @ ea" "made ea = []"
            "requests ea = [] \<or> requests ea = map (pose_request model b) (POSES env)"
            using ask_and_pose_shape[of env model ?cn ?dir ?mp b "snd ?gm"] by blast
          let ?evs = "?pre @ [Call ?mreq (Inr resp), Wrote ?mp enc, Print (Saved ?mp)] @ ea"
          have tr: "trace (snd (process_prompt env model face filename w)) = trace w @ MakeDirs ?dir # ?evs"
            using pp' ea(1) em(1) ok(2,4) t2 by simp
          have md: "made ?evs = []" using ea(2) by (simp add: made_append)
          have rq: "requests ?evs = ?mreq # requests ea" by (simp add: requests_append)
          have uniq: "\<forall>res. Call ?mreq res \<in> set ?evs \<longrightarrow> res = Inr resp"
          proof (intro allI impI)
            fix res assume "Call ?mreq res \<in> set ?evs"
            then have "res = Inr resp \<or> Call ?mreq res \<in> set ea" by auto
            moreover have "Call ?mreq res \<notin> set ea"
            proof
              assume "Call ?mreq res \<in> set ea"
              then have "?mreq \<in> set (requests ea)" by (rule Call_in_requests)
              with ea(3) show False by (auto simp: master_not_pose)
            qed
            ultimately show "res = Inr resp" by blast
          qed
          from ea(3) show ?thesis
          proof
            assume "requests ea = []"
            with rq have "requests ?evs = [?mreq]" by simp
            with tr md show ?thesis by blast
          next
            assume "requests ea = map (pose_request model b) (POSES env)"
            with rq have "requests ?evs = ?mreq # map (pose_request model b) (POSES env)" by simp
            moreover have "Call ?mreq (Inr resp) \<in> set ?evs" by simp
            moreover have "Wrote ?mp enc \<in> set ?evs" by simp
            ultimately show ?thesis using tr md uniq sv ok(1) by blast
          qed
        qed
      qed
    qed
  qed
qed
text \<open>
  C1.  If the effects of one prompt contain a pose request, then its requests are the master
  request followed by the pose requests, the master call returned a response (it did not
  raise), \<open>save_image\<close> returned bytes for it that are not empty and wrote the master
  file, and the pose request carries those bytes.
\<close>

theorem pose_request_needs_master:
  assumes "q \<in> set (requests (new_events w (snd (process_prompt env model face filename w))))"
    and "is_pose_request q"
  shows "\<exists>txt resp b enc.
      requests (new_events w (snd (process_prompt env model face filename w))) =
        master_request model face txt # map (pose_request model b) (POSES env)
      \<and> Call (master_request model face txt) (Inr resp)
            \<in> set (new_events w (snd (process_prompt env model face filename w)))
      \<and> (\<forall>res. Call (master_request model face txt) res
            \<in> set (new_events w (snd (process_prompt env model face filename w))) \<longrightarrow> res = Inr resp)
      \<and> fst (save_image env resp
            (path_join (current_output_dir env filename w) [''00_MASTER_CONCEPT.png'']) w) = Inr (Some b)
      \<and> b \<noteq> []
      \<and> Wrote (path_join (current_output_dir env filename w) [''00_MASTER_CONCEPT.png'']) enc
            \<in> set (new_events w (snd (process_prompt env model face filename w)))
      \<and> q \<in> pose_request model b ` set (POSES env)"
proof -
  let ?w' = "snd (process_prompt env model face filename w)"
  let ?mp = "path_join (current_output_dir env filename w) [''00_MASTER_CONCEPT.png'']"
  obtain evs where tr: "trace ?w' = trace w @ MakeDirs (current_output_dir env filename w) # evs"
    and alts: "requests evs = []
        \<or> (\<exists>txt. requests evs = [master_request model face txt])
        \<or> (\<exists>txt resp b enc.
              requests evs = master_request model face txt # map (pose_request model b) (POSES env)
              \<and> Call (master_request model face txt) (Inr resp) \<in> set evs
              \<and> (\<forall>res. Call (master_request model face txt) res \<in> set evs \<longrightarrow> res = Inr resp)
              \<and> fst (save_image env resp ?mp w) = Inr (Some b)
              \<and> b \<noteq> []
              \<and> Wrote ?mp enc \<in> set evs)"
    using process_prompt_shape[of env model face filename w] by blast
  have ne: "new_events w ?w' = MakeDirs (current_output_dir env filename w) # evs"
    using tr by simp
  have q: "q \<in> set (requests evs)" using assms(1) ne by simp
  from alts show ?thesis
  proof (elim disjE exE conjE)
    assume "requests evs = []"
    with q show ?thesis by simp
  next
    fix t assume "requests evs = [master_request model face t]"
    with q assms(2) show ?thesis by (simp add: is_pose_request_simps)
  next
    fix t resp b enc
    assume a: "requests evs = master_request model face t # map (pose_request model b) (POSES env)"
      "Call (master_request model face t) (Inr resp) \<in> set evs"
      "\<forall>res. Call (master_request model face t) res \<in> set evs \<longrightarrow> res = Inr resp"
      "fst (save_image env resp ?mp w) = Inr (Some b)" "b \<noteq> []" "Wrote ?mp enc \<in> set evs"
    have qp: "q \<in> pose_request model b ` set (POSES env)"
    proof -
      from q a(1) have "q = master_request model face t \<or> q \<in> set (map (pose_request model b) (POSES env))"
        by simp
      moreover have "q \<noteq> master_request model face t"
        using assms(2) is_pose_request_simps(2) by blast
      ultimately show ?thesis by simp
    qed
    have m1: "requests (new_events w ?w') =
        master_request model face t # map (pose_request model b) (POSES env)"
      using ne a(1) by simp
    have m2: "Call (master_request model face t) (Inr resp) \<in> set (new_events w ?w')"
      using ne a(2) by simp
    have m3: "\<forall>res. Call (master_request model face t) res \<in> set (new_events w ?w') \<longrightarrow> res = Inr resp"
    proof (intro allI impI)
      fix res assume "Call (master_request model face t) res \<in> set (new_events w ?w')"
      then have "Call (master_request model face t) res \<in> set evs" using ne by simp
      with a(3) show "res = Inr resp" by blast
    qed
    have m6: "Wrote ?mp enc \<in> set (new_events w ?w')" using ne a(6) by simp
    from m1 m2 m3 a(4) a(5) m6 qp show ?thesis by blast
  qed
qed

text \<open>The theorem at the example run, for the request of the first pose.\<close>

theorem pose_request_needs_master_witness:
  "\<exists>txt resp b enc.
      requests (new_events (demo_world\<lparr>stdin := [''y'']\<rparr>)
        (snd (process_prompt demo_env ''gemini-2.5-flash-image'' ''FACE'' ''winter.txt''
               (demo_world\<lparr>stdin := [''y'']\<rparr>)))) =
        master_request ''gemini-2.5-flash-image'' ''FACE'' txt
          # map (pose_request ''gemini-2.5-flash-image'' b) (POSES demo_env)
      \<and> Call (master_request ''gemini-2.5-flash-image'' ''FACE'' txt) (Inr resp)
            \<in> set (new_events (demo_world\<lparr>stdin := [''y'']\<rparr>)
                 (snd (process_prompt demo_env ''gemini-2.5-flash-image'' ''FACE'' ''winter.txt''
                        (demo_world\<lparr>stdin := [''y'']\<rparr>))))
      \<and> (\<forall>res. Call (master_request ''gemini-2.5-flash-image'' ''FACE'' txt) res
            \<in> set (new_events (demo_world\<lparr>stdin := [''y'']\<rparr>)
                 (snd (process_prompt demo_env ''gemini-2.5-flash-image'' ''FACE'' ''winter.txt''
                        (demo_world\<lparr>stdin := [''y'']\<rparr>)))) \<longrightarrow> res = Inr resp)
      \<and> fst (save_image demo_env resp
            (path_join (current_output_dir demo_env ''winter.txt'' (demo_world\<lparr>stdin := [''y'']\<rparr>))
               [''00_MASTER_CONCEPT.png'']) (demo_world\<lparr>stdin := [''y'']\<rparr>)) = Inr (Some b)
      \<and> b \<noteq> []
      \<and> Wrote (path_join (current_output_dir demo_env ''winter.txt'' (demo_world\<lparr>stdin := [''y'']\<rparr>))
               [''00_MASTER_CONCEPT.png'']) enc
            \<in> set (new_events (demo_world\<lparr>stdin := [''y'']\<rparr>)
                 (snd (process_prompt demo_env ''gemini-2.5-flash-image'' ''FACE'' ''winter.txt''
                        (demo_world\<lparr>stdin := [''y'']\<rparr>))))
      \<and> pose_request ''gemini-2.5-flash-image'' ''JPEG:abc'' ''standing''
            \<in> pose_request ''gemini-2.5-flash-image'' b ` set (POSES demo_env)"
proof (rule pose_request_needs_master)
  show "pose_request ''gemini-2.5-flash-image'' ''JPEG:abc'' ''standing''
    \<in> set (requests (new_events (demo_world\<lparr>stdin := [''y'']\<rparr>)
        (snd (process_prompt demo_env ''gemini-2.5-flash-image'' ''FACE'' ''winter.txt''
               (demo_world\<lparr>stdin := [''y'']\<rparr>)))))"
    by (simp add: demo_prompt_run new_events_def demo_world_trace)
  show "is_pose_request (pose_request ''gemini-2.5-flash-image'' ''JPEG:abc'' ''standing'')"
    by (rule is_pose_request_simps)
qed

section \<open>Properties of paths and directories\<close>

lemma digit_not_slash: "d < 10 \<Longrightarrow> char_of (48 + d :: nat) \<noteq> CHR ''/''"
proof
  assume d: "d < 10" and "char_of (48 + d) = CHR ''/''"
  then have "(of_char (char_of (48 + d) :: char) :: nat) = of_char (CHR ''/'')" by simp
  then have "(48 + d) mod 256 = 47" by (simp only: of_char_of) simp
  with d show False by simp
qed

lemma str_nat_last: "str_nat n \<noteq> [] \<and> last (str_nat n) \<noteq> CHR ''/''"
proof (cases "n < 10")
  case True
  then show ?thesis using digit_not_slash[of n] by (simp add: str_nat.simps[of n])
next
  case False
  then show ?thesis using digit_not_slash[of "n mod 10"] by (simp add: str_nat.simps[of n])
qed

lemma str_int_last: "str_int k \<noteq> [] \<and> last (str_int k) \<noteq> CHR ''/''"
  using str_nat_last by (simp add: str_int_def)

lemma join2_tail:
  assumes "b \<noteq> []" and "hd b \<noteq> CHR ''/''"
  shows "\<exists>x. join2 path b = x @ b"
  using assms by (auto simp: join2_def)

lemma join2_plain:
  assumes "b \<noteq> []" and "hd b \<noteq> CHR ''/''" and "path \<noteq> []" and "last path \<noteq> CHR ''/''"
  shows "join2 path b = path @ ''/'' @ b"
  using assms by (simp add: join2_def)

lemma current_output_dir_last:
  "current_output_dir env filename w \<noteq> [] \<and> last (current_output_dir env filename w) \<noteq> CHR ''/''"
proof -
  let ?b = "''run_'' @ str_int (time_now env (trace w))"
  have b: "?b \<noteq> []" "hd ?b \<noteq> CHR ''/''" by simp_all
  obtain x where "current_output_dir env filename w = x @ ?b"
    using join2_tail[OF b] by (auto simp: current_output_dir_def path_join_def Let_def)
  then show ?thesis using str_int_last[of "time_now env (trace w)"] by simp
qed

lemma splitext_fst:
  assumes "p \<noteq> []"
  shows "fst (splitext p) \<noteq> [] \<and> set (fst (splitext p)) \<subseteq> set p"
proof (cases "rfind (CHR ''.'') p > rfind (CHR ''/'') p \<and>
            list_ex (\<lambda>k. p ! k \<noteq> CHR ''.'') [nat (rfind (CHR ''/'') p + 1)..<nat (rfind (CHR ''.'') p)]")
  case False
  then have "splitext p = (p, [])" by (auto simp: splitext_def Let_def)
  with assms show ?thesis by simp
next
  case True
  then have eq: "fst (splitext p) = take (nat (rfind (CHR ''.'') p)) p"
    by (simp add: splitext_def Let_def)
  from True have "[nat (rfind (CHR ''/'') p + 1)..<nat (rfind (CHR ''.'') p)] \<noteq> []"
    by (auto simp: list_ex_iff)
  then have "0 < nat (rfind (CHR ''.'') p)" by simp
  with assms eq show ?thesis by (auto dest: in_set_takeD)
qed

lemma current_output_dir_pattern:
  assumes "filename \<noteq> []" and "CHR ''/'' \<notin> set filename"
  shows "current_output_dir env filename w =
           OUTPUT_BASE @ ''/'' @ fst (splitext filename) @ ''/run_'' @ str_int (time_now env (trace w))"
proof -
  let ?cn = "fst (splitext filename)"
  have cn: "?cn \<noteq> []" "CHR ''/'' \<notin> set ?cn"
    using splitext_fst[OF assms(1)] assms(2) by auto
  then have hd_last: "hd ?cn \<noteq> CHR ''/''" "last ?cn \<noteq> CHR ''/''"
    by (metis hd_in_set, metis last_in_set)
  have 1: "join2 OUTPUT_BASE ?cn = OUTPUT_BASE @ ''/'' @ ?cn"
    using cn(1) hd_last(1) by (intro join2_plain) (simp_all add: OUTPUT_BASE_def)
  have 2: "join2 (OUTPUT_BASE @ ''/'' @ ?cn) (''run_'' @ str_int (time_now env (trace w))) =
      (OUTPUT_BASE @ ''/'' @ ?cn) @ ''/'' @ (''run_'' @ str_int (time_now env (trace w)))"
    using cn(1) hd_last(2) by (intro join2_plain) simp_all
  show ?thesis
    using 1 2 by (simp add: current_output_dir_def path_join_def Let_def)
qed

lemma prefixes_at_sep_last: "prefixes_at_sep acc p \<noteq> [] \<and> last (prefixes_at_sep acc p) = acc @ p"
  by (induction p arbitrary: acc) simp_all

lemma ancestors_self:
  assumes "p \<noteq> []" and "last p \<noteq> CHR ''/''"
  shows "p \<in> set (ancestors p)"
proof -
  have "last (prefixes_at_sep [] p) \<in> set (prefixes_at_sep [] p)"
    using prefixes_at_sep_last[of "[]" p] by (intro last_in_set) simp
  then have "p \<in> set (prefixes_at_sep [] p)"
    using prefixes_at_sep_last[of "[]" p] by simp
  with assms show ?thesis by (simp add: ancestors_def)
qed

lemma mkdir_chain_keeps:
  "mkdir_chain ds f = (r, f') \<Longrightarrow> map_of f p = Some n \<Longrightarrow> map_of f' p = Some n"
proof (induction ds arbitrary: f)
  case Nil
  then show ?case by simp
next
  case (Cons d ds)
  show ?case
  proof (cases "map_of f d")
    case None
    with Cons.prems have "mkdir_chain ds (f @ [(d, Dir)]) = (r, f')" by simp
    moreover have "map_of (f @ [(d, Dir)]) p = Some n"
      using Cons.prems(2) by (simp add: map_add_Some_iff)
    ultimately show ?thesis by (rule Cons.IH)
  next
    case (Some nd)
    with Cons show ?thesis by (cases nd) auto
  qed
qed

lemma mkdir_chain_made:
  "mkdir_chain ds f = (None, f') \<Longrightarrow> d \<in> set ds \<Longrightarrow> map_of f' d = Some Dir"
proof (induction ds arbitrary: f)
  case Nil
  then show ?case by simp
next
  case (Cons a ds)
  show ?case
  proof (cases "map_of f a")
    case None
    with Cons.prems have rec: "mkdir_chain ds (f @ [(a, Dir)]) = (None, f')" by simp
    show ?thesis
    proof (cases "d = a")
      case True
      have "map_of (f @ [(a, Dir)]) a = Some Dir" using None by (simp add: map_add_Some_iff)
      with rec True show ?thesis using mkdir_chain_keeps by blast
    next
      case False
      with Cons.prems(2) have "d \<in> set ds" by simp
      with rec show ?thesis by (rule Cons.IH)
    qed
  next
    case (Some nd)
    show ?thesis
    proof (cases nd)
      case (File b)
      with Some Cons.prems show ?thesis by simp
    next
      case Dir
      with Some Cons.prems have rec: "mkdir_chain ds f = (None, f')" by simp
      show ?thesis
      proof (cases "d = a")
        case True
        with Some Dir rec show ?thesis using mkdir_chain_keeps by blast
      next
        case False
        with Cons.prems(2) have "d \<in> set ds" by simp
        with rec show ?thesis by (rule Cons.IH)
      qed
    qed
  qed
qed

lemma mkdir_chain_present:
  "\<forall>d\<in>set ds. map_of f d = Some Dir \<Longrightarrow> mkdir_chain ds f = (None, f)"
  by (induction ds) simp_all

lemma makedirs_again:
  assumes "fst (makedirs p w) = None"
  shows "makedirs p (snd (makedirs p w)) = (None, emit (MakeDirs p) (snd (makedirs p w)))"
proof -
  obtain f' where c: "mkdir_chain (ancestors p) (fs w) = (None, f')"
    using assms by (cases "mkdir_chain (ancestors p) (fs w)") (simp add: makedirs_def)
  then have w1: "snd (makedirs p w) = emit (MakeDirs p) (w\<lparr>fs := f'\<rparr>)"
    by (simp add: makedirs_def)
  have "\<forall>d\<in>set (ancestors p). map_of f' d = Some Dir"
    using mkdir_chain_made[OF c] by blast
  then have "mkdir_chain (ancestors p) f' = (None, f')" by (rule mkdir_chain_present)
  then show ?thesis unfolding w1 by (simp add: makedirs_def emit_def)
qed

lemma makedirs_creates:
  assumes "fst (makedirs p w) = None" and "p \<noteq> []" and "last p \<noteq> CHR ''/''"
  shows "map_of (fs (snd (makedirs p w))) p = Some Dir"
proof -
  obtain f' where c: "mkdir_chain (ancestors p) (fs w) = (None, f')"
    using assms(1) by (cases "mkdir_chain (ancestors p) (fs w)") (simp add: makedirs_def)
  then have "fs (snd (makedirs p w)) = f'" by (simp add: makedirs_def emit_def)
  moreover have "map_of f' p = Some Dir"
    using mkdir_chain_made[OF c ancestors_self[OF assms(2,3)]] .
  ultimately show ?thesis by simp
qed

lemma makedirs_keeps:
  "map_of (fs w) p = Some n \<Longrightarrow> map_of (fs (snd (makedirs q w))) p = Some n"
  using mkdir_chain_keeps[of "ancestors q" "fs w" _ _ p n]
  by (cases "mkdir_chain (ancestors q) (fs w)") (simp add: makedirs_def emit_def)

section \<open>The file system along the trace\<close>

lemma calls_append: "calls (xs @ ys) = calls xs @ calls ys"
  by (induction xs rule: calls.induct) simp_all

lemma apply_writes_append: "apply_writes (xs @ ys) f = apply_writes ys (apply_writes xs f)"
  by (induction xs f rule: apply_writes.induct) simp_all

lemma apply_writes_other:
  "p \<notin> set (written evs) \<Longrightarrow> map_of (apply_writes evs f) p = map_of f p"
  by (induction evs f rule: apply_writes.induct) (simp_all add: update_conv')

lemma apply_writes_last:
  "distinct (written evs) \<Longrightarrow> Wrote p enc \<in> set evs \<Longrightarrow>
   map_of (apply_writes evs f) p = Some (File enc)"
proof (induction evs f rule: apply_writes.induct)
  case (1 f)
  then show ?case by simp
next
  case (2 q e es f)
  show ?case
  proof (cases "Wrote p enc \<in> set es")
    case True
    with "2.prems" "2.IH" show ?thesis by simp
  next
    case False
    with "2.prems" have eq: "q = p" "e = enc" and "p \<notin> set (written es)" by auto
    then show ?thesis by (simp add: apply_writes_other update_conv')
  qed
qed simp_all

lemma saved_as_print_end: "saved_as (xs @ [Print m]) = saved_as xs"
  by (induction xs rule: saved_as.induct) simp_all

lemma file_path_last:
  assumes "b \<noteq> []" and "hd b \<noteq> CHR ''/''"
  shows "path_join dir [b] \<noteq> [] \<and> last (path_join dir [b]) = last b"
proof -
  obtain x where "join2 dir b = x @ b" using join2_tail[OF assms] by blast
  with assms(1) show ?thesis by (simp add: path_join_def)
qed

lemma pose_path_last:
  "path_join dir [''pose_'' @ s @ ''.png''] \<noteq> []
   \<and> last (path_join dir [''pose_'' @ s @ ''.png'']) = CHR ''g''"
  using file_path_last[of "''pose_'' @ s @ ''.png''" dir] by simp

lemma master_path_last:
  "path_join dir [''00_MASTER_CONCEPT.png''] \<noteq> []
   \<and> last (path_join dir [''00_MASTER_CONCEPT.png'']) = CHR ''g''"
  using file_path_last[of "''00_MASTER_CONCEPT.png''" dir] by simp

text \<open>What \<open>save_image\<close> does to the world: nothing, or one write to its path and a line.\<close>

lemma save_image_effects:
  "\<exists>evs. trace (snd (save_image env resp path w)) = trace w @ evs
     \<and> fs (snd (save_image env resp path w)) = apply_writes evs (fs w)
     \<and> stdin (snd (save_image env resp path w)) = stdin w
     \<and> set (written evs) \<subseteq> {path} \<and> calls evs = [] \<and> made evs = []"
proof (cases "fst (save_image env resp path w)")
  case (Inl e)
  show ?thesis using save_image_unchanged(1)[OF Inl] by (intro exI[of _ "[]"]) simp
next
  case (Inr r)
  show ?thesis
  proof (cases r)
    case None
    with Inr have "fst (save_image env resp path w) = Inr None" by simp
    from save_image_unchanged(2)[OF this] show ?thesis by (intro exI[of _ "[]"]) simp
  next
    case (Some b)
    with Inr save_image_written obtain enc where
      "snd (save_image env resp path w) = emit (Print (Saved path)) (write_file path enc w)"
      by blast
    then show ?thesis
      by (intro exI[of _ "[Wrote path enc, Print (Saved path)]"])
         (simp add: emit_def write_file_def)
  qed
qed

lemma pose_body_effects:
  "\<exists>evs. trace (pose_body env model mb dir i pose w) = trace w @ evs
     \<and> fs (pose_body env model mb dir i pose w) = apply_writes evs (fs w)
     \<and> set (written evs) \<subseteq> {path_join dir [''pose_'' @ str_nat (i + 1) @ ''.png'']}
     \<and> calls evs = [(pose_request model mb pose,
          generate_content env (trace w @ [Print (PoseHeader (i + 1) (length (POSES env)) pose)])
            (pose_request model mb pose))]"
proof (cases "generate_content env (trace w @ [Print (PoseHeader (i + 1) (length (POSES env)) pose)])
             (pose_request model mb pose)")
  case (Inl e)
  show ?thesis using Inl by (simp add: pose_body_request_raises[OF Inl])
next
  case (Inr resp)
  show ?thesis
  proof (cases "fst (save_image env resp (path_join dir [''pose_'' @ str_nat (i + 1) @ ''.png'']) w)")
    case (Inl e)
    show ?thesis using Inr by (simp add: pose_body_save_raises[OF Inr Inl])
  next
    case r: (Inr r)
    show ?thesis
    proof (cases r)
      case None
      with r have "fst (save_image env resp (path_join dir [''pose_'' @ str_nat (i + 1) @ ''.png'']) w) = Inr None"
        by simp
      from pose_body_empty[OF Inr this] show ?thesis using Inr by simp
    next
      case (Some b)
      with r pose_body_saved[OF Inr] obtain enc where
        "pose_body env model mb dir i pose w =
           w\<lparr>fs := AList.update (path_join dir [''pose_'' @ str_nat (i + 1) @ ''.png'']) (File enc) (fs w),
             trace := trace w @ [Print (PoseHeader (i + 1) (length (POSES env)) pose),
                                 Call (pose_request model mb pose) (Inr resp),
                                 Wrote (path_join dir [''pose_'' @ str_nat (i + 1) @ ''.png'']) enc,
                                 Print (Saved (path_join dir [''pose_'' @ str_nat (i + 1) @ ''.png''])),
                                 Sleep 2]\<rparr>" by blast
      then show ?thesis using Inr by simp
    qed
  qed
qed

lemma pose_loop_effects:
  "\<exists>evs. trace (pose_loop env model mb dir i poses w) = trace w @ evs
     \<and> fs (pose_loop env model mb dir i poses w) = apply_writes evs (fs w)
     \<and> (\<forall>q\<in>set (written evs). q \<noteq> [] \<and> last q = CHR ''g'')"
proof (induction poses arbitrary: i w)
  case Nil
  show ?case by simp
next
  case (Cons pose rest)
  let ?w1 = "pose_body env model mb dir i pose w"
  obtain e1 where 1: "trace ?w1 = trace w @ e1" "fs ?w1 = apply_writes e1 (fs w)"
    "set (written e1) \<subseteq> {path_join dir [''pose_'' @ str_nat (i + 1) @ ''.png'']}"
    using pose_body_effects[of env model mb dir i pose w] by blast
  obtain e2 where 2: "trace (pose_loop env model mb dir (Suc i) rest ?w1) = trace ?w1 @ e2"
    "fs (pose_loop env model mb dir (Suc i) rest ?w1) = apply_writes e2 (fs ?w1)"
    "\<forall>q\<in>set (written e2). q \<noteq> [] \<and> last q = CHR ''g''"
    using Cons.IH[of "Suc i" ?w1] by blast
  have "trace (pose_loop env model mb dir i (pose # rest) w) = trace w @ (e1 @ e2)"
    using 1 2 by simp
  moreover have "fs (pose_loop env model mb dir i (pose # rest) w) = apply_writes (e1 @ e2) (fs w)"
    using 1 2 by (simp add: apply_writes_append)
  moreover have "\<forall>q\<in>set (written (e1 @ e2)). q \<noteq> [] \<and> last q = CHR ''g''"
    using 1(3) 2(3) pose_path_last[of dir "str_nat (i + 1)"] by (auto simp: written_append)
  ultimately show ?case by blast
qed

lemma generate_master_effects:
  "\<exists>evs. trace (snd (generate_master env model face text mp w)) = trace w @ evs
     \<and> fs (snd (generate_master env model face text mp w)) = apply_writes evs (fs w)
     \<and> set (written evs) \<subseteq> {mp}"
proof -
  let ?res = "generate_content env (trace w) (master_request model face text)"
  let ?w1 = "emit (Call (master_request model face text) ?res) w"
  show ?thesis
  proof (cases ?res)
    case (Inl e)
    then show ?thesis
      by (intro exI[of _ "[Call (master_request model face text) (Inl e), Print (ConceptError e)]"])
         (simp add: generate_master_def Let_def emit_def)
  next
    case (Inr resp)
    obtain r w2 where s: "save_image env resp mp ?w1 = (r, w2)"
      by (cases "save_image env resp mp ?w1")
    obtain es where es: "trace w2 = trace ?w1 @ es" "fs w2 = apply_writes es (fs ?w1)"
      "set (written es) \<subseteq> {mp}"
      using save_image_effects[of env resp mp ?w1] s by auto
    have t1: "trace ?w1 = trace w @ [Call (master_request model face text) (Inr resp)]"
      "fs ?w1 = fs w" using Inr by (simp_all add: emit_def)
    have "snd (generate_master env model face text mp w) = w2
        \<or> (\<exists>m. snd (generate_master env model face text mp w) = emit (Print m) w2)"
      using Inr s by (auto simp: generate_master_def Let_def split: sum.splits)
    then show ?thesis
    proof
      assume "snd (generate_master env model face text mp w) = w2"
      then show ?thesis using es t1
        by (intro exI[of _ "Call (master_request model face text) (Inr resp) # es"]) simp
    next
      assume "\<exists>m. snd (generate_master env model face text mp w) = emit (Print m) w2"
      then obtain m where "snd (generate_master env model face text mp w) = emit (Print m) w2"
        by blast
      then show ?thesis using es t1
        by (intro exI[of _ "Call (master_request model face text) (Inr resp) # es @ [Print m]"])
           (simp add: emit_def apply_writes_append written_append)
    qed
  qed
qed

lemma ask_and_pose_effects:
  "\<exists>evs. trace (snd (ask_and_pose env model cn dir mp mb w)) = trace w @ evs
     \<and> fs (snd (ask_and_pose env model cn dir mp mb w)) = apply_writes evs (fs w)
     \<and> (\<forall>q\<in>set (written evs). q \<noteq> [] \<and> last q = CHR ''g'')"
proof (cases "stdin w")
  case Nil
  then show ?thesis
    by (intro exI[of _ "[Print (CheckImage mp)]"]) (simp add: ask_and_pose_def py_input_def emit_def)
next
  case (Cons line rest)
  show ?thesis
  proof (cases "py_lower (py_strip line) = ''y''")
    case False
    with Cons show ?thesis
      by (intro exI[of _ "[Print (CheckImage mp), Input (AskPoses cn) line, Print SkippingPoses]"])
         (simp add: ask_and_pose_def py_input_def emit_def)
  next
    case True
    let ?w1 = "emit (Print (GeneratingPoses (length (POSES env)) model))
                (emit (Input (AskPoses cn) line) ((emit (Print (CheckImage mp)) w)\<lparr>stdin := rest\<rparr>))"
    obtain evs where e: "trace (pose_loop env model mb dir 0 (POSES env) ?w1) = trace ?w1 @ evs"
      "fs (pose_loop env model mb dir 0 (POSES env) ?w1) = apply_writes evs (fs ?w1)"
      "\<forall>q\<in>set (written evs). q \<noteq> [] \<and> last q = CHR ''g''"
      using pose_loop_effects[of env model mb dir 0 "POSES env" ?w1] by blast
    have "snd (ask_and_pose env model cn dir mp mb w) =
        emit (Print (AllPosesFinished cn)) (pose_loop env model mb dir 0 (POSES env) ?w1)"
      using Cons True by (simp add: ask_and_pose_def py_input_def emit_simps)
    then show ?thesis using e
      by (intro exI[of _ "[Print (CheckImage mp), Input (AskPoses cn) line,
                    Print (GeneratingPoses (length (POSES env)) model)] @ evs @ [Print (AllPosesFinished cn)]"])
         (simp add: emit_def apply_writes_append written_append)
  qed
qed

text \<open>
  The file system after one prompt: what \<open>os.makedirs\<close> left, with the writes of the
  prompt replayed on it.  Every path written ends in \<open>g\<close>.  When the creation of the
  directory raises, the prompt ends there.
\<close>

lemma process_prompt_effects:
  "\<exists>evs. trace (snd (process_prompt env model face filename w)) =
            trace w @ MakeDirs (current_output_dir env filename w) # evs
     \<and> fs (snd (process_prompt env model face filename w)) =
         apply_writes evs (fs (snd (makedirs (current_output_dir env filename w) w)))
     \<and> (\<forall>q\<in>set (written evs). q \<noteq> [] \<and> last q = CHR ''g'')"
proof -
  let ?dir = "current_output_dir env filename w"
  let ?cn = "fst (splitext filename)"
  let ?mp = "path_join ?dir [''00_MASTER_CONCEPT.png'']"
  obtain r1 w1 where m: "makedirs ?dir w = (r1, w1)" by (cases "makedirs ?dir w")
  have t1: "trace w1 = trace w @ [MakeDirs ?dir]"
    using makedirs_trace(1)[of ?dir w] m by simp
  have stop: "snd (process_prompt env model face filename w) = w1 \<Longrightarrow> ?thesis"
    using t1 m by (intro exI[of _ "[]"]) simp
  show ?thesis
  proof (cases r1)
    case (Some e)
    with m have "snd (process_prompt env model face filename w) = w1"
      by (simp add: process_prompt_def Let_def)
    then show ?thesis by (rule stop)
  next
    case None
    note r1 = this
    show ?thesis
    proof (cases "read_file w1 (path_join PROMPTS_FOLDER [filename])")
      case (Inl e)
      with m r1 have "snd (process_prompt env model face filename w) = w1"
        by (simp add: process_prompt_def Let_def)
      then show ?thesis by (rule stop)
    next
      case (Inr raw)
      note raw = this
      show ?thesis
      proof (cases "decode_text env raw")
        case (Inl e)
        with m r1 raw have "snd (process_prompt env model face filename w) = w1"
          by (simp add: process_prompt_def Let_def)
        then show ?thesis by (rule stop)
      next
        case (Inr content_text)
        let ?pre = "[Print Separator, Print (Processing filename),
                     Print (PromptPreview (take 60 (py_strip content_text))),
                     Print (SavingTo ?cn (time_now env (trace w))),
                     Print (GeneratingConcept model)]"
        let ?w2 = "emit (Print (GeneratingConcept model))
                    (emit (Print (SavingTo ?cn (time_now env (trace w))))
                      (emit (Print (PromptPreview (take 60 (py_strip content_text))))
                        (emit (Print (Processing filename)) (emit (Print Separator) w1))))"
        let ?gm = "generate_master env model face (master_prompt (py_strip content_text)) ?mp ?w2"
        have t2: "trace ?w2 = trace w @ MakeDirs ?dir # ?pre" "fs ?w2 = fs w1"
          using t1 by (simp_all add: emit_def)
        have pp: "process_prompt env model face filename w =
            (case ?gm of (None, w3) \<Rightarrow> (None, w3)
             | (Some b, w3) \<Rightarrow> ask_and_pose env model ?cn ?dir ?mp b w3)"
          using m r1 raw Inr by (simp add: process_prompt_def Let_def)
        obtain em where em: "trace (snd ?gm) = trace ?w2 @ em"
          "fs (snd ?gm) = apply_writes em (fs ?w2)" "set (written em) \<subseteq> {?mp}"
          using generate_master_effects[of env model face "master_prompt (py_strip content_text)" ?mp ?w2]
          by blast
        have emg: "\<forall>q\<in>set (written em). q \<noteq> [] \<and> last q = CHR ''g''"
          using em(3) master_path_last[of ?dir] by auto
        show ?thesis
        proof (cases "fst ?gm")
          case None
          then have pp': "snd (process_prompt env model face filename w) = snd ?gm"
            using pp by (simp add: case_prod_beta)
          have tr: "trace (snd ?gm) = trace w @ MakeDirs ?dir # (?pre @ em)"
            using em(1) t2(1) by simp
          have f: "fs (snd ?gm) = apply_writes (?pre @ em) (fs (snd (makedirs ?dir w)))"
            using em(2) t2(2) m by (simp add: apply_writes_append)
          have g: "\<forall>q\<in>set (written (?pre @ em)). q \<noteq> [] \<and> last q = CHR ''g''"
            using emg by (auto simp: written_append)
          show ?thesis unfolding pp' using tr f g by blast
        next
          case (Some b)
          let ?ap = "ask_and_pose env model ?cn ?dir ?mp b (snd ?gm)"
          have pp': "process_prompt env model face filename w = ?ap"
            using pp Some by (simp add: case_prod_beta)
          obtain ea where ea: "trace (snd ?ap) = trace (snd ?gm) @ ea"
            "fs (snd ?ap) = apply_writes ea (fs (snd ?gm))"
            "\<forall>q\<in>set (written ea). q \<noteq> [] \<and> last q = CHR ''g''"
            using ask_and_pose_effects[of env model ?cn ?dir ?mp b "snd ?gm"] by blast
          have tr: "trace (snd ?ap) = trace w @ MakeDirs ?dir # (?pre @ em @ ea)"
            using ea(1) em(1) t2(1) by simp
          have f: "fs (snd ?ap) = apply_writes (?pre @ em @ ea) (fs (snd (makedirs ?dir w)))"
            using ea(2) em(2) t2(2) m by (simp add: apply_writes_append)
          have g: "\<forall>q\<in>set (written (?pre @ em @ ea)). q \<noteq> [] \<and> last q = CHR ''g''"
            using emg ea(3) by (auto simp: written_append)
          show ?thesis unfolding pp' using tr f g by blast
        qed
      qed
    qed
  qed
qed

lemma process_prompt_stops:
  "fst (makedirs (current_output_dir env filename w) w) = Some e \<Longrightarrow>
   process_prompt env model face filename w = (Some e, snd (makedirs (current_output_dir env filename w) w))"
  by (cases "makedirs (current_output_dir env filename w) w") (simp add: process_prompt_def Let_def)

lemma digit_not_g: "d < 10 \<Longrightarrow> char_of (48 + d :: nat) \<noteq> CHR ''g''"
proof
  assume d: "d < 10" and "char_of (48 + d) = CHR ''g''"
  then have "(of_char (char_of (48 + d) :: char) :: nat) = of_char (CHR ''g'')" by simp
  then have "(48 + d) mod 256 = 103" by (simp only: of_char_of) simp
  with d show False by simp
qed

lemma current_output_dir_not_g: "last (current_output_dir env filename w) \<noteq> CHR ''g''"
proof -
  let ?k = "time_now env (trace w)"
  let ?b = "''run_'' @ str_int ?k"
  have b: "?b \<noteq> []" "hd ?b \<noteq> CHR ''/''" by simp_all
  obtain x where x: "current_output_dir env filename w = x @ ?b"
    using join2_tail[OF b] by (auto simp: current_output_dir_def path_join_def Let_def)
  have "last (str_nat n) \<noteq> CHR ''g''" for n
  proof (cases "n < 10")
    case True
    then show ?thesis using digit_not_g[of n] by (simp add: str_nat.simps[of n])
  next
    case False
    then show ?thesis using digit_not_g[of "n mod 10"] by (simp add: str_nat.simps[of n])
  qed
  then have "last (str_int ?k) \<noteq> CHR ''g''" using str_nat_last by (simp add: str_int_def)
  then show ?thesis using x str_int_last[of ?k] by simp
qed

text \<open>An entry whose path does not end in \<open>g\<close> is the same after the prompt.\<close>

lemma process_prompt_keeps:
  assumes "map_of (fs w) p = Some n" and "p = [] \<or> last p \<noteq> CHR ''g''"
  shows "map_of (fs (snd (process_prompt env model face filename w))) p = Some n"
proof -
  obtain evs where e: "fs (snd (process_prompt env model face filename w)) =
         apply_writes evs (fs (snd (makedirs (current_output_dir env filename w) w)))"
    "\<forall>q\<in>set (written evs). q \<noteq> [] \<and> last q = CHR ''g''"
    using process_prompt_effects[of env model face filename w] by blast
  have "p \<notin> set (written evs)" using e(2) assms(2) by auto
  then have "map_of (fs (snd (process_prompt env model face filename w))) p =
      map_of (fs (snd (makedirs (current_output_dir env filename w) w))) p"
    unfolding e(1) by (rule apply_writes_other)
  then show ?thesis using makedirs_keeps[OF assms(1)] by simp
qed

lemma process_prompt_dir:
  assumes "fst (makedirs (current_output_dir env filename w) w) = None"
  shows "map_of (fs (snd (process_prompt env model face filename w)))
           (current_output_dir env filename w) = Some Dir"
proof -
  let ?dir = "current_output_dir env filename w"
  obtain evs where e: "fs (snd (process_prompt env model face filename w)) =
         apply_writes evs (fs (snd (makedirs ?dir w)))"
    "\<forall>q\<in>set (written evs). q \<noteq> [] \<and> last q = CHR ''g''"
    using process_prompt_effects[of env model face filename w] by blast
  have "?dir \<notin> set (written evs)" using e(2) current_output_dir_not_g[of env filename w] by auto
  then have "map_of (fs (snd (process_prompt env model face filename w))) ?dir =
      map_of (fs (snd (makedirs ?dir w))) ?dir"
    unfolding e(1) by (rule apply_writes_other)
  then show ?thesis
    using makedirs_creates[OF assms] current_output_dir_last[of env filename w] by simp
qed

lemma makedirs_present:
  assumes "\<forall>a\<in>set (ancestors p). map_of (fs w) a = Some Dir"
  shows "makedirs p w = (None, emit (MakeDirs p) w)"
  using mkdir_chain_present[OF assms] by (simp add: makedirs_def)

lemma mkdir_chain_free:
  "\<forall>d\<in>set ds. \<forall>b. map_of f d \<noteq> Some (File b) \<Longrightarrow> fst (mkdir_chain ds f) = None"
proof (induction ds arbitrary: f)
  case Nil
  show ?case by simp
next
  case (Cons a ds)
  show ?case
  proof (cases "map_of f a")
    case None
    have "\<forall>d\<in>set ds. \<forall>b. map_of (f @ [(a, Dir)]) d \<noteq> Some (File b)"
      using Cons.prems by (auto simp: map_add_def split: option.splits)
    then have "fst (mkdir_chain ds (f @ [(a, Dir)])) = None" by (rule Cons.IH)
    with None show ?thesis by simp
  next
    case (Some n)
    with Cons.prems have n: "n = Dir" by (cases n) auto
    have "fst (mkdir_chain ds f) = None" using Cons.prems by (intro Cons.IH) simp
    with Some n show ?thesis by simp
  qed
qed

lemma makedirs_free:
  "\<forall>a\<in>set (ancestors p). \<forall>b. map_of (fs w) a \<noteq> Some (File b) \<Longrightarrow> fst (makedirs p w) = None"
  using mkdir_chain_free[of "ancestors p" "fs w"]
  by (cases "mkdir_chain (ancestors p) (fs w)") (simp add: makedirs_def)

lemma failing_dir: "current_output_dir failing_env ''winter.txt'' w = ''output folder/winter/run_1700000000''"
  by (simp add: current_output_dir_def splitext_demo str_int_demo failing_env_def demo_env_def
      path_join_def join2_def OUTPUT_BASE_def)

text \<open>
  C8.  The effects of processing one prompt file begin with the creation of its output
  directory, and no other directory is created after it: the creation comes once, before
  any request, whatever the requests return; the file system at the end is the one the
  creation left, with the files written afterwards.  For a file name as listed (not empty,
  without separator) the directory is the output root, the prompt name and
  \<open>run_\<close> with the clock's seconds, joined by separators.  When no regular file stands
  where the directory or a directory above it has to be, the creation does not raise and
  the directory is in the file system at the end of the attempt, whatever the service
  returned.  When the creation raises, the attempt ends with that exception.  When the
  directory and the directories above it exist already, the creation does not raise and
  leaves the file system as it was; and creating the directory a second time changes
  nothing and does not raise.
\<close>

theorem output_dir_created_once:
  "(\<exists>evs. new_events w (snd (process_prompt env model face filename w)) =
            MakeDirs (current_output_dir env filename w) # evs \<and> made evs = []
          \<and> fs (snd (process_prompt env model face filename w)) =
              apply_writes evs (fs (snd (makedirs (current_output_dir env filename w) w))))
   \<and> (filename \<noteq> [] \<and> CHR ''/'' \<notin> set filename \<longrightarrow>
        current_output_dir env filename w =
          OUTPUT_BASE @ ''/'' @ fst (splitext filename) @ ''/run_'' @ str_int (time_now env (trace w)))
   \<and> ((\<forall>a\<in>set (ancestors (current_output_dir env filename w)).
          \<forall>b. map_of (fs w) a \<noteq> Some (File b)) \<longrightarrow>
        fst (makedirs (current_output_dir env filename w) w) = None
        \<and> map_of (fs (snd (process_prompt env model face filename w)))
            (current_output_dir env filename w) = Some Dir)
   \<and> (\<forall>e. fst (makedirs (current_output_dir env filename w) w) = Some e \<longrightarrow>
        process_prompt env model face filename w =
          (Some e, snd (makedirs (current_output_dir env filename w) w)))
   \<and> ((\<forall>a\<in>set (ancestors (current_output_dir env filename w)). map_of (fs w) a = Some Dir) \<longrightarrow>
        makedirs (current_output_dir env filename w) w =
          (None, emit (MakeDirs (current_output_dir env filename w)) w))
   \<and> (fst (makedirs (current_output_dir env filename w) w) = None \<longrightarrow>
        map_of (fs (snd (makedirs (current_output_dir env filename w) w)))
          (current_output_dir env filename w) = Some Dir
        \<and> map_of (fs (snd (process_prompt env model face filename w)))
            (current_output_dir env filename w) = Some Dir
        \<and> makedirs (current_output_dir env filename w)
            (snd (makedirs (current_output_dir env filename w) w)) =
          (None, emit (MakeDirs (current_output_dir env filename w))
                   (snd (makedirs (current_output_dir env filename w) w))))"
proof -
  let ?dir = "current_output_dir env filename w"
  let ?pp = "process_prompt env model face filename w"
  obtain evs where s: "trace (snd ?pp) = trace w @ MakeDirs ?dir # evs" "made evs = []"
    using process_prompt_shape[of env model face filename w] by blast
  obtain evs' where e: "trace (snd ?pp) = trace w @ MakeDirs ?dir # evs'"
    "fs (snd ?pp) = apply_writes evs' (fs (snd (makedirs ?dir w)))"
    using process_prompt_effects[of env model face filename w] by blast
  have "evs' = evs" using s(1) e(1) by simp
  then have 1: "\<exists>evs. new_events w (snd ?pp) = MakeDirs ?dir # evs \<and> made evs = []
          \<and> fs (snd ?pp) = apply_writes evs (fs (snd (makedirs ?dir w)))"
    using s e(2) by simp
  have 2: "filename \<noteq> [] \<and> CHR ''/'' \<notin> set filename \<longrightarrow>
        ?dir = OUTPUT_BASE @ ''/'' @ fst (splitext filename) @ ''/run_'' @ str_int (time_now env (trace w))"
    using current_output_dir_pattern[of filename env w] by blast
  have 3: "(\<forall>a\<in>set (ancestors ?dir). \<forall>b. map_of (fs w) a \<noteq> Some (File b)) \<longrightarrow>
        fst (makedirs ?dir w) = None \<and> map_of (fs (snd ?pp)) ?dir = Some Dir"
    using makedirs_free[of ?dir w] process_prompt_dir[of env filename w model face] by blast
  have 4: "\<forall>e. fst (makedirs ?dir w) = Some e \<longrightarrow> ?pp = (Some e, snd (makedirs ?dir w))"
    using process_prompt_stops[of env filename w _ model face] by blast
  have 5: "(\<forall>a\<in>set (ancestors ?dir). map_of (fs w) a = Some Dir) \<longrightarrow>
        makedirs ?dir w = (None, emit (MakeDirs ?dir) w)"
    using makedirs_present[of ?dir w] by blast
  have 6: "fst (makedirs ?dir w) = None \<longrightarrow>
        map_of (fs (snd (makedirs ?dir w))) ?dir = Some Dir
        \<and> map_of (fs (snd ?pp)) ?dir = Some Dir
        \<and> makedirs ?dir (snd (makedirs ?dir w)) = (None, emit (MakeDirs ?dir) (snd (makedirs ?dir w)))"
    using current_output_dir_last[of env filename w] makedirs_creates[of ?dir w]
      makedirs_again[of ?dir w] process_prompt_dir[of env filename w model face] by blast
  show ?thesis using 1 2 3 4 5 6 by blast
qed

text \<open>
  The theorem at the example run, at the same run with a service that always fails, in a
  world where a regular file stands in the way, and in a world that has the directory.
\<close>

theorem output_dir_created_once_witness:
  "(\<exists>evs. new_events (demo_world\<lparr>stdin := [''y'']\<rparr>)
            (snd (process_prompt demo_env ''gemini-2.5-flash-image'' ''FACE'' ''winter.txt''
                   (demo_world\<lparr>stdin := [''y'']\<rparr>))) =
            MakeDirs ''output folder/winter/run_1700000000'' # evs \<and> made evs = [])
   \<and> ''output folder/winter/run_1700000000'' =
        OUTPUT_BASE @ ''/'' @ fst (splitext ''winter.txt'') @ ''/run_''
          @ str_int (time_now demo_env (trace (demo_world\<lparr>stdin := [''y'']\<rparr>)))
   \<and> map_of (fs (snd (makedirs ''output folder/winter/run_1700000000'' (demo_world\<lparr>stdin := [''y'']\<rparr>))))
        ''output folder/winter/run_1700000000'' = Some Dir
   \<and> map_of (fs (snd (process_prompt demo_env ''gemini-2.5-flash-image'' ''FACE'' ''winter.txt''
                        (demo_world\<lparr>stdin := [''y'']\<rparr>))))
        ''output folder/winter/run_1700000000'' = Some Dir
   \<and> map_of (fs (snd (process_prompt failing_env ''gemini-2.5-flash-image'' ''FACE'' ''winter.txt''
                        demo_world)))
        ''output folder/winter/run_1700000000'' = Some Dir
   \<and> process_prompt demo_env ''gemini-2.5-flash-image'' ''FACE'' ''winter.txt'' blocked_world =
        (Some NotADirectoryError, emit (MakeDirs ''output folder/winter/run_1700000000'') blocked_world)
   \<and> map_of (fs blocked_world) ''output folder/winter/run_1700000000'' = None
   \<and> makedirs ''output folder/winter/run_1700000000'' rerun_world =
        (None, emit (MakeDirs ''output folder/winter/run_1700000000'') rerun_world)"
proof -
  let ?d = "''output folder/winter/run_1700000000''"
  let ?w = "demo_world\<lparr>stdin := [''y'']\<rparr>"
  have a: "''winter.txt'' \<noteq> [] \<and> CHR ''/'' \<notin> set ''winter.txt''" by simp
  have b: "fst (makedirs ?d ?w) = None"
    by (simp add: makedirs_def ancestors_demo demo_world_def)
  have c: "\<forall>a\<in>set (ancestors ?d). \<forall>b. map_of (fs ?w) a \<noteq> Some (File b)"
    by (simp add: ancestors_demo demo_world_def)
  have c': "\<forall>a\<in>set (ancestors ?d). \<forall>b. map_of (fs demo_world) a \<noteq> Some (File b)"
    by (simp add: ancestors_demo demo_world_def)
  have d: "makedirs ?d blocked_world = (Some NotADirectoryError, emit (MakeDirs ?d) blocked_world)"
    by (simp add: makedirs_def ancestors_demo blocked_world_def demo_world_def emit_def)
  have e: "\<forall>a\<in>set (ancestors ?d). map_of (fs rerun_world) a = Some Dir"
    by (simp add: ancestors_demo rerun_world_def demo_world_def)
  have f: "map_of (fs blocked_world) ?d = None"
    by (simp add: blocked_world_def demo_world_def)
  note t1 = output_dir_created_once[where w = ?w and env = demo_env
        and model = "''gemini-2.5-flash-image''" and face = "''FACE''" and filename = "''winter.txt''",
        unfolded demo_dir]
  note t2 = output_dir_created_once[where w = demo_world and env = failing_env
        and model = "''gemini-2.5-flash-image''" and face = "''FACE''" and filename = "''winter.txt''",
        unfolded failing_dir]
  note t3 = output_dir_created_once[where w = blocked_world and env = demo_env
        and model = "''gemini-2.5-flash-image''" and face = "''FACE''" and filename = "''winter.txt''",
        unfolded demo_dir]
  note t4 = output_dir_created_once[where w = rerun_world and env = demo_env
        and model = "''gemini-2.5-flash-image''" and face = "''FACE''" and filename = "''winter.txt''",
        unfolded demo_dir]
  have 1: "\<exists>evs. new_events ?w (snd (process_prompt demo_env ''gemini-2.5-flash-image'' ''FACE''
            ''winter.txt'' ?w)) = MakeDirs ?d # evs \<and> made evs = []"
    using t1 by blast
  have 2: "?d = OUTPUT_BASE @ ''/'' @ fst (splitext ''winter.txt'') @ ''/run_''
          @ str_int (time_now demo_env (trace ?w))"
    using t1 a by blast
  have 3: "map_of (fs (snd (makedirs ?d ?w))) ?d = Some Dir" using t1 b by blast
  have 4: "map_of (fs (snd (process_prompt demo_env ''gemini-2.5-flash-image'' ''FACE''
            ''winter.txt'' ?w))) ?d = Some Dir" using t1 c by blast
  have 5: "map_of (fs (snd (process_prompt failing_env ''gemini-2.5-flash-image'' ''FACE''
            ''winter.txt'' demo_world))) ?d = Some Dir" using t2 c' by blast
  have 6: "process_prompt demo_env ''gemini-2.5-flash-image'' ''FACE'' ''winter.txt'' blocked_world =
        (Some NotADirectoryError, emit (MakeDirs ?d) blocked_world)"
    using t3 d by simp
  have 7: "makedirs ?d rerun_world = (None, emit (MakeDirs ?d) rerun_world)"
    using t4 e by blast
  show ?thesis using 1 2 3 4 5 6 f 7 by blast
qed

section \<open>Properties of a successful run\<close>

lemma digit_inj:
  assumes "a < 10" and "b < 10" and "(char_of (48 + a :: nat) :: char) = char_of (48 + b)"
  shows "a = b"
proof -
  from assms(3) have "(of_char (char_of (48 + a) :: char) :: nat) = of_char (char_of (48 + b) :: char)"
    by simp
  then have "(48 + a) mod 256 = (48 + b) mod 256" by (simp only: of_char_of)
  with assms(1,2) show ?thesis by simp
qed

lemma str_nat_length:
  "n < 10 \<Longrightarrow> length (str_nat n) = 1"
  "\<not> n < 10 \<Longrightarrow> 2 \<le> length (str_nat n)"
proof -
  show "n < 10 \<Longrightarrow> length (str_nat n) = 1" by (simp add: str_nat.simps[of n])
  assume "\<not> n < 10"
  moreover have "str_nat (n div 10) \<noteq> []" using str_nat_last by blast
  then have "1 \<le> length (str_nat (n div 10))" by (cases "str_nat (n div 10)") simp_all
  ultimately show "2 \<le> length (str_nat n)" by (simp add: str_nat.simps[of n])
qed

lemma str_nat_inj: "str_nat m = str_nat n \<Longrightarrow> m = n"
proof (induction m arbitrary: n rule: str_nat.induct)
  case (1 m)
  show ?case
  proof (cases "m < 10")
    case True
    then have lm: "str_nat m = [char_of (48 + m)]" by (simp add: str_nat.simps[of m])
    have n: "n < 10"
    proof (rule ccontr)
      assume "\<not> n < 10"
      then have "2 \<le> length (str_nat n)" by (rule str_nat_length(2))
      moreover from "1.prems" lm have "str_nat n = [char_of (48 + m)]" by simp
      then have "length (str_nat n) = 1" by simp
      ultimately show False by simp
    qed
    then have "str_nat n = [char_of (48 + n)]" by (simp add: str_nat.simps[of n])
    with lm "1.prems" have "(char_of (48 + m) :: char) = char_of (48 + n)" by simp
    with True n show ?thesis by (rule digit_inj)
  next
    case False
    then have lm: "str_nat m = str_nat (m div 10) @ [char_of (48 + m mod 10)]"
      by (simp add: str_nat.simps[of m])
    have n: "\<not> n < 10"
    proof
      assume "n < 10"
      then have "length (str_nat n) = 1" by (rule str_nat_length(1))
      moreover from False have "2 \<le> length (str_nat m)" by (rule str_nat_length(2))
      ultimately show False using "1.prems" by simp
    qed
    then have ln: "str_nat n = str_nat (n div 10) @ [char_of (48 + n mod 10)]"
      by (simp add: str_nat.simps[of n])
    from "1.prems" lm ln have eq: "str_nat (m div 10) = str_nat (n div 10)"
      and d: "(char_of (48 + m mod 10) :: char) = char_of (48 + n mod 10)" by simp_all
    from "1.IH"[OF False eq] have "m div 10 = n div 10" .
    moreover have "m mod 10 = n mod 10" using d by (intro digit_inj) simp_all
    ultimately show ?thesis by (metis div_mult_mod_eq)
  qed
qed

lemma expected_files_distinct: "distinct (expected_files dir n)"
proof -
  have "inj_on (\<lambda>k. dir @ ''/pose_'' @ str_nat k @ ''.png'') (set [1..<Suc n])"
    by (rule inj_onI) (simp add: str_nat_inj)
  then have "distinct (map (\<lambda>k. dir @ ''/pose_'' @ str_nat k @ ''.png'') [1..<Suc n])"
    by (simp add: distinct_map)
  then show ?thesis by (auto simp: expected_files_def)
qed

lemma yields_imageD:
  assumes "yields_image env path res"
  shows "\<exists>resp b. res = Inr resp \<and> fst (save_image env resp path w) = Inr (Some b) \<and> b \<noteq> []"
proof -
  from assms obtain resp b where "res = Inr resp"
    "fst (save_image env resp path \<lparr>fs = [], stdin = [], trace = []\<rparr>) = Inr (Some b)" "b \<noteq> []"
    by (auto simp: yields_image_def split: sum.splits option.splits)
  then show ?thesis
    using save_image_fst[of env resp path w "\<lparr>fs = [], stdin = [], trace = []\<rparr>"] by simp
qed

lemma path_join_file:
  assumes "dir \<noteq> []" and "last dir \<noteq> CHR ''/''" and "name \<noteq> []" and "hd name \<noteq> CHR ''/''"
  shows "path_join dir [name] = dir @ ''/'' @ name"
  using join2_plain[OF assms(3,4,1,2)] by (simp add: path_join_def)

lemma generate_master_success:
  assumes "generate_content env (trace w) (master_request model face text) = Inr resp"
    and "fst (save_image env resp mp w) = Inr (Some b)" and "b \<noteq> []"
  shows "\<exists>enc. generate_master env model face text mp w =
           (Some b, w\<lparr>fs := AList.update mp (File enc) (fs w),
                      trace := trace w @ [Call (master_request model face text) (Inr resp),
                                          Wrote mp enc, Print (Saved mp)]\<rparr>)"
proof -
  let ?w1 = "emit (Call (master_request model face text) (Inr resp)) w"
  have f: "fst (save_image env resp mp ?w1) = Inr (Some b)"
    using assms(2) save_image_fst[of env resp mp ?w1 w] by simp
  from save_image_written[OF f] obtain enc where
    "snd (save_image env resp mp ?w1) = emit (Print (Saved mp)) (write_file mp enc ?w1)" by blast
  with f have "save_image env resp mp ?w1 =
      (Inr (Some b), emit (Print (Saved mp)) (write_file mp enc ?w1))"
    by (simp add: prod_eq_iff)
  then have "generate_master env model face text mp w =
           (Some b, w\<lparr>fs := AList.update mp (File enc) (fs w),
                      trace := trace w @ [Call (master_request model face text) (Inr resp),
                                          Wrote mp enc, Print (Saved mp)]\<rparr>)"
    using assms(1,3)
    by (cases b) (simp_all add: generate_master_def Let_def emit_def write_file_def truthy_def)
  then show ?thesis by blast
qed

lemma str_nat_no_slash: "CHR ''/'' \<notin> set (str_nat n)"
proof (induction n rule: str_nat.induct)
  case (1 n)
  show ?case
  proof (cases "n < 10")
    case True
    then show ?thesis using digit_not_slash[of n] by (auto simp: str_nat.simps[of n])
  next
    case False
    then show ?thesis using 1 digit_not_slash[of "n mod 10"] by (auto simp: str_nat.simps[of n])
  qed
qed

lemma entry_name_join:
  "n \<noteq> [] \<Longrightarrow> CHR ''/'' \<notin> set n \<Longrightarrow> entry_name d (d @ ''/'' @ n) = Some n"
  by (simp add: entry_name_def)

lemma expected_files_entries:
  "map (entry_name dir) (expected_files dir n) =
     Some ''00_MASTER_CONCEPT.png'' # map (\<lambda>k. Some (''pose_'' @ str_nat k @ ''.png'')) [1..<Suc n]"
proof -
  have "entry_name dir (dir @ ''/'' @ ''00_MASTER_CONCEPT.png'') = Some ''00_MASTER_CONCEPT.png''"
    by (rule entry_name_join) simp_all
  moreover have "entry_name dir (dir @ ''/'' @ (''pose_'' @ str_nat k @ ''.png'')) =
      Some (''pose_'' @ str_nat k @ ''.png'')" for k
    by (rule entry_name_join) (simp_all add: str_nat_no_slash)
  ultimately show ?thesis by (simp add: expected_files_def)
qed

lemma written_mem: "p \<in> set (written evs) \<Longrightarrow> \<exists>enc. Wrote p enc \<in> set evs"
  by (induction evs rule: written.induct) auto

text \<open>
  The pose loop when every call of the loop yields an image for the file of its pose:
  the files written, and the request that each file answers.
\<close>

lemma pose_loop_success:
  assumes "dir \<noteq> []" and "last dir \<noteq> CHR ''/''"
    and "list_all (\<lambda>(path, c). yields_image env path (snd c))
           (zip (map (\<lambda>k. dir @ ''/pose_'' @ str_nat k @ ''.png'') [Suc i..<Suc (i + length poses)])
                (calls (new_events w (pose_loop env model mb dir i poses w))))"
  shows "written (new_events w (pose_loop env model mb dir i poses w)) =
           map (\<lambda>k. dir @ ''/pose_'' @ str_nat k @ ''.png'') [Suc i..<Suc (i + length poses)]
       \<and> saved_as (new_events w (pose_loop env model mb dir i poses w)) =
           zip (map (pose_request model mb) poses)
               (map (\<lambda>k. dir @ ''/pose_'' @ str_nat k @ ''.png'') [Suc i..<Suc (i + length poses)])"
  using assms(3)
proof (induction poses arbitrary: i w)
  case Nil
  show ?case by (simp add: new_events_def)
next
  case (Cons pose rest)
  let ?p = "path_join dir [''pose_'' @ str_nat (i + 1) @ ''.png'']"
  let ?f = "\<lambda>k. dir @ ''/pose_'' @ str_nat k @ ''.png''"
  let ?w1 = "pose_body env model mb dir i pose w"
  let ?req = "pose_request model mb pose"
  let ?gc = "generate_content env (trace w @ [Print (PoseHeader (i + 1) (length (POSES env)) pose)]) ?req"
  have p: "?p = ?f (Suc i)"
    using path_join_file[OF assms(1,2), of "''pose_'' @ str_nat (i + 1) @ ''.png''"] by simp
  have up: "[Suc i..<Suc (i + length (pose # rest))] = Suc i # [Suc (Suc i)..<Suc (Suc i + length rest)]"
    by (subst upt_conv_Cons) simp_all
  obtain e1 where e1: "trace ?w1 = trace w @ e1" "calls e1 = [(?req, ?gc)]"
    using pose_body_effects[of env model mb dir i pose w] by blast
  obtain e2 where e2: "trace (pose_loop env model mb dir (Suc i) rest ?w1) = trace ?w1 @ e2"
    using pose_loop_grows[of env model mb dir "Suc i" rest ?w1] by blast
  have "trace (pose_loop env model mb dir i (pose # rest) w) = trace w @ (e1 @ e2)"
    using e1(1) e2 by simp
  then have ne: "new_events w (pose_loop env model mb dir i (pose # rest) w) = e1 @ e2"
    by (rule new_events_append)
  have ne2: "new_events ?w1 (pose_loop env model mb dir (Suc i) rest ?w1) = e2"
    using e2 by (rule new_events_append)
  have c: "calls (e1 @ e2) = (?req, ?gc) # calls e2" using e1(2) by (simp add: calls_append)
  have H: "list_all (\<lambda>(path, c). yields_image env path (snd c))
             (zip (?f (Suc i) # map ?f [Suc (Suc i)..<Suc (Suc i + length rest)]) ((?req, ?gc) # calls e2))"
    using Cons.prems unfolding ne c up by simp
  have y: "yields_image env (?f (Suc i)) ?gc" using H by simp
  have H2: "list_all (\<lambda>(path, c). yields_image env path (snd c))
             (zip (map ?f [Suc (Suc i)..<Suc (Suc i + length rest)])
                  (calls (new_events ?w1 (pose_loop env model mb dir (Suc i) rest ?w1))))"
    using H unfolding ne2 by simp
  have ih: "written e2 = map ?f [Suc (Suc i)..<Suc (Suc i + length rest)]
       \<and> saved_as e2 = zip (map (pose_request model mb) rest)
                            (map ?f [Suc (Suc i)..<Suc (Suc i + length rest)])"
    using Cons.IH[OF H2] unfolding ne2 .
  from yields_imageD[OF y, of w] obtain resp b where
    g: "?gc = Inr resp" and s: "fst (save_image env resp ?p w) = Inr (Some b)"
    unfolding p by blast
  from pose_body_saved[OF g s] obtain enc where
    "trace ?w1 = trace w @ [Print (PoseHeader (i + 1) (length (POSES env)) pose),
                            Call ?req (Inr resp), Wrote ?p enc, Print (Saved ?p), Sleep 2]"
    by force
  then have e1v: "e1 = [Print (PoseHeader (i + 1) (length (POSES env)) pose),
                        Call ?req (Inr resp), Wrote ?p enc, Print (Saved ?p), Sleep 2]"
    using e1(1) by simp
  have "written (e1 @ e2) = ?f (Suc i) # written e2"
    unfolding e1v using p by (simp add: written_append)
  moreover have "saved_as (e1 @ e2) = (?req, ?f (Suc i)) # saved_as e2"
    unfolding e1v using p by simp
  ultimately show ?case unfolding ne up using ih by simp
qed

lemma generate_master_calls:
  "\<exists>em. trace (snd (generate_master env model face text mp w)) =
          trace w @ Call (master_request model face text)
                      (generate_content env (trace w) (master_request model face text)) # em
        \<and> calls em = []"
proof -
  let ?req = "master_request model face text"
  let ?res = "generate_content env (trace w) ?req"
  let ?w1 = "emit (Call ?req ?res) w"
  show ?thesis
  proof (cases ?res)
    case (Inl e)
    then show ?thesis
      by (intro exI[of _ "[Print (ConceptError e)]"]) (simp add: generate_master_def Let_def emit_def)
  next
    case (Inr resp)
    obtain r w2 where s: "save_image env resp mp ?w1 = (r, w2)"
      by (cases "save_image env resp mp ?w1")
    obtain es where es: "trace w2 = trace ?w1 @ es" "calls es = []"
      using save_image_effects[of env resp mp ?w1] s by auto
    have t1: "trace ?w1 = trace w @ [Call ?req ?res]" by (simp add: emit_def)
    have "snd (generate_master env model face text mp w) = w2
        \<or> (\<exists>m. snd (generate_master env model face text mp w) = emit (Print m) w2)"
      using Inr s by (auto simp: generate_master_def Let_def split: sum.splits)
    then show ?thesis
    proof
      assume "snd (generate_master env model face text mp w) = w2"
      then show ?thesis using es t1 by (intro exI[of _ es]) simp
    next
      assume "\<exists>m. snd (generate_master env model face text mp w) = emit (Print m) w2"
      then obtain m where "snd (generate_master env model face text mp w) = emit (Print m) w2"
        by blast
      then show ?thesis using es t1
        by (intro exI[of _ "es @ [Print m]"]) (simp add: emit_def calls_append)
    qed
  qed
qed

lemma picky_env_simps:
  "POSES picky_env = [''standing'', ''sitting'']"
  "generate_content picky_env h req =
     (if length h < 30 then Inr (image_response ''JPEG:abc'')
      else Inl (LibraryError ''429 RESOURCE_EXHAUSTED''))"
  "time_now picky_env h = 1700000000"
  "Image_open picky_env = demo_open" "Image_save picky_env = demo_save"
  "decode_text picky_env = Inr"
  by (simp_all add: picky_env_def demo_env_def)

lemma picky_dir: "current_output_dir picky_env ''winter.txt'' w = ''output folder/winter/run_1700000000''"
  by (simp add: current_output_dir_def splitext_demo str_int_demo picky_env_simps path_join_def
      join2_def OUTPUT_BASE_def)

lemma picky_prompt_run:
  "process_prompt picky_env ''gemini-2.5-flash-image'' ''FACE'' ''winter.txt''
     (demo_world\<lparr>stdin := [''y'']\<rparr>) =
   (None,
    \<lparr>fs = [(''reference image face'', File ''FACE''),
            (''prompts'', Dir),
            (''prompts/winter.txt'', File ''A red coat in snow.''),
            (''prompts/shots.txt'', Dir),
            (''output folder'', Dir),
            (''output folder/winter'', Dir),
            (''output folder/winter/run_1700000000'', Dir),
            (''output folder/winter/run_1700000000/00_MASTER_CONCEPT.png'', File ''PNG:abc''),
            (''output folder/winter/run_1700000000/pose_1.png'', File ''PNG:abc''),
            (''output folder/winter/run_1700000000/pose_2.png'', File ''PNG:abc'')],
      stdin = [],
      trace =
        [MakeDirs ''output folder/winter/run_1700000000'',
         Print Separator,
         Print (Processing ''winter.txt''),
         Print (PromptPreview ''A red coat in snow.''),
         Print (SavingTo ''winter'' 1700000000),
         Print (GeneratingConcept ''gemini-2.5-flash-image''),
         Call (master_request ''gemini-2.5-flash-image'' ''FACE'' (master_prompt ''A red coat in snow.''))
           (Inr (image_response ''JPEG:abc'')),
         Wrote ''output folder/winter/run_1700000000/00_MASTER_CONCEPT.png'' ''PNG:abc'',
         Print (Saved ''output folder/winter/run_1700000000/00_MASTER_CONCEPT.png''),
         Print (CheckImage ''output folder/winter/run_1700000000/00_MASTER_CONCEPT.png''),
         Input (AskPoses ''winter'') ''y'',
         Print (GeneratingPoses 2 ''gemini-2.5-flash-image''),
         Print (PoseHeader 1 2 ''standing''),
         Call (pose_request ''gemini-2.5-flash-image'' ''JPEG:abc'' ''standing'')
           (Inr (image_response ''JPEG:abc'')),
         Wrote ''output folder/winter/run_1700000000/pose_1.png'' ''PNG:abc'',
         Print (Saved ''output folder/winter/run_1700000000/pose_1.png''),
         Sleep 2,
         Print (PoseHeader 2 2 ''sitting''),
         Call (pose_request ''gemini-2.5-flash-image'' ''JPEG:abc'' ''sitting'')
           (Inr (image_response ''JPEG:abc'')),
         Wrote ''output folder/winter/run_1700000000/pose_2.png'' ''PNG:abc'',
         Print (Saved ''output folder/winter/run_1700000000/pose_2.png''),
         Sleep 2,
         Print (AllPosesFinished ''winter'')]\<rparr>)"
  by (simp add: process_prompt_def picky_dir splitext_demo ancestors_demo makedirs_def read_file_def
      demo_world_def Let_def emit_def PROMPTS_FOLDER_def path_join_def join2_def
      generate_master_def ask_and_pose_def py_input_def pose_body_def save_image_def truthy_def
      write_file_def picky_env_simps image_response_def demo_open_def demo_save_def endswith_def
      py_strip_def py_isspace_def py_lower_def py_lower_char_def str_nat_small)

text \<open>
  C9.  Take a run of one prompt in which the directory can be created, the prompt file is
  read and decoded, the operator answers \<open>y\<close>, and every call the run makes yields an
  image for the file it is saved to: the first call for the master file, the next ones
  for \<open>pose_1.png\<close>, \<open>pose_2.png\<close> and so on.  Then the run does not raise; it
  writes exactly the master file and \<open>pose_1.png\<close> to \<open>pose_N.png\<close> of its directory,
  in this order, for the \<open>N\<close> pose labels; the master request is answered by the master
  file and the request for the \<open>k\<close>-th pose label by \<open>pose_k.png\<close>; at the end of the
  run each of these files is in the file system with the bytes written to it, every other
  path is as the creation of the directory left it, and the directory is there; the files
  are entries of the directory with the names \<open>00_MASTER_CONCEPT.png\<close> and
  \<open>pose_k.png\<close>, all different, \<open>N + 1\<close> of them.
\<close>

theorem successful_run_files:
  assumes "fst (makedirs (current_output_dir env filename w) w) = None"
    and "read_file w (path_join PROMPTS_FOLDER [filename]) = Inr raw"
    and "decode_text env raw = Inr content_text"
    and "stdin w = line # rest" and "py_lower (py_strip line) = ''y''"
    and "list_all (\<lambda>(path, c). yields_image env path (snd c))
           (zip (expected_files (current_output_dir env filename w) (length (POSES env)))
                (calls (new_events w (snd (process_prompt env model face filename w)))))"
  shows "fst (process_prompt env model face filename w) = None
     \<and> written (new_events w (snd (process_prompt env model face filename w))) =
         expected_files (current_output_dir env filename w) (length (POSES env))
     \<and> (\<exists>b. saved_as (new_events w (snd (process_prompt env model face filename w))) =
           zip (master_request model face (master_prompt (py_strip content_text))
                  # map (pose_request model b) (POSES env))
               (expected_files (current_output_dir env filename w) (length (POSES env))))
     \<and> (\<forall>p\<in>set (expected_files (current_output_dir env filename w) (length (POSES env))).
           \<exists>enc. Wrote p enc \<in> set (new_events w (snd (process_prompt env model face filename w)))
               \<and> map_of (fs (snd (process_prompt env model face filename w))) p = Some (File enc))
     \<and> (\<forall>p. p \<notin> set (expected_files (current_output_dir env filename w) (length (POSES env))) \<longrightarrow>
           map_of (fs (snd (process_prompt env model face filename w))) p =
           map_of (fs (snd (makedirs (current_output_dir env filename w) w))) p)
     \<and> map_of (fs (snd (process_prompt env model face filename w)))
         (current_output_dir env filename w) = Some Dir
     \<and> map (entry_name (current_output_dir env filename w))
           (expected_files (current_output_dir env filename w) (length (POSES env))) =
         Some ''00_MASTER_CONCEPT.png''
           # map (\<lambda>k. Some (''pose_'' @ str_nat k @ ''.png'')) [1..<Suc (length (POSES env))]
     \<and> distinct (expected_files (current_output_dir env filename w) (length (POSES env)))
     \<and> length (expected_files (current_output_dir env filename w) (length (POSES env))) =
         length (POSES env) + 1"
proof -
  let ?dir = "current_output_dir env filename w"
  let ?cn = "fst (splitext filename)"
  let ?N = "length (POSES env)"
  let ?f = "\<lambda>k. ?dir @ ''/pose_'' @ str_nat k @ ''.png''"
  let ?mp = "path_join ?dir [''00_MASTER_CONCEPT.png'']"
  let ?P = "\<lambda>(path, c). yields_image env path (snd c)"
  let ?pp = "process_prompt env model face filename w"
  let ?E = "new_events w (snd ?pp)"
  have dir: "?dir \<noteq> []" "last ?dir \<noteq> CHR ''/''"
    using current_output_dir_last[of env filename w] by simp_all
  have mp: "?mp = ?dir @ ''/00_MASTER_CONCEPT.png''"
    using path_join_file[OF dir, of "''00_MASTER_CONCEPT.png''"] by simp
  have ef: "expected_files ?dir ?N = ?mp # map ?f [Suc 0..<Suc (0 + ?N)]"
    by (simp add: expected_files_def mp)
  obtain w1 where m: "makedirs ?dir w = (None, w1)"
    using assms(1) by (cases "makedirs ?dir w") simp
  have t1: "trace w1 = trace w @ [MakeDirs ?dir]" and s1: "stdin w1 = line # rest"
    using makedirs_trace[of ?dir w] m assms(4) by simp_all
  have "map_of (fs w) (path_join PROMPTS_FOLDER [filename]) = Some (File raw)"
    using assms(2) by (auto simp: read_file_def split: option.splits node.splits)
  then have "map_of (fs w1) (path_join PROMPTS_FOLDER [filename]) = Some (File raw)"
    using makedirs_keeps[of w _ _ ?dir] m by simp
  then have rd: "read_file w1 (path_join PROMPTS_FOLDER [filename]) = Inr raw"
    by (simp add: read_file_def)
  let ?pre = "[Print Separator, Print (Processing filename),
               Print (PromptPreview (take 60 (py_strip content_text))),
               Print (SavingTo ?cn (time_now env (trace w))),
               Print (GeneratingConcept model)]"
  let ?w2 = "emit (Print (GeneratingConcept model))
              (emit (Print (SavingTo ?cn (time_now env (trace w))))
                (emit (Print (PromptPreview (take 60 (py_strip content_text))))
                  (emit (Print (Processing filename)) (emit (Print Separator) w1))))"
  let ?text = "master_prompt (py_strip content_text)"
  let ?mreq = "master_request model face ?text"
  let ?gm = "generate_master env model face ?text ?mp ?w2"
  let ?gc = "generate_content env (trace ?w2) ?mreq"
  have t2: "trace ?w2 = trace w @ MakeDirs ?dir # ?pre" and s2: "stdin ?w2 = line # rest"
    using t1 s1 by (simp_all add: emit_def)
  have pp: "?pp = (case ?gm of (None, w3) \<Rightarrow> (None, w3)
       | (Some b, w3) \<Rightarrow> ask_and_pose env model ?cn ?dir ?mp b w3)"
    using m rd assms(3) by (simp add: process_prompt_def Let_def)
  obtain em where em: "trace (snd ?gm) = trace ?w2 @ Call ?mreq ?gc # em"
    using generate_master_calls[of env model face ?text ?mp ?w2] by blast
  have "\<exists>tl. trace (snd ?pp) = trace (snd ?gm) @ tl"
  proof (cases "fst ?gm")
    case None
    then have "snd ?pp = snd ?gm" using pp by (simp add: case_prod_beta)
    then show ?thesis by simp
  next
    case (Some b)
    then have "?pp = ask_and_pose env model ?cn ?dir ?mp b (snd ?gm)"
      using pp by (simp add: case_prod_beta)
    then show ?thesis
      using ask_and_pose_effects[of env model ?cn ?dir ?mp b "snd ?gm"] by auto
  qed
  then obtain tl where "trace (snd ?pp) = trace (snd ?gm) @ tl" by blast
  then have "trace (snd ?pp) = trace w @ ((MakeDirs ?dir # ?pre) @ Call ?mreq ?gc # (em @ tl))"
    using em t2 by simp
  then have "?E = (MakeDirs ?dir # ?pre) @ Call ?mreq ?gc # (em @ tl)"
    by (rule new_events_append)
  then have "calls ?E = (?mreq, ?gc) # calls (em @ tl)"
    by (simp add: calls_append)
  with assms(6) have "yields_image env ?mp ?gc" unfolding ef by simp
  from yields_imageD[OF this, of ?w2] obtain resp b where
    g: "?gc = Inr resp"
    and sv: "fst (save_image env resp ?mp ?w2) = Inr (Some b)" and b: "b \<noteq> []" by blast
  from generate_master_success[OF g sv b] obtain enc where
    gm: "?gm = (Some b, ?w2\<lparr>fs := AList.update ?mp (File enc) (fs ?w2),
                      trace := trace ?w2 @ [Call ?mreq (Inr resp), Wrote ?mp enc, Print (Saved ?mp)]\<rparr>)"
    by blast
  let ?w3 = "?w2\<lparr>fs := AList.update ?mp (File enc) (fs ?w2),
                trace := trace ?w2 @ [Call ?mreq (Inr resp), Wrote ?mp enc, Print (Saved ?mp)]\<rparr>"
  let ?w4 = "emit (Print (GeneratingPoses ?N model))
              (emit (Input (AskPoses ?cn) line) ((emit (Print (CheckImage ?mp)) ?w3)\<lparr>stdin := rest\<rparr>))"
  let ?pl = "pose_loop env model b ?dir 0 (POSES env) ?w4"
  have t4: "trace ?w4 = trace ?w3 @ [Print (CheckImage ?mp), Input (AskPoses ?cn) line,
                                     Print (GeneratingPoses ?N model)]"
    by (simp add: emit_def)
  have ap: "ask_and_pose env model ?cn ?dir ?mp b ?w3 =
      (None, emit (Print (AllPosesFinished ?cn)) ?pl)"
    using s2 assms(5) by (simp add: ask_and_pose_def py_input_def emit_simps)
  have res: "?pp = (None, emit (Print (AllPosesFinished ?cn)) ?pl)"
    using pp gm ap by simp
  obtain e where e: "trace ?pl = trace ?w4 @ e"
    using pose_loop_grows[of env model b ?dir 0 "POSES env" ?w4] by blast
  then have ne: "new_events ?w4 ?pl = e" by (rule new_events_append)
  let ?mid = "[Call ?mreq (Inr resp), Wrote ?mp enc, Print (Saved ?mp),
               Print (CheckImage ?mp), Input (AskPoses ?cn) line, Print (GeneratingPoses ?N model)]"
  have "trace (snd ?pp) = trace w @ ((MakeDirs ?dir # ?pre @ ?mid @ e) @ [Print (AllPosesFinished ?cn)])"
    unfolding res using e t4 t2 by (simp add: emit_def)
  then have E: "?E = (MakeDirs ?dir # ?pre @ ?mid @ e) @ [Print (AllPosesFinished ?cn)]"
    by (rule new_events_append)
  have cE: "calls ?E = (?mreq, Inr resp) # calls e"
    unfolding E by (simp add: calls_append)
  have "list_all ?P (zip (map ?f [Suc 0..<Suc (0 + ?N)]) (calls (new_events ?w4 ?pl)))"
    using assms(6) unfolding ef cE ne by simp
  from pose_loop_success[OF dir this]
  have pw: "written e = map ?f [Suc 0..<Suc (0 + ?N)]"
    and ps: "saved_as e = zip (map (pose_request model b) (POSES env)) (map ?f [Suc 0..<Suc (0 + ?N)])"
    unfolding ne by simp_all
  have wr: "written ?E = expected_files ?dir ?N"
    unfolding E ef using pw by (simp add: written_append)
  have "saved_as ?E = saved_as (MakeDirs ?dir # ?pre @ ?mid @ e)"
    unfolding E by (rule saved_as_print_end)
  also have "\<dots> = (?mreq, ?mp) # saved_as e" by simp
  finally have sa: "saved_as ?E = zip (?mreq # map (pose_request model b) (POSES env))
                                     (expected_files ?dir ?N)"
    unfolding ef using ps by simp
  obtain evs where evs: "trace (snd ?pp) = trace w @ MakeDirs ?dir # evs"
    "fs (snd ?pp) = apply_writes evs (fs (snd (makedirs ?dir w)))"
    using process_prompt_effects[of env model face filename w] by blast
  have "?E = MakeDirs ?dir # evs" using evs(1) by (rule new_events_append)
  then have fE: "fs (snd ?pp) = apply_writes ?E (fs (snd (makedirs ?dir w)))"
    using evs(2) by simp
  have dE: "distinct (written ?E)" unfolding wr by (rule expected_files_distinct)
  have files: "\<forall>p\<in>set (expected_files ?dir ?N).
      \<exists>enc. Wrote p enc \<in> set ?E \<and> map_of (fs (snd ?pp)) p = Some (File enc)"
  proof
    fix p assume "p \<in> set (expected_files ?dir ?N)"
    then have "p \<in> set (written ?E)" unfolding wr .
    then obtain c where c: "Wrote p c \<in> set ?E" using written_mem by blast
    have "map_of (apply_writes ?E (fs (snd (makedirs ?dir w)))) p = Some (File c)"
      using dE c by (rule apply_writes_last)
    with c show "\<exists>enc. Wrote p enc \<in> set ?E \<and> map_of (fs (snd ?pp)) p = Some (File enc)"
      unfolding fE by blast
  qed
  have others: "\<forall>p. p \<notin> set (expected_files ?dir ?N) \<longrightarrow>
      map_of (fs (snd ?pp)) p = map_of (fs (snd (makedirs ?dir w))) p"
  proof (intro allI impI)
    fix p assume "p \<notin> set (expected_files ?dir ?N)"
    then have "p \<notin> set (written ?E)" unfolding wr .
    then show "map_of (fs (snd ?pp)) p = map_of (fs (snd (makedirs ?dir w))) p"
      unfolding fE by (rule apply_writes_other)
  qed
  have d: "map_of (fs (snd ?pp)) ?dir = Some Dir"
    using assms(1) by (rule process_prompt_dir)
  have n: "fst ?pp = None" using res by simp
  have len: "length (expected_files ?dir ?N) = ?N + 1"
    unfolding expected_files_def by (simp only: length_Cons length_map length_upt)
  have "\<exists>b. saved_as ?E = zip (?mreq # map (pose_request model b) (POSES env)) (expected_files ?dir ?N)"
    using sa by blast
  then show ?thesis
    using n wr files others d expected_files_entries[of ?dir ?N] expected_files_distinct[of ?dir ?N] len
    by blast
qed

text \<open>
  The theorem at the example run, with a service that answers the calls of this run and
  fails on any longer history.
\<close>

theorem successful_run_files_witness:
  "fst (process_prompt picky_env ''gemini-2.5-flash-image'' ''FACE'' ''winter.txt''
          (demo_world\<lparr>stdin := [''y'']\<rparr>)) = None
   \<and> written (new_events (demo_world\<lparr>stdin := [''y'']\<rparr>)
        (snd (process_prompt picky_env ''gemini-2.5-flash-image'' ''FACE'' ''winter.txt''
               (demo_world\<lparr>stdin := [''y'']\<rparr>)))) =
       [''output folder/winter/run_1700000000/00_MASTER_CONCEPT.png'',
        ''output folder/winter/run_1700000000/pose_1.png'',
        ''output folder/winter/run_1700000000/pose_2.png'']
   \<and> (\<exists>b. saved_as (new_events (demo_world\<lparr>stdin := [''y'']\<rparr>)
        (snd (process_prompt picky_env ''gemini-2.5-flash-image'' ''FACE'' ''winter.txt''
               (demo_world\<lparr>stdin := [''y'']\<rparr>)))) =
       [(master_request ''gemini-2.5-flash-image'' ''FACE'' (master_prompt ''A red coat in snow.''),
         ''output folder/winter/run_1700000000/00_MASTER_CONCEPT.png''),
        (pose_request ''gemini-2.5-flash-image'' b ''standing'',
         ''output folder/winter/run_1700000000/pose_1.png''),
        (pose_request ''gemini-2.5-flash-image'' b ''sitting'',
         ''output folder/winter/run_1700000000/pose_2.png'')])
   \<and> (\<exists>enc. map_of (fs (snd (process_prompt picky_env ''gemini-2.5-flash-image'' ''FACE''
                 ''winter.txt'' (demo_world\<lparr>stdin := [''y'']\<rparr>))))
          ''output folder/winter/run_1700000000/00_MASTER_CONCEPT.png'' = Some (File enc))
   \<and> (\<exists>enc. map_of (fs (snd (process_prompt picky_env ''gemini-2.5-flash-image'' ''FACE''
                 ''winter.txt'' (demo_world\<lparr>stdin := [''y'']\<rparr>))))
          ''output folder/winter/run_1700000000/pose_1.png'' = Some (File enc))
   \<and> (\<exists>enc. map_of (fs (snd (process_prompt picky_env ''gemini-2.5-flash-image'' ''FACE''
                 ''winter.txt'' (demo_world\<lparr>stdin := [''y'']\<rparr>))))
          ''output folder/winter/run_1700000000/pose_2.png'' = Some (File enc))
   \<and> map_of (fs (snd (process_prompt picky_env ''gemini-2.5-flash-image'' ''FACE''
                 ''winter.txt'' (demo_world\<lparr>stdin := [''y'']\<rparr>))))
          ''prompts/winter.txt'' = Some (File ''A red coat in snow.'')
   \<and> map_of (fs (snd (process_prompt picky_env ''gemini-2.5-flash-image'' ''FACE''
                 ''winter.txt'' (demo_world\<lparr>stdin := [''y'']\<rparr>))))
          ''output folder/winter/run_1700000000'' = Some Dir
   \<and> generate_content picky_env (replicate 30 (Sleep 2))
        (pose_request ''gemini-2.5-flash-image'' ''JPEG:abc'' ''standing'') =
      Inl (LibraryError ''429 RESOURCE_EXHAUSTED'')"
proof -
  let ?W = "demo_world\<lparr>stdin := [''y'']\<rparr>"
  let ?pp = "process_prompt picky_env ''gemini-2.5-flash-image'' ''FACE'' ''winter.txt'' ?W"
  let ?d = "''output folder/winter/run_1700000000''"
  have ef: "expected_files ?d (length (POSES picky_env)) =
       [''output folder/winter/run_1700000000/00_MASTER_CONCEPT.png'',
        ''output folder/winter/run_1700000000/pose_1.png'',
        ''output folder/winter/run_1700000000/pose_2.png'']"
    by (simp add: expected_files_def picky_env_simps str_nat_small upt_rec)
  have 1: "fst (makedirs (current_output_dir picky_env ''winter.txt'' ?W) ?W) = None"
    by (simp add: picky_dir makedirs_def ancestors_demo demo_world_def)
  have 2: "read_file ?W (path_join PROMPTS_FOLDER [''winter.txt'']) = Inr ''A red coat in snow.''"
    by (simp add: read_file_def PROMPTS_FOLDER_def path_join_def join2_def demo_world_def)
  have 3: "decode_text picky_env ''A red coat in snow.'' = Inr ''A red coat in snow.''"
    by (simp add: picky_env_simps)
  have 4: "stdin ?W = ''y'' # []" by simp
  have 5: "py_lower (py_strip ''y'') = ''y''"
    by (simp add: py_lower_def py_strip_def py_isspace_def py_lower_char_def)
  have 6: "list_all (\<lambda>(path, c). yields_image picky_env path (snd c))
           (zip (expected_files (current_output_dir picky_env ''winter.txt'' ?W) (length (POSES picky_env)))
                (calls (new_events ?W (snd ?pp))))"
    unfolding picky_dir ef
    by (simp add: picky_prompt_run new_events_def demo_world_trace yields_image_def picky_env_simps
        save_image_def truthy_def image_response_def demo_open_def demo_save_def endswith_def)
  have st: "py_strip ''A red coat in snow.'' = ''A red coat in snow.''"
    by (simp add: py_strip_def py_isspace_def)
  have mk: "map_of (fs (snd (makedirs ?d ?W))) ''prompts/winter.txt'' = Some (File ''A red coat in snow.'')"
    by (simp add: makedirs_def ancestors_demo demo_world_def emit_def)
  note t = successful_run_files[OF 1 2 3 4 5 6, unfolded picky_dir ef st]
  have a: "fst ?pp = None" using t by blast
  have b: "written (new_events ?W (snd ?pp)) =
       [''output folder/winter/run_1700000000/00_MASTER_CONCEPT.png'',
        ''output folder/winter/run_1700000000/pose_1.png'',
        ''output folder/winter/run_1700000000/pose_2.png'']" using t by blast
  have c: "\<exists>b. saved_as (new_events ?W (snd ?pp)) =
       [(master_request ''gemini-2.5-flash-image'' ''FACE'' (master_prompt ''A red coat in snow.''),
         ''output folder/winter/run_1700000000/00_MASTER_CONCEPT.png''),
        (pose_request ''gemini-2.5-flash-image'' b ''standing'',
         ''output folder/winter/run_1700000000/pose_1.png''),
        (pose_request ''gemini-2.5-flash-image'' b ''sitting'',
         ''output folder/winter/run_1700000000/pose_2.png'')]"
    using t by (simp add: picky_env_simps)
  have d: "\<forall>p\<in>set [''output folder/winter/run_1700000000/00_MASTER_CONCEPT.png'',
        ''output folder/winter/run_1700000000/pose_1.png'',
        ''output folder/winter/run_1700000000/pose_2.png''].
      \<exists>enc. map_of (fs (snd ?pp)) p = Some (File enc)" using t by blast
  have e: "map_of (fs (snd ?pp)) ''prompts/winter.txt'' = map_of (fs (snd (makedirs ?d ?W))) ''prompts/winter.txt''"
  proof -
    have "''prompts/winter.txt'' \<notin> set [''output folder/winter/run_1700000000/00_MASTER_CONCEPT.png'',
        ''output folder/winter/run_1700000000/pose_1.png'',
        ''output folder/winter/run_1700000000/pose_2.png'']" by simp
    with t show ?thesis by blast
  qed
  have f: "map_of (fs (snd ?pp)) ?d = Some Dir" using t by blast
  have g: "generate_content picky_env (replicate 30 (Sleep 2))
        (pose_request ''gemini-2.5-flash-image'' ''JPEG:abc'' ''standing'') =
      Inl (LibraryError ''429 RESOURCE_EXHAUSTED'')"
    by (simp add: picky_env_simps)
  show ?thesis using a b c d e mk f g by simp
qed

section \<open>Properties of the startup\<close>

lemma prompts_loop_grows:
  "\<exists>evs. trace (snd (prompts_loop env model face files w)) = trace w @ evs"
proof (induction files arbitrary: w)
  case Nil
  show ?case by simp
next
  case (Cons f files)
  obtain r w1 where p: "process_prompt env model face f w = (r, w1)"
    by (cases "process_prompt env model face f w")
  obtain e1 where e1: "trace w1 = trace w @ e1"
    using process_prompt_shape[of env model face f w] p by auto
  show ?case
  proof (cases r)
    case (Some e)
    with p e1 show ?thesis by simp
  next
    case None
    obtain e2 where "trace (snd (prompts_loop env model face files w1)) = trace w1 @ e2"
      using Cons.IH[of w1] by blast
    with p None e1 have "trace (snd (prompts_loop env model face (f # files) w)) = trace w @ (e1 @ e2)"
      by simp
    then show ?thesis by blast
  qed
qed

lemma session_grows:
  "\<exists>evs. trace (snd (session env face files w)) = trace w @ evs"
proof (cases "stdin w")
  case Nil
  then show ?thesis by (simp add: session_def py_input_def emit_def)
next
  case (Cons line rest)
  let ?w2 = "emit (Print (FoundPrompts (length files)))
              (emit (Print (UsingModel (select_model line)))
                (emit (Input AskModel line)
                  ((emit (Print MenuOption2) (emit (Print MenuOption1) (emit (Print MenuHeader) w)))
                     \<lparr>stdin := rest\<rparr>)))"
  have t2: "trace ?w2 = trace w @ [Print MenuHeader, Print MenuOption1, Print MenuOption2,
      Input AskModel line, Print (UsingModel (select_model line)), Print (FoundPrompts (length files))]"
    by (simp add: emit_def)
  obtain r w3 where l: "prompts_loop env (select_model line) face files ?w2 = (r, w3)"
    by (cases "prompts_loop env (select_model line) face files ?w2")
  obtain e where e: "trace w3 = trace ?w2 @ e"
    using prompts_loop_grows[of env "select_model line" face files ?w2] l by auto
  have s: "session env face files w =
      (case r of Some e \<Rightarrow> (Crashed e, w3) | None \<Rightarrow> (Completed, emit (Print SessionComplete) w3))"
    using Cons l by (simp add: session_def py_input_def Let_def emit_simps)
  show ?thesis
  proof (cases r)
    case None
    with s e t2 have "trace (snd (session env face files w)) =
        trace w @ ([Print MenuHeader, Print MenuOption1, Print MenuOption2,
      Input AskModel line, Print (UsingModel (select_model line)), Print (FoundPrompts (length files))]
        @ e @ [Print SessionComplete])"
      by (simp add: emit_def)
    then show ?thesis by blast
  next
    case (Some ex)
    with s e t2 have "trace (snd (session env face files w)) =
        trace w @ ([Print MenuHeader, Print MenuOption1, Print MenuOption2,
      Input AskModel line, Print (UsingModel (select_model line)), Print (FoundPrompts (length files))]
        @ e)"
      by simp
    then show ?thesis by blast
  qed
qed

lemma discover_trace: "trace (snd (discover w)) = trace w @ [ListDir PROMPTS_FOLDER]"
  by (simp add: discover_def listdir_def emit_def split: option.splits node.splits)

lemma main_starts:
  assumes "truthy (API_KEY env)"
  shows "new_events w (snd (main env w)) = [MakeDirs PROMPTS_FOLDER]
     \<or> (\<exists>evs. new_events w (snd (main env w)) = MakeDirs PROMPTS_FOLDER # MakeDirs OUTPUT_BASE # evs)"
proof -
  obtain r1 w1 where m1: "makedirs PROMPTS_FOLDER w = (r1, w1)" by (cases "makedirs PROMPTS_FOLDER w")
  obtain r2 w2 where m2: "makedirs OUTPUT_BASE w1 = (r2, w2)" by (cases "makedirs OUTPUT_BASE w1")
  have t1: "trace w1 = trace w @ [MakeDirs PROMPTS_FOLDER]"
    using makedirs_trace(1)[of PROMPTS_FOLDER w] m1 by simp
  have t2: "trace w2 = trace w @ [MakeDirs PROMPTS_FOLDER, MakeDirs OUTPUT_BASE]"
    using makedirs_trace(1)[of OUTPUT_BASE w1] m2 t1 by simp
  show ?thesis
  proof (cases r1)
    case (Some e)
    with assms m1 t1 show ?thesis by (simp add: main_def)
  next
    case None
    note r1 = this
    have "\<exists>evs. trace (snd (main env w)) = trace w2 @ evs"
    proof (cases r2)
      case (Some e)
      with assms m1 r1 m2 show ?thesis by (simp add: main_def)
    next
      case None
      note r2 = this
      show ?thesis
      proof (cases "path_exists w2 REF_FACE_PATH")
        case False
        with assms m1 r1 m2 r2 show ?thesis by (simp add: main_def emit_def)
      next
        case True
        note ex = this
        show ?thesis
        proof (cases "read_file w2 REF_FACE_PATH")
          case (Inl e)
          with assms m1 r1 m2 r2 ex show ?thesis by (simp add: main_def)
        next
          case (Inr face)
          obtain d w3 where d: "discover w2 = (d, w3)" by (cases "discover w2")
          have t3: "trace w3 = trace w2 @ [ListDir PROMPTS_FOLDER]"
            using discover_trace[of w2] d by simp
          have mn: "main env w = (case d of Inl e \<Rightarrow> (Crashed e, w3)
              | Inr files \<Rightarrow> if files = [] then (Exited, emit (Print (NoTxtFiles PROMPTS_FOLDER)) w3)
                              else session env face files w3)"
            using assms m1 r1 m2 r2 ex Inr d by (simp add: main_def)
          show ?thesis
          proof (cases d)
            case (Inl e)
            with mn t3 show ?thesis by simp
          next
            case (Inr files)
            show ?thesis
            proof (cases "files = []")
              case True
              with mn Inr t3 show ?thesis by (simp add: emit_def)
            next
              case False
              obtain e where "trace (snd (session env face files w3)) = trace w3 @ e"
                using session_grows[of env face files w3] by blast
              with mn Inr False t3 have "trace (snd (main env w)) = trace w2 @ (ListDir PROMPTS_FOLDER # e)"
                by simp
              then show ?thesis by blast
            qed
          qed
        qed
      qed
    qed
    then obtain evs where "trace (snd (main env w)) = trace w @ MakeDirs PROMPTS_FOLDER # MakeDirs OUTPUT_BASE # evs"
      using t2 by auto
    then show ?thesis by simp
  qed
qed

lemma ancestors_config:
  "ancestors PROMPTS_FOLDER = [PROMPTS_FOLDER]" "ancestors OUTPUT_BASE = [OUTPUT_BASE]"
  by (simp_all add: ancestors_def PROMPTS_FOLDER_def OUTPUT_BASE_def)

lemma discover_succeeds:
  assumes "map_of (fs w) PROMPTS_FOLDER = Some Dir"
  shows "\<exists>files. fst (discover w) = Inr files"
  using assms by (simp add: discover_def listdir_def)

lemma folders_after_makedirs:
  assumes "fst (makedirs PROMPTS_FOLDER w) = None"
    and "fst (makedirs OUTPUT_BASE (snd (makedirs PROMPTS_FOLDER w))) = None"
  shows "map_of (fs (snd (makedirs OUTPUT_BASE (snd (makedirs PROMPTS_FOLDER w))))) PROMPTS_FOLDER = Some Dir"
    and "map_of (fs (snd (makedirs OUTPUT_BASE (snd (makedirs PROMPTS_FOLDER w))))) OUTPUT_BASE = Some Dir"
proof -
  have "map_of (fs (snd (makedirs PROMPTS_FOLDER w))) PROMPTS_FOLDER = Some Dir"
    using assms(1) by (intro makedirs_creates) (simp_all add: PROMPTS_FOLDER_def)
  then show "map_of (fs (snd (makedirs OUTPUT_BASE (snd (makedirs PROMPTS_FOLDER w))))) PROMPTS_FOLDER = Some Dir"
    by (rule makedirs_keeps)
  show "map_of (fs (snd (makedirs OUTPUT_BASE (snd (makedirs PROMPTS_FOLDER w))))) OUTPUT_BASE = Some Dir"
    using assms(2) by (intro makedirs_creates) (simp_all add: OUTPUT_BASE_def)
qed

lemma entry_listed:
  assumes "map_of (fs w) PROMPTS_FOLDER = Some Dir"
    and "(PROMPTS_FOLDER @ ''/'' @ name, nd) \<in> set (fs w)"
    and "name \<noteq> []" and "CHR ''/'' \<notin> set name" and "endswith name ''.txt''"
  shows "\<exists>files. fst (discover w) = Inr files \<and> name \<in> set files"
proof -
  have e: "entry_name PROMPTS_FOLDER (PROMPTS_FOLDER @ ''/'' @ name) = Some name"
    using assms(3,4) by (simp add: entry_name_def)
  have "PROMPTS_FOLDER @ ''/'' @ name \<in> set (map fst (fs w))"
    using assms(2) by force
  with e have "name \<in> set (List.map_filter (entry_name PROMPTS_FOLDER) (map fst (fs w)))"
    by (force simp: map_filter_def)
  then show ?thesis
    using assms(1,5) by (simp add: discover_def listdir_def)
qed

lemma makedirs_single:
  assumes "ancestors p = [p]"
  shows "map_of (fs w) p = None \<Longrightarrow>
           makedirs p w = (None, emit (MakeDirs p) (w\<lparr>fs := fs w @ [(p, Dir)]\<rparr>))"
    and "map_of (fs w) p = Some Dir \<Longrightarrow>
           makedirs p w = (None, emit (MakeDirs p) (w\<lparr>fs := fs w\<rparr>))"
  by (simp_all add: makedirs_def assms)

lemma missing_prompts_exit:
  assumes "truthy (API_KEY env)" and "map_of (fs w) PROMPTS_FOLDER = None"
    and "\<forall>p\<in>set (map fst (fs w)). entry_name PROMPTS_FOLDER p = None"
    and "\<forall>b. map_of (fs w) OUTPUT_BASE \<noteq> Some (File b)"
    and "map_of (fs w) REF_FACE_PATH = Some (File face)"
  shows "fst (main env w) = Exited
     \<and> new_events w (snd (main env w)) =
         [MakeDirs PROMPTS_FOLDER, MakeDirs OUTPUT_BASE, ListDir PROMPTS_FOLDER,
          Print (NoTxtFiles PROMPTS_FOLDER)]"
proof -
  let ?f1 = "fs w @ [(PROMPTS_FOLDER, Dir)]"
  let ?w1 = "emit (MakeDirs PROMPTS_FOLDER) (w\<lparr>fs := ?f1\<rparr>)"
  have m1: "makedirs PROMPTS_FOLDER w = (None, ?w1)"
    using makedirs_single(1)[OF ancestors_config(1) assms(2)] .
  have ne: "OUTPUT_BASE \<noteq> PROMPTS_FOLDER" "REF_FACE_PATH \<noteq> PROMPTS_FOLDER" "REF_FACE_PATH \<noteq> OUTPUT_BASE"
    by (simp_all add: OUTPUT_BASE_def PROMPTS_FOLDER_def REF_FACE_PATH_def)
  have en: "entry_name PROMPTS_FOLDER PROMPTS_FOLDER = None" "entry_name PROMPTS_FOLDER OUTPUT_BASE = None"
    by (simp_all add: entry_name_def OUTPUT_BASE_def PROMPTS_FOLDER_def)
  have none: "List.map_filter (entry_name PROMPTS_FOLDER) (map fst (fs w)) = []"
    using assms(3) by (simp add: map_filter_def filter_empty_conv)
  have fs1: "fs ?w1 = ?f1" by (simp add: emit_def)
  obtain f2 where m2: "makedirs OUTPUT_BASE ?w1 = (None, emit (MakeDirs OUTPUT_BASE) (?w1\<lparr>fs := f2\<rparr>))"
    and f2: "f2 = ?f1 \<or> f2 = ?f1 @ [(OUTPUT_BASE, Dir)]"
  proof (cases "map_of (fs w) OUTPUT_BASE")
    case None
    then have "map_of (fs ?w1) OUTPUT_BASE = None" unfolding fs1 using ne(1) by simp
    from makedirs_single(1)[OF ancestors_config(2) this]
    have "makedirs OUTPUT_BASE ?w1 =
        (None, emit (MakeDirs OUTPUT_BASE) (?w1\<lparr>fs := ?f1 @ [(OUTPUT_BASE, Dir)]\<rparr>))"
      unfolding fs1 .
    then show ?thesis using that by blast
  next
    case (Some nd)
    with assms(4) have "nd = Dir" by (cases nd) auto
    with Some have "map_of (fs ?w1) OUTPUT_BASE = Some Dir"
      unfolding fs1 by (simp add: map_add_Some_iff)
    from makedirs_single(2)[OF ancestors_config(2) this]
    have "makedirs OUTPUT_BASE ?w1 = (None, emit (MakeDirs OUTPUT_BASE) (?w1\<lparr>fs := ?f1\<rparr>))"
      unfolding fs1 .
    then show ?thesis using that by blast
  qed
  let ?w2 = "emit (MakeDirs OUTPUT_BASE) (?w1\<lparr>fs := f2\<rparr>)"
  have fs2: "fs ?w2 = f2" by (simp add: emit_def)
  have face: "map_of f2 REF_FACE_PATH = Some (File face)"
    using f2 assms(5) by (auto simp: map_add_Some_iff)
  have pd: "map_of f2 PROMPTS_FOLDER = Some Dir"
    using f2 assms(2) ne by (auto simp: map_add_Some_iff)
  have names: "List.map_filter (entry_name PROMPTS_FOLDER) (map fst f2) = []"
    using f2 none en by (auto simp: map_filter_def)
  have d: "discover ?w2 = (Inr [], emit (ListDir PROMPTS_FOLDER) ?w2)"
    using pd names by (simp add: discover_def listdir_def fs2)
  have "main env w = (Exited, emit (Print (NoTxtFiles PROMPTS_FOLDER)) (emit (ListDir PROMPTS_FOLDER) ?w2))"
    using assms(1) m1 m2 face d
    by (simp add: main_def path_exists_def read_file_def fs2)
  then show ?thesis by (simp add: emit_def new_events_def)
qed

lemma mkdir_chain_subset: "set f \<subseteq> set (snd (mkdir_chain ds f))"
proof (induction ds arbitrary: f)
  case Nil
  show ?case by simp
next
  case (Cons a ds)
  show ?case
  proof (cases "map_of f a")
    case None
    then show ?thesis using Cons.IH[of "f @ [(a, Dir)]"] by auto
  next
    case (Some n)
    then show ?thesis using Cons.IH[of f] by (cases n) auto
  qed
qed

lemma makedirs_subset: "set (fs w) \<subseteq> set (fs (snd (makedirs p w)))"
  using mkdir_chain_subset[of "fs w" "ancestors p"]
  by (cases "mkdir_chain (ancestors p) (fs w)") (simp add: makedirs_def emit_def)

lemma mkdir_chain_file:
  "map_of (snd (mkdir_chain ds f)) q = Some (File b) \<Longrightarrow> map_of f q = Some (File b)"
proof (induction ds arbitrary: f)
  case Nil
  then show ?case by simp
next
  case (Cons a ds)
  show ?case
  proof (cases "map_of f a")
    case None
    with Cons.prems have "map_of (snd (mkdir_chain ds (f @ [(a, Dir)]))) q = Some (File b)" by simp
    then have "map_of (f @ [(a, Dir)]) q = Some (File b)" by (rule Cons.IH)
    then show ?thesis by (auto simp: map_add_def split: option.splits if_splits)
  next
    case (Some n)
    show ?thesis
    proof (cases n)
      case Dir
      with Some Cons.prems have "map_of (snd (mkdir_chain ds f)) q = Some (File b)" by simp
      then show ?thesis by (rule Cons.IH)
    next
      case (File c)
      with Some Cons.prems show ?thesis by simp
    qed
  qed
qed

lemma makedirs_file:
  "map_of (fs (snd (makedirs p w))) q = Some (File b) \<Longrightarrow> map_of (fs w) q = Some (File b)"
  using mkdir_chain_file[of "ancestors p" "fs w" q b]
  by (cases "mkdir_chain (ancestors p) (fs w)") (simp add: makedirs_def emit_def)

lemma startup_free:
  assumes "\<forall>b. map_of (fs w) PROMPTS_FOLDER \<noteq> Some (File b)"
    and "\<forall>b. map_of (fs w) OUTPUT_BASE \<noteq> Some (File b)"
  shows "fst (makedirs PROMPTS_FOLDER w) = None"
    and "fst (makedirs OUTPUT_BASE (snd (makedirs PROMPTS_FOLDER w))) = None"
proof -
  show "fst (makedirs PROMPTS_FOLDER w) = None"
    using assms(1) by (intro makedirs_free) (simp add: ancestors_config)
  have "\<forall>b. map_of (fs (snd (makedirs PROMPTS_FOLDER w))) OUTPUT_BASE \<noteq> Some (File b)"
    using assms(2) makedirs_file[of PROMPTS_FOLDER w OUTPUT_BASE] by blast
  then show "fst (makedirs OUTPUT_BASE (snd (makedirs PROMPTS_FOLDER w))) = None"
    by (intro makedirs_free) (simp add: ancestors_config)
qed

lemma prompts_loop_keeps:
  assumes "p = [] \<or> last p \<noteq> CHR ''g''"
  shows "map_of (fs w) p = Some n \<Longrightarrow>
         map_of (fs (snd (prompts_loop env model face files w))) p = Some n"
proof (induction files arbitrary: w)
  case Nil
  then show ?case by simp
next
  case (Cons f files)
  obtain r w1 where pp: "process_prompt env model face f w = (r, w1)"
    by (cases "process_prompt env model face f w")
  have k: "map_of (fs w1) p = Some n"
    using process_prompt_keeps[OF Cons.prems assms, of env model face f] pp by simp
  show ?case
  proof (cases r)
    case (Some e)
    with pp k show ?thesis by simp
  next
    case None
    with pp Cons.IH[OF k] show ?thesis by simp
  qed
qed

lemma session_keeps:
  assumes "map_of (fs w) p = Some n" and "p = [] \<or> last p \<noteq> CHR ''g''"
  shows "map_of (fs (snd (session env face files w))) p = Some n"
proof (cases "stdin w")
  case Nil
  then show ?thesis using assms(1) by (simp add: session_def py_input_def emit_def)
next
  case (Cons line rest)
  let ?w2 = "emit (Print (FoundPrompts (length files)))
              (emit (Print (UsingModel (select_model line)))
                (emit (Input AskModel line)
                  ((emit (Print MenuOption2) (emit (Print MenuOption1) (emit (Print MenuHeader) w)))
                     \<lparr>stdin := rest\<rparr>)))"
  have "fs ?w2 = fs w" by (simp add: emit_def)
  with assms(1) have "map_of (fs ?w2) p = Some n" by simp
  from prompts_loop_keeps[OF assms(2) this]
  have k: "map_of (fs (snd (prompts_loop env (select_model line) face files ?w2))) p = Some n" .
  obtain r w3 where l: "prompts_loop env (select_model line) face files ?w2 = (r, w3)"
    by (cases "prompts_loop env (select_model line) face files ?w2")
  have s: "session env face files w =
      (case r of Some e \<Rightarrow> (Crashed e, w3) | None \<Rightarrow> (Completed, emit (Print SessionComplete) w3))"
    using Cons l by (simp add: session_def py_input_def Let_def emit_simps)
  show ?thesis using s k l by (cases r) (simp_all add: emit_def)
qed

text \<open>
  The script once the credential is present and both folders are created: the listing
  succeeds, and the script goes on with the reference face and the files listed.
\<close>

lemma main_after_startup:
  assumes "truthy (API_KEY env)" and "fst (makedirs PROMPTS_FOLDER w) = None"
    and "fst (makedirs OUTPUT_BASE (snd (makedirs PROMPTS_FOLDER w))) = None"
    and "w2 = snd (makedirs OUTPUT_BASE (snd (makedirs PROMPTS_FOLDER w)))"
    and "files = filter (\<lambda>f. endswith f ''.txt'')
                   (List.map_filter (entry_name PROMPTS_FOLDER) (map fst (fs w2)))"
  shows "discover w2 = (Inr files, emit (ListDir PROMPTS_FOLDER) w2)"
    and "main env w =
      (if \<not> path_exists w2 REF_FACE_PATH then (Exited, emit (Print (FaceNotFound REF_FACE_PATH)) w2)
       else case read_file w2 REF_FACE_PATH of
              Inl e \<Rightarrow> (Crashed e, w2)
            | Inr face \<Rightarrow>
                if files = []
                then (Exited, emit (Print (NoTxtFiles PROMPTS_FOLDER)) (emit (ListDir PROMPTS_FOLDER) w2))
                else session env face files (emit (ListDir PROMPTS_FOLDER) w2))"
proof -
  have "map_of (fs w2) PROMPTS_FOLDER = Some Dir"
    unfolding assms(4) using assms(2,3) by (rule folders_after_makedirs(1))
  then show d: "discover w2 = (Inr files, emit (ListDir PROMPTS_FOLDER) w2)"
    by (simp add: discover_def listdir_def assms(5))
  obtain w1 where m1: "makedirs PROMPTS_FOLDER w = (None, w1)"
    using assms(2) by (cases "makedirs PROMPTS_FOLDER w") simp
  then have m2: "makedirs OUTPUT_BASE w1 = (None, w2)"
    using assms(3,4) by (cases "makedirs OUTPUT_BASE w1") simp
  show "main env w =
      (if \<not> path_exists w2 REF_FACE_PATH then (Exited, emit (Print (FaceNotFound REF_FACE_PATH)) w2)
       else case read_file w2 REF_FACE_PATH of
              Inl e \<Rightarrow> (Crashed e, w2)
            | Inr face \<Rightarrow>
                if files = []
                then (Exited, emit (Print (NoTxtFiles PROMPTS_FOLDER)) (emit (ListDir PROMPTS_FOLDER) w2))
                else session env face files (emit (ListDir PROMPTS_FOLDER) w2))"
    using assms(1) m1 m2 d by (simp add: main_def split: sum.splits)
qed

lemma main_keeps:
  assumes "truthy (API_KEY env)" and "fst (makedirs PROMPTS_FOLDER w) = None"
    and "fst (makedirs OUTPUT_BASE (snd (makedirs PROMPTS_FOLDER w))) = None"
    and "map_of (fs (snd (makedirs OUTPUT_BASE (snd (makedirs PROMPTS_FOLDER w))))) p = Some n"
    and "p = [] \<or> last p \<noteq> CHR ''g''"
  shows "map_of (fs (snd (main env w))) p = Some n"
proof -
  define w2 where "w2 = snd (makedirs OUTPUT_BASE (snd (makedirs PROMPTS_FOLDER w)))"
  define files where "files = filter (\<lambda>f. endswith f ''.txt'')
                   (List.map_filter (entry_name PROMPTS_FOLDER) (map fst (fs w2)))"
  note mn = main_after_startup(2)[OF assms(1,2,3) w2_def files_def]
  have k: "map_of (fs w2) p = Some n" using assms(4) by (simp add: w2_def)
  show ?thesis
  proof (cases "path_exists w2 REF_FACE_PATH")
    case False
    then show ?thesis using mn k by (simp add: emit_def)
  next
    case True
    show ?thesis
    proof (cases "read_file w2 REF_FACE_PATH")
      case (Inl e)
      with True mn k show ?thesis by simp
    next
      case (Inr face)
      show ?thesis
      proof (cases "files = []")
        case True
        with Inr \<open>path_exists w2 REF_FACE_PATH\<close> mn k show ?thesis by (simp add: emit_def)
      next
        case False
        have "map_of (fs (emit (ListDir PROMPTS_FOLDER) w2)) p = Some n"
          using k by (simp add: emit_def)
        from session_keeps[OF this assms(5), of env face files]
        show ?thesis using Inr False \<open>path_exists w2 REF_FACE_PATH\<close> mn by simp
      qed
    qed
  qed
qed

lemma main_crashes:
  assumes "truthy (API_KEY env)"
  shows "fst (makedirs PROMPTS_FOLDER w) = Some e \<Longrightarrow>
           main env w = (Crashed e, snd (makedirs PROMPTS_FOLDER w))"
    and "fst (makedirs PROMPTS_FOLDER w) = None \<Longrightarrow>
         fst (makedirs OUTPUT_BASE (snd (makedirs PROMPTS_FOLDER w))) = Some e \<Longrightarrow>
           main env w = (Crashed e, snd (makedirs OUTPUT_BASE (snd (makedirs PROMPTS_FOLDER w))))"
proof -
  show "fst (makedirs PROMPTS_FOLDER w) = Some e \<Longrightarrow>
           main env w = (Crashed e, snd (makedirs PROMPTS_FOLDER w))"
    using assms by (cases "makedirs PROMPTS_FOLDER w") (simp add: main_def)
  assume a: "fst (makedirs PROMPTS_FOLDER w) = None"
    and b: "fst (makedirs OUTPUT_BASE (snd (makedirs PROMPTS_FOLDER w))) = Some e"
  obtain w1 where m1: "makedirs PROMPTS_FOLDER w = (None, w1)"
    using a by (cases "makedirs PROMPTS_FOLDER w") simp
  then obtain w2 where m2: "makedirs OUTPUT_BASE w1 = (Some e, w2)"
    using b by (cases "makedirs OUTPUT_BASE w1") simp
  show "main env w = (Crashed e, snd (makedirs OUTPUT_BASE (snd (makedirs PROMPTS_FOLDER w))))"
    using assms m1 m2 by (simp add: main_def)
qed

lemma listed_names:
  assumes "(PROMPTS_FOLDER @ ''/'' @ name, nd) \<in> set (fs w)"
    and "name \<noteq> []" and "CHR ''/'' \<notin> set name" and "endswith name ''.txt''"
  shows "name \<in> set (filter (\<lambda>f. endswith f ''.txt'')
           (List.map_filter (entry_name PROMPTS_FOLDER)
             (map fst (fs (snd (makedirs OUTPUT_BASE (snd (makedirs PROMPTS_FOLDER w))))))))"
proof -
  let ?w2 = "snd (makedirs OUTPUT_BASE (snd (makedirs PROMPTS_FOLDER w)))"
  have e: "entry_name PROMPTS_FOLDER (PROMPTS_FOLDER @ ''/'' @ name) = Some name"
    using assms(2,3) by (rule entry_name_join)
  have "(PROMPTS_FOLDER @ ''/'' @ name, nd) \<in> set (fs ?w2)"
    using assms(1) makedirs_subset[of w PROMPTS_FOLDER]
      makedirs_subset[of "snd (makedirs PROMPTS_FOLDER w)" OUTPUT_BASE] by blast
  then have "PROMPTS_FOLDER @ ''/'' @ name \<in> set (map fst (fs ?w2))" by force
  with e have "name \<in> set (List.map_filter (entry_name PROMPTS_FOLDER) (map fst (fs ?w2)))"
    by (force simp: map_filter_def)
  then show ?thesis using assms(4) by simp
qed

text \<open>
  C10.  With the credential present, the first two effects of the script are the creation of
  the prompts folder and of the output root; only after them comes the listing.  When
  no regular file stands in the place of either folder, neither creation raises; when one
  raises, the script ends there with that exception.  When neither raises, both folders
  are directories of the file system in which the script ends, however it ends; the
  listing succeeds; the files listed are the entries of the prompts folder whose name ends
  in \<open>.txt\<close>, among them every such entry of the file system the script started in, a
  directory as well as a regular file; and with the reference face read, the script exits on
  the empty prompt set when no file is listed and goes on to the session with the files
  listed otherwise.  When the prompts folder was missing, and the reference face is a
  readable file, the script lists the folder it made and exits on the empty prompt set,
  with both folders in the file system.
\<close>

theorem startup_creates_folders:
  "(truthy (API_KEY env) \<longrightarrow>
      new_events w (snd (main env w)) = [MakeDirs PROMPTS_FOLDER]
      \<or> (\<exists>evs. new_events w (snd (main env w)) = MakeDirs PROMPTS_FOLDER # MakeDirs OUTPUT_BASE # evs))
   \<and> ((\<forall>b. map_of (fs w) PROMPTS_FOLDER \<noteq> Some (File b))
        \<and> (\<forall>b. map_of (fs w) OUTPUT_BASE \<noteq> Some (File b)) \<longrightarrow>
        fst (makedirs PROMPTS_FOLDER w) = None
        \<and> fst (makedirs OUTPUT_BASE (snd (makedirs PROMPTS_FOLDER w))) = None)
   \<and> (\<forall>e. truthy (API_KEY env) \<and> fst (makedirs PROMPTS_FOLDER w) = Some e \<longrightarrow>
        main env w = (Crashed e, snd (makedirs PROMPTS_FOLDER w)))
   \<and> (\<forall>e. truthy (API_KEY env) \<and> fst (makedirs PROMPTS_FOLDER w) = None
        \<and> fst (makedirs OUTPUT_BASE (snd (makedirs PROMPTS_FOLDER w))) = Some e \<longrightarrow>
        main env w = (Crashed e, snd (makedirs OUTPUT_BASE (snd (makedirs PROMPTS_FOLDER w)))))
   \<and> (truthy (API_KEY env) \<and> fst (makedirs PROMPTS_FOLDER w) = None
        \<and> fst (makedirs OUTPUT_BASE (snd (makedirs PROMPTS_FOLDER w))) = None \<longrightarrow>
        map_of (fs (snd (main env w))) PROMPTS_FOLDER = Some Dir
        \<and> map_of (fs (snd (main env w))) OUTPUT_BASE = Some Dir
        \<and> (\<exists>files.
             discover (snd (makedirs OUTPUT_BASE (snd (makedirs PROMPTS_FOLDER w)))) =
               (Inr files, emit (ListDir PROMPTS_FOLDER)
                             (snd (makedirs OUTPUT_BASE (snd (makedirs PROMPTS_FOLDER w)))))
           \<and> files = filter (\<lambda>f. endswith f ''.txt'')
                       (List.map_filter (entry_name PROMPTS_FOLDER)
                          (map fst (fs (snd (makedirs OUTPUT_BASE (snd (makedirs PROMPTS_FOLDER w)))))))
           \<and> (\<forall>name nd. (PROMPTS_FOLDER @ ''/'' @ name, nd) \<in> set (fs w)
                  \<and> name \<noteq> [] \<and> CHR ''/'' \<notin> set name \<and> endswith name ''.txt'' \<longrightarrow>
                  name \<in> set files)
           \<and> (\<forall>face. read_file (snd (makedirs OUTPUT_BASE (snd (makedirs PROMPTS_FOLDER w))))
                        REF_FACE_PATH = Inr face \<longrightarrow>
                  main env w =
                    (if files = []
                     then (Exited, emit (Print (NoTxtFiles PROMPTS_FOLDER))
                                     (emit (ListDir PROMPTS_FOLDER)
                                        (snd (makedirs OUTPUT_BASE (snd (makedirs PROMPTS_FOLDER w))))))
                     else session env face files
                            (emit (ListDir PROMPTS_FOLDER)
                               (snd (makedirs OUTPUT_BASE (snd (makedirs PROMPTS_FOLDER w)))))))))
   \<and> (truthy (API_KEY env) \<and> map_of (fs w) PROMPTS_FOLDER = None
        \<and> (\<forall>p\<in>set (map fst (fs w)). entry_name PROMPTS_FOLDER p = None)
        \<and> (\<forall>b. map_of (fs w) OUTPUT_BASE \<noteq> Some (File b))
        \<and> map_of (fs w) REF_FACE_PATH = Some (File face0) \<longrightarrow>
        fst (main env w) = Exited
        \<and> new_events w (snd (main env w)) =
            [MakeDirs PROMPTS_FOLDER, MakeDirs OUTPUT_BASE, ListDir PROMPTS_FOLDER,
             Print (NoTxtFiles PROMPTS_FOLDER)]
        \<and> map_of (fs (snd (main env w))) PROMPTS_FOLDER = Some Dir
        \<and> map_of (fs (snd (main env w))) OUTPUT_BASE = Some Dir)"
proof -
  let ?w2 = "snd (makedirs OUTPUT_BASE (snd (makedirs PROMPTS_FOLDER w)))"
  let ?files = "filter (\<lambda>f. endswith f ''.txt'')
                  (List.map_filter (entry_name PROMPTS_FOLDER) (map fst (fs ?w2)))"
  have lastP: "PROMPTS_FOLDER = [] \<or> last PROMPTS_FOLDER \<noteq> CHR ''g''"
    and lastO: "OUTPUT_BASE = [] \<or> last OUTPUT_BASE \<noteq> CHR ''g''"
    by (simp_all add: PROMPTS_FOLDER_def OUTPUT_BASE_def)
  have 1: "truthy (API_KEY env) \<longrightarrow>
      new_events w (snd (main env w)) = [MakeDirs PROMPTS_FOLDER]
      \<or> (\<exists>evs. new_events w (snd (main env w)) = MakeDirs PROMPTS_FOLDER # MakeDirs OUTPUT_BASE # evs)"
    using main_starts[of env w] by blast
  have 2: "(\<forall>b. map_of (fs w) PROMPTS_FOLDER \<noteq> Some (File b))
        \<and> (\<forall>b. map_of (fs w) OUTPUT_BASE \<noteq> Some (File b)) \<longrightarrow>
        fst (makedirs PROMPTS_FOLDER w) = None \<and> fst (makedirs OUTPUT_BASE (snd (makedirs PROMPTS_FOLDER w))) = None"
    using startup_free[of w] by blast
  have 3: "\<forall>e. truthy (API_KEY env) \<and> fst (makedirs PROMPTS_FOLDER w) = Some e \<longrightarrow>
        main env w = (Crashed e, snd (makedirs PROMPTS_FOLDER w))"
    using main_crashes(1)[of env w] by blast
  have 4: "\<forall>e. truthy (API_KEY env) \<and> fst (makedirs PROMPTS_FOLDER w) = None
        \<and> fst (makedirs OUTPUT_BASE (snd (makedirs PROMPTS_FOLDER w))) = Some e \<longrightarrow>
        main env w = (Crashed e, ?w2)"
    using main_crashes(2)[of env w] by blast
  have folders: "map_of (fs (snd (main env w))) PROMPTS_FOLDER = Some Dir
        \<and> map_of (fs (snd (main env w))) OUTPUT_BASE = Some Dir"
    if k: "truthy (API_KEY env)" and a: "fst (makedirs PROMPTS_FOLDER w) = None"
      and b: "fst (makedirs OUTPUT_BASE (snd (makedirs PROMPTS_FOLDER w))) = None"
    using main_keeps[OF k a b folders_after_makedirs(1)[OF a b] lastP]
      main_keeps[OF k a b folders_after_makedirs(2)[OF a b] lastO] by blast
  have 5: "truthy (API_KEY env) \<and> fst (makedirs PROMPTS_FOLDER w) = None
        \<and> fst (makedirs OUTPUT_BASE (snd (makedirs PROMPTS_FOLDER w))) = None \<longrightarrow>
        map_of (fs (snd (main env w))) PROMPTS_FOLDER = Some Dir
        \<and> map_of (fs (snd (main env w))) OUTPUT_BASE = Some Dir
        \<and> (\<exists>files.
             discover ?w2 = (Inr files, emit (ListDir PROMPTS_FOLDER) ?w2)
           \<and> files = ?files
           \<and> (\<forall>name nd. (PROMPTS_FOLDER @ ''/'' @ name, nd) \<in> set (fs w)
                  \<and> name \<noteq> [] \<and> CHR ''/'' \<notin> set name \<and> endswith name ''.txt'' \<longrightarrow>
                  name \<in> set files)
           \<and> (\<forall>face. read_file ?w2 REF_FACE_PATH = Inr face \<longrightarrow>
                  main env w =
                    (if files = []
                     then (Exited, emit (Print (NoTxtFiles PROMPTS_FOLDER)) (emit (ListDir PROMPTS_FOLDER) ?w2))
                     else session env face files (emit (ListDir PROMPTS_FOLDER) ?w2))))"
  proof (intro impI)
    assume h: "truthy (API_KEY env) \<and> fst (makedirs PROMPTS_FOLDER w) = None
        \<and> fst (makedirs OUTPUT_BASE (snd (makedirs PROMPTS_FOLDER w))) = None"
    then have k: "truthy (API_KEY env)" and a: "fst (makedirs PROMPTS_FOLDER w) = None"
      and b: "fst (makedirs OUTPUT_BASE (snd (makedirs PROMPTS_FOLDER w))) = None" by simp_all
    note d = main_after_startup(1)[OF k a b refl refl]
    note mn = main_after_startup(2)[OF k a b refl refl]
    have names: "\<forall>name nd. (PROMPTS_FOLDER @ ''/'' @ name, nd) \<in> set (fs w)
                  \<and> name \<noteq> [] \<and> CHR ''/'' \<notin> set name \<and> endswith name ''.txt'' \<longrightarrow>
                  name \<in> set ?files"
      using listed_names[of _ _ w] by blast
    have run: "\<forall>face. read_file ?w2 REF_FACE_PATH = Inr face \<longrightarrow>
                  main env w =
                    (if ?files = []
                     then (Exited, emit (Print (NoTxtFiles PROMPTS_FOLDER)) (emit (ListDir PROMPTS_FOLDER) ?w2))
                     else session env face ?files (emit (ListDir PROMPTS_FOLDER) ?w2))"
    proof (intro allI impI)
      fix face assume r: "read_file ?w2 REF_FACE_PATH = Inr face"
      then have "path_exists ?w2 REF_FACE_PATH"
        by (auto simp: read_file_def path_exists_def split: option.splits)
      with r show "main env w =
                    (if ?files = []
                     then (Exited, emit (Print (NoTxtFiles PROMPTS_FOLDER)) (emit (ListDir PROMPTS_FOLDER) ?w2))
                     else session env face ?files (emit (ListDir PROMPTS_FOLDER) ?w2))"
        by (simp add: mn)
    qed
    show "map_of (fs (snd (main env w))) PROMPTS_FOLDER = Some Dir
        \<and> map_of (fs (snd (main env w))) OUTPUT_BASE = Some Dir
        \<and> (\<exists>files.
             discover ?w2 = (Inr files, emit (ListDir PROMPTS_FOLDER) ?w2)
           \<and> files = ?files
           \<and> (\<forall>name nd. (PROMPTS_FOLDER @ ''/'' @ name, nd) \<in> set (fs w)
                  \<and> name \<noteq> [] \<and> CHR ''/'' \<notin> set name \<and> endswith name ''.txt'' \<longrightarrow>
                  name \<in> set files)
           \<and> (\<forall>face. read_file ?w2 REF_FACE_PATH = Inr face \<longrightarrow>
                  main env w =
                    (if files = []
                     then (Exited, emit (Print (NoTxtFiles PROMPTS_FOLDER)) (emit (ListDir PROMPTS_FOLDER) ?w2))
                     else session env face files (emit (ListDir PROMPTS_FOLDER) ?w2))))"
      using folders[OF k a b] d names run by blast
  qed
  have 6: "truthy (API_KEY env) \<and> map_of (fs w) PROMPTS_FOLDER = None
        \<and> (\<forall>p\<in>set (map fst (fs w)). entry_name PROMPTS_FOLDER p = None)
        \<and> (\<forall>b. map_of (fs w) OUTPUT_BASE \<noteq> Some (File b))
        \<and> map_of (fs w) REF_FACE_PATH = Some (File face0) \<longrightarrow>
        fst (main env w) = Exited
        \<and> new_events w (snd (main env w)) =
            [MakeDirs PROMPTS_FOLDER, MakeDirs OUTPUT_BASE, ListDir PROMPTS_FOLDER,
             Print (NoTxtFiles PROMPTS_FOLDER)]
        \<and> map_of (fs (snd (main env w))) PROMPTS_FOLDER = Some Dir
        \<and> map_of (fs (snd (main env w))) OUTPUT_BASE = Some Dir"
  proof (intro impI)
    assume h: "truthy (API_KEY env) \<and> map_of (fs w) PROMPTS_FOLDER = None
        \<and> (\<forall>p\<in>set (map fst (fs w)). entry_name PROMPTS_FOLDER p = None)
        \<and> (\<forall>b. map_of (fs w) OUTPUT_BASE \<noteq> Some (File b))
        \<and> map_of (fs w) REF_FACE_PATH = Some (File face0)"
    then have r: "fst (main env w) = Exited
       \<and> new_events w (snd (main env w)) =
           [MakeDirs PROMPTS_FOLDER, MakeDirs OUTPUT_BASE, ListDir PROMPTS_FOLDER,
            Print (NoTxtFiles PROMPTS_FOLDER)]"
      using missing_prompts_exit[of env w face0] by blast
    from h have "\<forall>b. map_of (fs w) PROMPTS_FOLDER \<noteq> Some (File b)" by simp
    with h have a: "fst (makedirs PROMPTS_FOLDER w) = None"
      and b: "fst (makedirs OUTPUT_BASE (snd (makedirs PROMPTS_FOLDER w))) = None"
      using startup_free[of w] by blast+
    from h have k: "truthy (API_KEY env)" by simp
    show "fst (main env w) = Exited
        \<and> new_events w (snd (main env w)) =
            [MakeDirs PROMPTS_FOLDER, MakeDirs OUTPUT_BASE, ListDir PROMPTS_FOLDER,
             Print (NoTxtFiles PROMPTS_FOLDER)]
        \<and> map_of (fs (snd (main env w))) PROMPTS_FOLDER = Some Dir
        \<and> map_of (fs (snd (main env w))) OUTPUT_BASE = Some Dir"
      using r folders[OF k a b] by blast
  qed
  show ?thesis using 1 2 3 4 5 6 by (intro conjI)
qed

text \<open>
  The theorem at a world that holds the reference face and nothing else; at the example
  world, whose prompts folder holds the directory \<open>shots.txt\<close>; and at two worlds with
  a regular file in the place of one of the folders.
\<close>

theorem startup_creates_folders_witness:
  "fst (main demo_env face_world) = Exited
   \<and> new_events face_world (snd (main demo_env face_world)) =
       [MakeDirs PROMPTS_FOLDER, MakeDirs OUTPUT_BASE, ListDir PROMPTS_FOLDER,
        Print (NoTxtFiles PROMPTS_FOLDER)]
   \<and> map_of (fs face_world) PROMPTS_FOLDER = None
   \<and> map_of (fs (snd (main demo_env face_world))) PROMPTS_FOLDER = Some Dir
   \<and> map_of (fs (snd (main demo_env face_world))) OUTPUT_BASE = Some Dir
   \<and> map_of (fs demo_world) OUTPUT_BASE = None
   \<and> map_of (fs (snd (main demo_env demo_world))) PROMPTS_FOLDER = Some Dir
   \<and> map_of (fs (snd (main demo_env demo_world))) OUTPUT_BASE = Some Dir
   \<and> (\<exists>files. ''shots.txt'' \<in> set files \<and> ''winter.txt'' \<in> set files
         \<and> main demo_env demo_world =
             session demo_env ''FACE'' files
               (emit (ListDir PROMPTS_FOLDER)
                  (snd (makedirs OUTPUT_BASE (snd (makedirs PROMPTS_FOLDER demo_world))))))
   \<and> main demo_env (face_world\<lparr>fs := [(''prompts'', File ''x'')]\<rparr>) =
       (Crashed FileExistsError,
        emit (MakeDirs PROMPTS_FOLDER) (face_world\<lparr>fs := [(''prompts'', File ''x'')]\<rparr>))
   \<and> main demo_env (face_world\<lparr>fs := [(''output folder'', File ''x'')]\<rparr>) =
       (Crashed FileExistsError,
        emit (MakeDirs OUTPUT_BASE) (emit (MakeDirs PROMPTS_FOLDER)
          (face_world\<lparr>fs := [(''output folder'', File ''x''), (''prompts'', Dir)]\<rparr>)))"
proof -
  let ?wp = "face_world\<lparr>fs := [(''prompts'', File ''x'')]\<rparr>"
  let ?wo = "face_world\<lparr>fs := [(''output folder'', File ''x'')]\<rparr>"
  have key: "truthy (API_KEY demo_env)" by (simp add: truthy_def demo_env_simps)
  have a: "truthy (API_KEY demo_env) \<and> map_of (fs face_world) PROMPTS_FOLDER = None
        \<and> (\<forall>p\<in>set (map fst (fs face_world)). entry_name PROMPTS_FOLDER p = None)
        \<and> (\<forall>b. map_of (fs face_world) OUTPUT_BASE \<noteq> Some (File b))
        \<and> map_of (fs face_world) REF_FACE_PATH = Some (File ''FACE'')"
    by (simp add: truthy_def demo_env_simps PROMPTS_FOLDER_def OUTPUT_BASE_def REF_FACE_PATH_def
        entry_name_def face_world_def)
  have a0: "map_of (fs face_world) PROMPTS_FOLDER = None" using a by blast
  note t1 = startup_creates_folders[where env = demo_env and w = face_world and ?face0.0 = "''FACE''"]
  have r1: "fst (main demo_env face_world) = Exited
   \<and> new_events face_world (snd (main demo_env face_world)) =
       [MakeDirs PROMPTS_FOLDER, MakeDirs OUTPUT_BASE, ListDir PROMPTS_FOLDER,
        Print (NoTxtFiles PROMPTS_FOLDER)]
   \<and> map_of (fs (snd (main demo_env face_world))) PROMPTS_FOLDER = Some Dir
   \<and> map_of (fs (snd (main demo_env face_world))) OUTPUT_BASE = Some Dir"
    using t1 a by blast
  note t2 = startup_creates_folders[where env = demo_env and w = demo_world and ?face0.0 = "''FACE''"]
  have b0: "(\<forall>b. map_of (fs demo_world) PROMPTS_FOLDER \<noteq> Some (File b))
        \<and> (\<forall>b. map_of (fs demo_world) OUTPUT_BASE \<noteq> Some (File b))"
    by (simp add: demo_world_def PROMPTS_FOLDER_def OUTPUT_BASE_def)
  have b1: "map_of (fs demo_world) OUTPUT_BASE = None"
    by (simp add: demo_world_def OUTPUT_BASE_def)
  have b2: "fst (makedirs PROMPTS_FOLDER demo_world) = None
        \<and> fst (makedirs OUTPUT_BASE (snd (makedirs PROMPTS_FOLDER demo_world))) = None"
    using t2 b0 by blast
  have b3: "read_file (snd (makedirs OUTPUT_BASE (snd (makedirs PROMPTS_FOLDER demo_world))))
              REF_FACE_PATH = Inr ''FACE''"
    by (simp add: read_file_def makedirs_def ancestors_def PROMPTS_FOLDER_def OUTPUT_BASE_def
        REF_FACE_PATH_def demo_world_def emit_def)
  have b4: "(PROMPTS_FOLDER @ ''/'' @ ''shots.txt'', Dir) \<in> set (fs demo_world)
        \<and> ''shots.txt'' \<noteq> [] \<and> CHR ''/'' \<notin> set ''shots.txt'' \<and> endswith ''shots.txt'' ''.txt''"
    by (simp add: demo_world_def PROMPTS_FOLDER_def endswith_def)
  have b5: "(PROMPTS_FOLDER @ ''/'' @ ''winter.txt'', File ''A red coat in snow.'') \<in> set (fs demo_world)
        \<and> ''winter.txt'' \<noteq> [] \<and> CHR ''/'' \<notin> set ''winter.txt'' \<and> endswith ''winter.txt'' ''.txt''"
    by (simp add: demo_world_def PROMPTS_FOLDER_def endswith_def)
  from t2 key b2 obtain files where
    f1: "\<forall>name nd. (PROMPTS_FOLDER @ ''/'' @ name, nd) \<in> set (fs demo_world)
                  \<and> name \<noteq> [] \<and> CHR ''/'' \<notin> set name \<and> endswith name ''.txt'' \<longrightarrow>
                  name \<in> set files"
    and f2: "\<forall>face. read_file (snd (makedirs OUTPUT_BASE (snd (makedirs PROMPTS_FOLDER demo_world))))
                        REF_FACE_PATH = Inr face \<longrightarrow>
                  main demo_env demo_world =
                    (if files = []
                     then (Exited, emit (Print (NoTxtFiles PROMPTS_FOLDER))
                                     (emit (ListDir PROMPTS_FOLDER)
                                        (snd (makedirs OUTPUT_BASE (snd (makedirs PROMPTS_FOLDER demo_world))))))
                     else session demo_env face files
                            (emit (ListDir PROMPTS_FOLDER)
                               (snd (makedirs OUTPUT_BASE (snd (makedirs PROMPTS_FOLDER demo_world))))))"
    by blast
  have s: "''shots.txt'' \<in> set files" using f1 b4 by blast
  have wn: "''winter.txt'' \<in> set files" using f1 b5 by blast
  then have "files \<noteq> []" by auto
  with f2 b3 have "main demo_env demo_world =
      session demo_env ''FACE'' files
        (emit (ListDir PROMPTS_FOLDER)
           (snd (makedirs OUTPUT_BASE (snd (makedirs PROMPTS_FOLDER demo_world)))))" by simp
  with s wn have r2: "\<exists>files. ''shots.txt'' \<in> set files \<and> ''winter.txt'' \<in> set files
         \<and> main demo_env demo_world =
             session demo_env ''FACE'' files
               (emit (ListDir PROMPTS_FOLDER)
                  (snd (makedirs OUTPUT_BASE (snd (makedirs PROMPTS_FOLDER demo_world)))))" by blast
  have r3: "map_of (fs (snd (main demo_env demo_world))) PROMPTS_FOLDER = Some Dir
     \<and> map_of (fs (snd (main demo_env demo_world))) OUTPUT_BASE = Some Dir"
    using t2 key b2 by blast
  note t3 = startup_creates_folders[where env = demo_env and w = ?wp and ?face0.0 = "''FACE''"]
  have c: "makedirs PROMPTS_FOLDER ?wp = (Some FileExistsError, emit (MakeDirs PROMPTS_FOLDER) ?wp)"
    by (simp add: makedirs_def ancestors_def PROMPTS_FOLDER_def face_world_def emit_def)
  have r4: "main demo_env ?wp = (Crashed FileExistsError, emit (MakeDirs PROMPTS_FOLDER) ?wp)"
    using t3 key c by simp
  note t4 = startup_creates_folders[where env = demo_env and w = ?wo and ?face0.0 = "''FACE''"]
  have d1: "makedirs PROMPTS_FOLDER ?wo =
      (None, emit (MakeDirs PROMPTS_FOLDER)
               (face_world\<lparr>fs := [(''output folder'', File ''x''), (''prompts'', Dir)]\<rparr>))"
    by (simp add: makedirs_def ancestors_def PROMPTS_FOLDER_def face_world_def emit_def)
  have d2: "makedirs OUTPUT_BASE (snd (makedirs PROMPTS_FOLDER ?wo)) =
      (Some FileExistsError, emit (MakeDirs OUTPUT_BASE) (emit (MakeDirs PROMPTS_FOLDER)
          (face_world\<lparr>fs := [(''output folder'', File ''x''), (''prompts'', Dir)]\<rparr>)))"
    unfolding d1
    by (simp add: makedirs_def ancestors_def OUTPUT_BASE_def PROMPTS_FOLDER_def face_world_def emit_def)
  have r5: "main demo_env ?wo =
       (Crashed FileExistsError,
        emit (MakeDirs OUTPUT_BASE) (emit (MakeDirs PROMPTS_FOLDER)
          (face_world\<lparr>fs := [(''output folder'', File ''x''), (''prompts'', Dir)]\<rparr>)))"
    using t4 key d1 d2 by simp
  show ?thesis using r1 a0 b1 r3 r2 r4 r5 by blast
qed

end
